(* ===== verification/Prelude.thy ===== *)
theory Prelude
  imports Main "HOL-Library.AList" "HOL-Library.Multiset"
begin

text \<open>
  What every component of the development shares: the collections of rules of the two judgements
  about handlers, which grow with the operations they cover, and the generic lemmas on lists,
  association lists and folds that the models of the Go maps and slices need.

  \<^item> \<open>ends_rules\<close>: a handler moves along the phases of a request (theory Protocol);
  \<^item> \<open>calm_rules\<close>: a handler does not panic (theory Server_Safety).
\<close>

named_theorems ends_rules \<open>rules of the judgement ends\<close>
named_theorems calm_rules \<open>rules of the judgement calm\<close>

section \<open>Association lists\<close>

lemma map_of_update [simp]:
  "map_of (AList.update k v xs) k' = (if k' = k then Some v else map_of xs k')"
  by (simp add: AList.update_conv')

lemma map_of_delete_same [simp]:
  "map_of (AList.delete k xs) k' = (if k' = k then None else map_of xs k')"
  by (simp add: AList.delete_conv')

lemma map_of_SomeI: "distinct (map fst xs) \<Longrightarrow> (k, v) \<in> set xs \<Longrightarrow> map_of xs k = Some v"
  by simp

lemma keys_update: "fst ` set (AList.update k v xs) = insert k (fst ` set xs)"
  by (simp add: AList.dom_update)

lemma keys_delete: "fst ` set (AList.delete k xs) = fst ` set xs - {k}"
  by (metis AList.delete_keys list.set_map set_removeAll)

lemma distinct_update [simp]:
  "distinct (map fst xs) \<Longrightarrow> distinct (map fst (AList.update k v xs))"
  by (rule AList.distinct_update)

lemma distinct_delete [simp]:
  "distinct (map fst xs) \<Longrightarrow> distinct (map fst (AList.delete k xs))"
  by (rule AList.distinct_delete)

lemma map_of_eq_None: "map_of xs k = None \<longleftrightarrow> k \<notin> fst ` set xs"
  by (rule map_of_eq_None_iff)

lemma map_of_eq_Some:
  "distinct (map fst xs) \<Longrightarrow> map_of xs k = Some v \<longleftrightarrow> (k, v) \<in> set xs"
  by (rule map_of_eq_Some_iff)

text \<open>Two enumerations of one map have the same entries, in some order.\<close>

lemma mset_eq_of_map_of_eq:
  assumes "distinct (map fst xs)" and "distinct (map fst ys)" and "map_of xs = map_of ys"
  shows "mset xs = mset ys"
proof -
  have "set xs = set ys"
    using assms by (metis map_of_eq_Some_iff subset_antisym subsetI surj_pair)
  then show ?thesis
    using assms(1,2) by (simp add: distinct_map set_eq_iff_mset_eq_distinct)
qed

lemma map_of_eq_of_mset_eq:
  assumes "distinct (map fst xs)" and "mset xs = mset ys"
  shows "map_of xs = map_of ys"
proof (rule map_of_eqI)
  have "mset (map fst xs) = mset (map fst ys)" using assms(2) by simp
  then show d: "set (map fst xs) = set (map fst ys)" by (rule mset_eq_setD)
  show "\<forall>x\<in>set (map fst xs). map_of xs x = map_of ys x"
  proof
    fix x assume "x \<in> set (map fst xs)"
    then obtain v where v: "(x, v) \<in> set xs" by auto
    then have "(x, v) \<in> set ys" using assms(2) by (metis mset_eq_setD)
    moreover have "distinct (map fst ys)"
      using assms by (metis mset_eq_imp_distinct_iff mset_map)
    ultimately show "map_of xs x = map_of ys x" using v assms(1) by simp
  qed
qed

section \<open>Filtering maps\<close>

lemma map_filter_cong:
  "(\<And>x. x \<in> set xs \<Longrightarrow> f x = g x) \<Longrightarrow> List.map_filter f xs = List.map_filter g xs"
  by (induction xs) (auto split: option.split)

lemma map_filter_map: "List.map_filter f (map g xs) = List.map_filter (\<lambda>x. f (g x)) xs"
  by (induction xs) (auto split: option.split)

lemma map_filter_filter:
  "List.map_filter f (filter p xs) = List.map_filter (\<lambda>x. if p x then f x else None) xs"
  by (induction xs) (auto split: option.split)

lemma map_filter_Some [simp]: "List.map_filter Some xs = xs"
  by (induction xs) auto

lemma map_of_map_filter:
  assumes "\<And>k v k' v'. f (k, v) = Some (k', v') \<Longrightarrow> k' = k" and "distinct (map fst xs)"
  shows "map_of (List.map_filter f xs) k =
    (case map_of xs k of None \<Rightarrow> None | Some v \<Rightarrow> map_option snd (f (k, v)))"
  using assms(2)
proof (induction xs)
  case (Cons a xs)
  obtain l v where a: "a = (l, v)" by (cases a)
  with Cons.prems have "map_of xs l = None" by (auto simp: map_of_eq_None_iff)
  with a Cons show ?case
    using assms(1) [of l v] by (cases "f (l, v)") (auto split: option.splits)
qed simp

lemma keys_map_filter:
  "(\<And>e e'. f e = Some e' \<Longrightarrow> fst e' = fst e) \<Longrightarrow>
   map fst (List.map_filter f xs) = map fst (filter (\<lambda>e. f e \<noteq> None) xs)"
  by (induction xs) (auto split: option.split)

lemma update_as_map:
  "distinct (map fst d) \<Longrightarrow> (k, v) \<in> set d \<Longrightarrow>
   AList.update k v' d = map (\<lambda>e. if e = (k, v) then (k, v') else e) d"
proof (induction d)
  case (Cons a d)
  then show ?case by (cases a) (auto simp: rev_image_eqI intro!: map_idI [symmetric])
qed simp

lemma delete_as_filter:
  assumes "distinct (map fst d)" and "(k, v) \<in> set d"
  shows "AList.delete k d = filter (\<lambda>e. e \<noteq> (k, v)) d"
  unfolding AList.delete_eq
proof (rule filter_cong [OF refl], clarify)
  fix l u assume "(l, u) \<in> set d"
  then show "(k \<noteq> l) = ((l, u) \<noteq> (k, v))"
    using assms by (metis map_of_eq_Some_iff option.inject prod.inject)
qed

section \<open>Sizes of list members\<close>

lemma size_list_member: "x \<in> set xs \<Longrightarrow> f x < size_list f xs"
  by (induction xs) auto

lemma size_list_mset: "mset xs = mset ys \<Longrightarrow> size_list f xs = size_list f ys"
proof -
  assume a: "mset xs = mset ys"
  have e: "size_list f zs = sum_mset (image_mset f (mset zs)) + size (mset zs)" for zs
    by (induction zs) auto
  show ?thesis by (simp add: e a)
qed

section \<open>Joining and folding\<close>

lemma fold_or: "fold (\<lambda>x b. b \<or> p x) xs b \<longleftrightarrow> b \<or> (\<exists>x \<in> set xs. p x)"
  by (induction xs arbitrary: b) auto

lemma fold_flag: "fold (\<lambda>x b. if p x then True else b) xs b \<longleftrightarrow> b \<or> (\<exists>x \<in> set xs. p x)"
  by (induction xs arbitrary: b) auto

lemma fold_unflag: "fold (\<lambda>x b. if p x then False else b) xs b \<longleftrightarrow> b \<and> (\<forall>x \<in> set xs. \<not> p x)"
  by (induction xs arbitrary: b) auto

end
