(* ===== verification/Go_Values.thy ===== *)
theory Go_Values
  imports Prelude Complex_Main "HOL-Library.Word"
begin

text \<open>
  The values and effects of Go that the service uses. A value of type \<open>interface{}\<close> is a
  \<open>gval\<close>: the dynamic types the program stores in one. A Go \<open>map[string]interface{}\<close> is
  \<open>gmap\<close>: \<open>None\<close> is the nil map, \<open>Some d\<close> a map whose entries are \<open>d\<close>, an association
  list with distinct keys (\<open>wf_dict\<close>). A function that can panic has an \<open>outcome\<close>; an
  \<open>error\<close> that is returned is a value (\<open>goerror option\<close>), never a panic.

  \<open>range\<close> over a map visits the entries in an order the language leaves open. Each such
  loop takes its order from a parameter \<open>ord\<close> of type \<open>range_order\<close> (one order for each
  loop of the source, named by its function, and each map); \<open>range_over\<close> makes any such
  parameter an enumeration of the map, so a theorem over all \<open>ord\<close> is a theorem over all
  iteration orders.

  A finite float64 is the rational number it denotes (JSON has no NaN and no infinity; the
  two zeros are one value).
\<close>

section \<open>Panics, outcomes and errors\<close>

datatype panic =
    TypeAssertion        \<comment> \<open>x.(T) with another dynamic type\<close>
  | NilDereference       \<comment> \<open>a method call on reflect.TypeOf(nil)\<close>
  | IndexOutOfRange
  | NoElem               \<comment> \<open>reflect.Type.Elem on a type without an element type\<close>
  | NilMapStore          \<comment> \<open>assignment to an entry of a nil map\<close>
  | Explicit string      \<comment> \<open>panic(...) of the source\<close>
  | Exit string          \<comment> \<open>log.Fatal or os.Exit: the process ends\<close>

datatype 'a outcome = Val 'a | Panic panic

fun obind :: "'a outcome \<Rightarrow> ('a \<Rightarrow> 'b outcome) \<Rightarrow> 'b outcome" where
  "obind (Val a) k = k a"
| "obind (Panic p) k = Panic p"

lemma obind_cong [fundef_cong]:
  "m = m' \<Longrightarrow> (\<And>a. m' = Val a \<Longrightarrow> k a = k' a) \<Longrightarrow> obind m k = obind m' k'"
  by (cases m') auto

lemma obind_eq_Val: "obind m k = Val b \<longleftrightarrow> (\<exists>a. m = Val a \<and> k a = Val b)"
  by (cases m) auto

lemma obind_assoc: "obind (obind m k) l = obind m (\<lambda>a. obind (k a) l)"
  by (cases m) auto

definition panics :: "'a outcome \<Rightarrow> bool" where
  "panics m = (case m of Val _ \<Rightarrow> False | Panic _ \<Rightarrow> True)"

lemma panics_simps [simp]: "\<not> panics (Val a)" "panics (Panic p)"
  by (simp_all add: panics_def)

lemma not_panics: "\<not> panics m \<longleftrightarrow> (\<exists>a. m = Val a)"
  by (cases m) auto

text \<open>
  The dynamic types of the errors the program handles: \<open>errors.New\<close>, the \<open>*NumError\<close> of
  package strconv, and errors of third-party packages and services, which carry their text.
\<close>

datatype numerr = ErrSyntax | ErrRange

datatype goerror =
    ErrorString string
  | NumError string numerr
  | ForeignError string

section \<open>Kinds and interface values\<close>

datatype kind =
    KBool | KInt | KInt64 | KUint8 | KUint | KFloat64 | KArray | KInterface | KMap | KSlice
  | KString | KStruct

definition kind_name :: "kind \<Rightarrow> string" where
  "kind_name k = (case k of
     KBool \<Rightarrow> ''bool'' | KInt \<Rightarrow> ''int'' | KInt64 \<Rightarrow> ''int64'' | KUint8 \<Rightarrow> ''uint8''
   | KUint \<Rightarrow> ''uint'' | KFloat64 \<Rightarrow> ''float64'' | KArray \<Rightarrow> ''array''
   | KInterface \<Rightarrow> ''interface'' | KMap \<Rightarrow> ''map'' | KSlice \<Rightarrow> ''slice''
   | KString \<Rightarrow> ''string'' | KStruct \<Rightarrow> ''struct'')"

datatype gval =
    GNil
  | GBool bool
  | GInt "64 word"                        \<comment> \<open>int on a 64-bit platform\<close>
  | GInt64 "64 word"
  | GFloat rat
  | GString string
  | GKind kind                            \<comment> \<open>reflect.Kind\<close>
  | GUUID "8 word list"                   \<comment> \<open>uuid.UUID, an array of 16 bytes\<close>
  | GTime string                          \<comment> \<open>time.Time from the driver, by its text\<close>
  | GBytes string                         \<comment> \<open>[]byte\<close>
  | GStrings "string list"                \<comment> \<open>[]string\<close>
  | GSlice "gval list"                    \<comment> \<open>[]interface{}\<close>
  | GMap "(string \<times> gval) list option"    \<comment> \<open>map[string]interface{}\<close>

type_synonym dict = "(string \<times> gval) list"
type_synonym gmap = "dict option"

text \<open>\<open>reflect.TypeOf(v).Kind()\<close>: the type of a nil interface is nil, and calling \<open>Kind\<close> on it
  panics.\<close>

fun kind_of :: "gval \<Rightarrow> kind outcome" where
  "kind_of GNil = Panic NilDereference"
| "kind_of (GBool _) = Val KBool"
| "kind_of (GInt _) = Val KInt"
| "kind_of (GInt64 _) = Val KInt64"
| "kind_of (GFloat _) = Val KFloat64"
| "kind_of (GString _) = Val KString"
| "kind_of (GKind _) = Val KUint"
| "kind_of (GUUID _) = Val KArray"
| "kind_of (GTime _) = Val KStruct"
| "kind_of (GBytes _) = Val KSlice"
| "kind_of (GStrings _) = Val KSlice"
| "kind_of (GSlice _) = Val KSlice"
| "kind_of (GMap _) = Val KMap"

text \<open>\<open>reflect.TypeOf(v).Elem().Kind()\<close>\<close>

fun elem_kind :: "gval \<Rightarrow> kind outcome" where
  "elem_kind GNil = Panic NilDereference"
| "elem_kind (GUUID _) = Val KUint8"
| "elem_kind (GBytes _) = Val KUint8"
| "elem_kind (GStrings _) = Val KString"
| "elem_kind (GSlice _) = Val KInterface"
| "elem_kind (GMap _) = Val KInterface"
| "elem_kind _ = Panic NoElem"

text \<open>Type assertions \<open>v.(T)\<close>.\<close>

fun as_string :: "gval \<Rightarrow> string outcome" where
  "as_string (GString s) = Val s"
| "as_string _ = Panic TypeAssertion"

fun as_bool :: "gval \<Rightarrow> bool outcome" where
  "as_bool (GBool b) = Val b"
| "as_bool _ = Panic TypeAssertion"

fun as_float :: "gval \<Rightarrow> rat outcome" where
  "as_float (GFloat x) = Val x"
| "as_float _ = Panic TypeAssertion"

fun as_kind :: "gval \<Rightarrow> kind outcome" where
  "as_kind (GKind k) = Val k"
| "as_kind _ = Panic TypeAssertion"

fun as_slice :: "gval \<Rightarrow> gval list outcome" where
  "as_slice (GSlice xs) = Val xs"
| "as_slice _ = Panic TypeAssertion"

fun as_strings :: "gval \<Rightarrow> string list outcome" where
  "as_strings (GStrings xs) = Val xs"
| "as_strings _ = Panic TypeAssertion"

fun as_map :: "gval \<Rightarrow> gmap outcome" where
  "as_map (GMap m) = Val m"
| "as_map _ = Panic TypeAssertion"

lemma as_string_Val: "as_string v = Val s \<longleftrightarrow> v = GString s"
  by (cases v) auto

lemma as_bool_Val: "as_bool v = Val b \<longleftrightarrow> v = GBool b"
  by (cases v) auto

lemma as_float_Val: "as_float v = Val x \<longleftrightarrow> v = GFloat x"
  by (cases v) auto

lemma as_slice_Val: "as_slice v = Val xs \<longleftrightarrow> v = GSlice xs"
  by (cases v) auto

lemma as_strings_Val: "as_strings v = Val xs \<longleftrightarrow> v = GStrings xs"
  by (cases v) auto

lemma as_map_Val: "as_map v = Val m \<longleftrightarrow> v = GMap m"
  by (cases v) auto

lemma as_kind_Val: "as_kind v = Val m \<longleftrightarrow> v = GKind m"
  by (cases v) auto

lemmas assertion_Val = as_string_Val as_bool_Val as_float_Val as_slice_Val as_strings_Val
  as_map_Val as_kind_Val

lemma kind_of_cases:
  "kind_of v = Val KString \<longleftrightarrow> (\<exists>s. v = GString s)"
  "kind_of v = Val KBool \<longleftrightarrow> (\<exists>b. v = GBool b)"
  "kind_of v = Val KFloat64 \<longleftrightarrow> (\<exists>x. v = GFloat x)"
  "kind_of v = Val KInt64 \<longleftrightarrow> (\<exists>w. v = GInt64 w)"
  "kind_of v = Val KInt \<longleftrightarrow> (\<exists>w. v = GInt w)"
  "kind_of v = Val KMap \<longleftrightarrow> (\<exists>m. v = GMap m)"
  "kind_of v = Val KSlice \<longleftrightarrow> (\<exists>xs. v = GSlice xs) \<or> (\<exists>xs. v = GStrings xs) \<or> (\<exists>xs. v = GBytes xs)"
  "kind_of v = Panic p \<longleftrightarrow> v = GNil \<and> p = NilDereference"
  by (cases v; auto)+

section \<open>Maps\<close>

definition entries :: "gmap \<Rightarrow> dict" where
  "entries m = (case m of None \<Rightarrow> [] | Some d \<Rightarrow> d)"

definition map_get :: "gmap \<Rightarrow> string \<Rightarrow> gval option" where
  "map_get m k = map_of (entries m) k"

text \<open>\<open>m[k]\<close> in an expression: the zero value (nil) for an absent key.\<close>

definition map_index :: "gmap \<Rightarrow> string \<Rightarrow> gval" where
  "map_index m k = (case map_get m k of None \<Rightarrow> GNil | Some v \<Rightarrow> v)"

text \<open>\<open>m[k] = v\<close>\<close>

definition map_store :: "gmap \<Rightarrow> string \<Rightarrow> gval \<Rightarrow> gmap outcome" where
  "map_store m k v = (case m of None \<Rightarrow> Panic NilMapStore | Some d \<Rightarrow> Val (Some (AList.update k v d)))"

text \<open>\<open>delete(m, k)\<close>, a no-op on the nil map.\<close>

definition map_delete :: "gmap \<Rightarrow> string \<Rightarrow> gmap" where
  "map_delete m k = map_option (AList.delete k) m"

definition map_len :: "gmap \<Rightarrow> nat" where
  "map_len m = length (entries m)"

definition wf_map :: "gmap \<Rightarrow> bool" where
  "wf_map m = distinct (map fst (entries m))"

lemma entries_simps [simp]: "entries None = []" "entries (Some d) = d"
  by (simp_all add: entries_def)

lemma map_get_simps [simp]: "map_get None k = None" "map_get (Some d) k = map_of d k"
  by (simp_all add: map_get_def)

lemma map_get_key: "map_get m k \<noteq> None \<longleftrightarrow> k \<in> fst ` set (entries m)"
  by (simp add: map_get_def map_of_eq_None_iff)

lemma map_store_Some [simp]: "map_store (Some d) k v = Val (Some (AList.update k v d))"
  by (simp add: map_store_def)

lemma map_store_Val:
  "map_store m k v = Val m' \<longleftrightarrow> (\<exists>d. m = Some d \<and> m' = Some (AList.update k v d))"
  by (cases m) (auto simp: map_store_def)

lemma map_delete_simps [simp]: "map_delete None k = None"
  "map_delete (Some d) k = Some (AList.delete k d)"
  by (simp_all add: map_delete_def)

lemma map_get_delete [simp]:
  "map_get (map_delete m k) k' = (if k' = k then None else map_get m k')"
  by (cases m) auto

lemma map_get_store:
  "map_store m k v = Val m' \<Longrightarrow> map_get m' k' = (if k' = k then Some v else map_get m k')"
  by (auto simp: map_store_Val)

lemma wf_map_simps [simp]: "wf_map None" "wf_map (Some d) = distinct (map fst d)"
  by (simp_all add: wf_map_def)

lemma wf_map_delete [simp]: "wf_map m \<Longrightarrow> wf_map (map_delete m k)"
  by (cases m) auto

lemma wf_map_store: "wf_map m \<Longrightarrow> map_store m k v = Val m' \<Longrightarrow> wf_map m'"
  by (auto simp: map_store_Val)

section \<open>Iteration order\<close>

type_synonym range_order = "string \<Rightarrow> dict \<Rightarrow> dict"

definition range_over :: "range_order \<Rightarrow> string \<Rightarrow> gmap \<Rightarrow> dict" where
  "range_over ord site m =
     (let d = entries m; e = ord site d in if mset e = mset d then e else d)"

lemma mset_range_over [simp]: "mset (range_over ord site m) = mset (entries m)"
  by (simp add: range_over_def Let_def)

lemma set_range_over [simp]: "set (range_over ord site m) = set (entries m)"
  by (metis mset_range_over set_mset_mset)

lemma length_range_over [simp]: "length (range_over ord site m) = length (entries m)"
  by (metis mset_range_over size_mset)

lemma distinct_range_over:
  "distinct (map fst (range_over ord site m)) = distinct (map fst (entries m))"
  by (metis mset_eq_imp_distinct_iff mset_map mset_range_over)

lemma range_over_nil [simp]: "range_over ord site None = []"
  by (metis entries_simps(1) length_0_conv length_range_over list.size(3))

lemma range_over_empty [simp]: "range_over ord site (Some []) = []"
  by (metis entries_simps(2) length_0_conv length_range_over list.size(3))

lemma range_over_id [simp]: "range_over (\<lambda>_ m. m) site m = entries m"
  by (simp add: range_over_def Let_def)

lemma range_over_single [simp]: "range_over ord site (Some [e]) = [e]"
proof -
  have "mset (range_over ord site (Some [e])) = {#e#}" by simp
  then show ?thesis by (simp only: mset_single_iff)
qed

lemma map_of_range_over:
  "wf_map m \<Longrightarrow> map_of (range_over ord site m) = map_get m"
  by (metis distinct_range_over map_get_def map_of_eq_of_mset_eq mset_range_over wf_map_def ext)

section \<open>Loops that stop at an error\<close>

text \<open>\<open>for _, x := range xs { if err := f(x); err != nil { return err } }\<close>\<close>

fun first_error :: "('a \<Rightarrow> goerror option outcome) \<Rightarrow> 'a list \<Rightarrow> goerror option outcome" where
  "first_error f [] = Val None"
| "first_error f (x # xs) =
     obind (f x) (\<lambda>err. case err of Some e \<Rightarrow> Val (Some e) | None \<Rightarrow> first_error f xs)"

lemma first_error_cong [fundef_cong]:
  "xs = ys \<Longrightarrow> (\<And>x. x \<in> set ys \<Longrightarrow> f x = g x) \<Longrightarrow> first_error f xs = first_error g ys"
proof (induction xs arbitrary: ys)
  case (Cons x xs)
  then have "first_error f xs = first_error g xs" and "f x = g x" by auto
  then show ?case using Cons.prems(1) by (auto simp del: first_error.simps simp: first_error.simps(2))
qed simp

lemma first_error_ok: "first_error f xs = Val None \<longleftrightarrow> (\<forall>x \<in> set xs. f x = Val None)"
  by (induction xs) (auto simp: obind_eq_Val split: option.splits)

lemma first_error_total:
  "(\<forall>x \<in> set xs. \<exists>e. f x = Val e) \<Longrightarrow> \<exists>e. first_error f xs = Val e"
proof (induction xs)
  case (Cons x xs)
  then obtain e e' where "f x = Val e" and "first_error f xs = Val e'" by auto
  then show ?case by (cases e) auto
qed simp

section \<open>Sizes\<close>

definition dsize :: "dict \<Rightarrow> nat" where
  "dsize d = sum_list (map (\<lambda>(k, v). Suc (size v)) d)"

lemma dsize_simps [simp]: "dsize [] = 0" "dsize ((k, v) # d) = Suc (size v) + dsize d"
  by (simp_all add: dsize_def)

lemma dsize_member: "(k, v) \<in> set d \<Longrightarrow> size v < dsize d"
  by (induction d) auto

lemma dsize_mset: "mset d = mset e \<Longrightarrow> dsize d = dsize e"
  unfolding dsize_def by (metis (no_types, lifting) mset_map sum_mset_sum_list)

lemma dsize_range_over [simp]: "dsize (range_over ord site m) = dsize (entries m)"
  by (rule dsize_mset) simp

lemma dsize_get: "map_get m k = Some v \<Longrightarrow> size v < dsize (entries m)"
  unfolding map_get_def by (auto intro: dsize_member dest: map_of_SomeD)

lemma dsize_size: "dsize (entries m) \<le> size (GMap m)"
proof -
  have "dsize d \<le> size (GMap (Some d))" for d
    by (induction d) auto
  then show ?thesis by (cases m) auto
qed

section \<open>Well-formed values\<close>

lemma size_slice_member: "x \<in> set xs \<Longrightarrow> size x < size (GSlice xs)"
  by (induction xs) auto

text \<open>Every map of the value, at any depth, has distinct keys: what Go maps are.\<close>

function wf_val :: "gval \<Rightarrow> bool" where
  "wf_val v = (case v of
     GSlice xs \<Rightarrow> list_all wf_val xs
   | GMap m \<Rightarrow> distinct (map fst (entries m)) \<and> list_all (\<lambda>e. wf_val (snd e)) (entries m)
   | _ \<Rightarrow> True)"
  by pat_completeness auto

termination
proof (relation "measure size", goal_cases)
  case (2 v xs z)
  then show ?case using size_slice_member by auto
next
  case (3 v m z)
  then show ?case using dsize_member [of "fst z" "snd z"] dsize_size [of m] by fastforce
qed simp

declare wf_val.simps [simp del]

lemma wf_val_simps [simp]:
  "wf_val GNil" "wf_val (GBool b)" "wf_val (GInt i)" "wf_val (GInt64 j)" "wf_val (GFloat x)"
  "wf_val (GString s)" "wf_val (GKind k)" "wf_val (GUUID u)" "wf_val (GTime t)" "wf_val (GBytes t)"
  "wf_val (GStrings ss)"
  "wf_val (GSlice xs) \<longleftrightarrow> (\<forall>x \<in> set xs. wf_val x)"
  "wf_val (GMap m) \<longleftrightarrow> wf_map m \<and> (\<forall>(k, v) \<in> set (entries m). wf_val v)"
  by (auto simp: wf_val.simps list_all_iff wf_map_def)

lemma wf_val_entry: "wf_val (GMap m) \<Longrightarrow> (k, v) \<in> set (entries m) \<Longrightarrow> wf_val v"
  by auto

lemma wf_val_get: "wf_val (GMap m) \<Longrightarrow> map_get m k = Some v \<Longrightarrow> wf_val v"
  unfolding map_get_def by (erule wf_val_entry) (erule map_of_SomeD)

lemma wf_val_map: "wf_val (GMap m) \<Longrightarrow> wf_map m"
  by simp

lemma wf_val_store:
  assumes "wf_val (GMap m)" "wf_val v" "map_store m k v = Val m'"
  shows "wf_val (GMap m')"
proof -
  obtain d where d: "m = Some d" "m' = Some (AList.update k v d)" using assms(3) by (auto simp: map_store_Val)
  then have dist: "distinct (map fst (AList.update k v d))" using assms(1) by simp
  have "wf_val w" if "(k', w) \<in> set (AList.update k v d)" for k' w
  proof -
    have "map_of (AList.update k v d) k' = Some w"
      using map_of_is_SomeI [OF dist that] .
    then show ?thesis using assms(1,2) d by (auto split: if_splits simp: update_conv' dest: map_of_SomeD)
  qed
  with d dist show ?thesis by auto
qed

lemma wf_val_delete: "wf_val (GMap m) \<Longrightarrow> wf_val (GMap (map_delete m k))"
proof (cases m)
  case (Some d)
  assume "wf_val (GMap m)"
  moreover have "set (AList.delete k d) \<subseteq> set d" by (auto simp: AList.delete_eq)
  ultimately show ?thesis using Some by auto
qed simp

end
