(* ===== verification/Go_Strings.thy ===== *)
theory Go_Strings
  imports Go_Values
begin

text \<open>
  What the service uses of packages strconv, strings and unicode/utf8. A Go string is its
  bytes, a \<open>string\<close> of HOL. Decimal printing and \<open>ParseInt\<close> follow the loops of strconv
  (left to right, syntax before range at each digit); \<open>rune_count s\<close> is \<open>len([]rune(s))\<close>,
  with one rune for each byte that starts no valid UTF-8 sequence.
\<close>

section \<open>Decimal numbers\<close>

definition digit_char :: "nat \<Rightarrow> char" where
  "digit_char d = char_of (48 + d)"

lemma digit_char_simps [simp]:
  "digit_char 0 = CHR ''0''" "digit_char (Suc 0) = CHR ''1''" "digit_char 1 = CHR ''1''"
  "digit_char 2 = CHR ''2''" "digit_char 3 = CHR ''3''" "digit_char 4 = CHR ''4''"
  "digit_char 5 = CHR ''5''" "digit_char 6 = CHR ''6''" "digit_char 7 = CHR ''7''"
  "digit_char 8 = CHR ''8''" "digit_char 9 = CHR ''9''"
  by (simp_all add: digit_char_def char_of_def bit_0)

definition is_digit :: "char \<Rightarrow> bool" where
  "is_digit c = (48 \<le> (of_char c :: nat) \<and> (of_char c :: nat) \<le> 57)"

definition digit_val :: "char \<Rightarrow> nat" where
  "digit_val c = of_char c - 48"

lemma is_digit_digit_char [simp]: "d < 10 \<Longrightarrow> is_digit (digit_char d)"
  by (simp add: is_digit_def digit_char_def)

lemma digit_val_digit_char [simp]: "d < 10 \<Longrightarrow> digit_val (digit_char d) = d"
  by (simp add: digit_val_def digit_char_def)

lemma digit_val_le: "is_digit c \<Longrightarrow> digit_val c \<le> 9"
  unfolding is_digit_def digit_val_def by linarith

fun dec_nat :: "nat \<Rightarrow> string" where
  "dec_nat n = (if n < 10 then [digit_char n] else dec_nat (n div 10) @ [digit_char (n mod 10)])"

declare dec_nat.simps [simp del]

text \<open>\<open>strconv.FormatInt(i, 10)\<close>, also \<open>FormatUint\<close> and \<open>fmt.Sprint\<close> of an integer.\<close>

definition FormatInt :: "int \<Rightarrow> string" where
  "FormatInt i = (if i < 0 then CHR ''-'' # dec_nat (nat (- i)) else dec_nat (nat i))"

lemma dec_nat_nonempty [simp]: "dec_nat n \<noteq> []"
  by (subst dec_nat.simps) simp

lemma dec_nat_digits: "c \<in> set (dec_nat n) \<Longrightarrow> is_digit c"
proof (induction n rule: dec_nat.induct)
  case (1 n)
  then show ?case
    by (cases "n < 10") (auto simp: dec_nat.simps [of n])
qed

text \<open>The loop of \<open>strconv.ParseUint\<close> for base 10 and 64 bits; its cutoff is
  \<open>(2^64 - 1) / 10 + 1\<close>.\<close>

fun parse_digits :: "nat \<Rightarrow> string \<Rightarrow> numerr + nat" where
  "parse_digits n [] = Inr n"
| "parse_digits n (c # cs) =
     (if \<not> is_digit c then Inl ErrSyntax
      else if 1844674407370955162 \<le> n then Inl ErrRange
      else if 18446744073709551615 < n * 10 + digit_val c then Inl ErrRange
      else parse_digits (n * 10 + digit_val c) cs)"

definition parse_uint :: "string \<Rightarrow> numerr + nat" where
  "parse_uint s = (if s = [] then Inl ErrSyntax else parse_digits 0 s)"

text \<open>\<open>strconv.ParseInt(s, 10, 64)\<close>\<close>

definition ParseInt :: "string \<Rightarrow> goerror + 64 word" where
  "ParseInt s =
     (if s = [] then Inl (NumError s ErrSyntax)
      else
        let neg = (hd s = CHR ''-'');
            rest = (if hd s = CHR ''+'' \<or> hd s = CHR ''-'' then tl s else s)
        in case parse_uint rest of
             Inl e \<Rightarrow> Inl (NumError s e)
           | Inr un \<Rightarrow>
               if \<not> neg \<and> 9223372036854775808 \<le> un then Inl (NumError s ErrRange)
               else if neg \<and> 9223372036854775808 < un then Inl (NumError s ErrRange)
               else Inr (word_of_int (if neg then - int un else int un)))"

lemma parse_digits_append:
  "parse_digits n (xs @ ys) =
     (case parse_digits n xs of Inl e \<Rightarrow> Inl e | Inr m \<Rightarrow> parse_digits m ys)"
  by (induction n xs rule: parse_digits.induct) auto

lemma parse_digits_dec_nat: "n \<le> 18446744073709551615 \<Longrightarrow> parse_digits 0 (dec_nat n) = Inr n"
proof (induction n rule: dec_nat.induct)
  case (1 n)
  show ?case
  proof (cases "n < 10")
    case True
    then show ?thesis by (simp add: dec_nat.simps [of n])
  next
    case False
    with 1 have "parse_digits 0 (dec_nat (n div 10)) = Inr (n div 10)" by simp
    moreover have "n div 10 < 1844674407370955162" using "1.prems" by simp
    ultimately show ?thesis
      using False "1.prems" by (simp add: dec_nat.simps [of n] parse_digits_append)
  qed
qed

lemma parse_uint_dec_nat: "n \<le> 18446744073709551615 \<Longrightarrow> parse_uint (dec_nat n) = Inr n"
  by (simp add: parse_uint_def parse_digits_dec_nat)

lemma hd_dec_nat_digit: "is_digit (hd (dec_nat n))"
  by (rule dec_nat_digits [of _ n]) simp

lemma hd_dec_nat [simp]: "hd (dec_nat n) \<noteq> CHR ''-''" "hd (dec_nat n) \<noteq> CHR ''+''"
  using hd_dec_nat_digit [of n] by (auto simp: is_digit_def)

text \<open>Reading back what was printed.\<close>

lemma ParseInt_FormatInt:
  assumes "- 9223372036854775808 \<le> i" and "i \<le> 9223372036854775807"
  shows "ParseInt (FormatInt i) = Inr (word_of_int i)"
proof (cases "i < 0")
  case True
  then have "parse_uint (dec_nat (nat (- i))) = Inr (nat (- i))"
    using assms by (intro parse_uint_dec_nat) simp
  with True assms show ?thesis
    by (simp add: ParseInt_def FormatInt_def Let_def nat_less_iff)
next
  case False
  then have "parse_uint (dec_nat (nat i)) = Inr (nat i)"
    using assms by (intro parse_uint_dec_nat) simp
  with False assms show ?thesis
    by (simp add: ParseInt_def FormatInt_def Let_def nat_le_iff le_nat_iff)
qed

section \<open>Floating-point text\<close>

text \<open>\<open>strconv.FormatFloat(x, 'f', 0, 64)\<close>: the nearest integer, ties to even.\<close>

definition FormatFloat0 :: "rat \<Rightarrow> string" where
  "FormatFloat0 x =
     (let q = \<bar>x\<bar>; f = \<lfloor>q\<rfloor>; r = q - of_int f;
          n = (if r < 1 / 2 \<or> (r = 1 / 2 \<and> even f) then f else f + 1)
      in (if x < 0 then ''-'' else []) @ dec_nat (nat n))"

section \<open>Joining and prefixes\<close>

text \<open>\<open>strings.Join(xs, sep)\<close>\<close>

fun join :: "string \<Rightarrow> string list \<Rightarrow> string" where
  "join sep [] = []"
| "join sep [x] = x"
| "join sep (x # y # xs) = x @ sep @ join sep (y # xs)"

definition HasPrefix :: "string \<Rightarrow> string \<Rightarrow> bool" where
  "HasPrefix s p = (take (length p) s = p)"

section \<open>Runes\<close>

definition byte_in :: "nat \<Rightarrow> nat \<Rightarrow> char \<Rightarrow> bool" where
  "byte_in lo hi c = (lo \<le> (of_char c :: nat) \<and> (of_char c :: nat) \<le> hi)"

text \<open>The number of bytes the first rune of \<open>c # cs\<close> takes.\<close>

definition rune_width :: "char \<Rightarrow> string \<Rightarrow> nat" where
  "rune_width c cs =
     (let b = (of_char c :: nat) in
      if 0xC2 \<le> b \<and> b \<le> 0xDF then
        (case cs of c1 # _ \<Rightarrow> if byte_in 0x80 0xBF c1 then 2 else 1 | _ \<Rightarrow> 1)
      else if 0xE0 \<le> b \<and> b \<le> 0xEF then
        (case cs of c1 # c2 # _ \<Rightarrow>
           if byte_in (if b = 0xE0 then 0xA0 else 0x80) (if b = 0xED then 0x9F else 0xBF) c1
              \<and> byte_in 0x80 0xBF c2 then 3 else 1
         | _ \<Rightarrow> 1)
      else if 0xF0 \<le> b \<and> b \<le> 0xF4 then
        (case cs of c1 # c2 # c3 # _ \<Rightarrow>
           if byte_in (if b = 0xF0 then 0x90 else 0x80) (if b = 0xF4 then 0x8F else 0xBF) c1
              \<and> byte_in 0x80 0xBF c2 \<and> byte_in 0x80 0xBF c3 then 4 else 1
         | _ \<Rightarrow> 1)
      else 1)"

lemma rune_width_pos: "1 \<le> rune_width c cs"
  by (simp add: rune_width_def Let_def split: list.split)

fun rune_count :: "string \<Rightarrow> nat" where
  "rune_count [] = 0"
| "rune_count (c # cs) = Suc (rune_count (drop (rune_width c cs - 1) cs))"

lemma rune_count_le: "rune_count s \<le> length s"
proof (induction s rule: rune_count.induct)
  case (2 c cs)
  then show ?case by simp
qed simp

lemma rune_count_ascii: "\<forall>c \<in> set s. (of_char c :: nat) < 128 \<Longrightarrow> rune_count s = length s"
proof (induction s)
  case (Cons c cs)
  then have "rune_width c cs = 1" by (simp add: rune_width_def)
  with Cons show ?case by simp
qed simp

text \<open>The UTF-8 encoding of a code point, and the count of an encoded text.\<close>

definition scalar_value :: "nat \<Rightarrow> bool" where
  "scalar_value n = (n < 0xD800 \<or> (0xDFFF < n \<and> n \<le> 0x10FFFF))"

definition encode_rune :: "nat \<Rightarrow> string" where
  "encode_rune n =
     (if n < 0x80 then [char_of n]
      else if n < 0x800 then [char_of (0xC0 + n div 64), char_of (0x80 + n mod 64)]
      else if n < 0x10000 then
        [char_of (0xE0 + n div 4096), char_of (0x80 + n div 64 mod 64), char_of (0x80 + n mod 64)]
      else
        [char_of (0xF0 + n div 262144), char_of (0x80 + n div 4096 mod 64),
         char_of (0x80 + n div 64 mod 64), char_of (0x80 + n mod 64)])"

lemma rune_count_2:
  "2 \<le> a \<Longrightarrow> a < 32 \<Longrightarrow> b < 64 \<Longrightarrow>
   rune_count (char_of (0xC0 + a) # char_of (0x80 + b) # s) = Suc (rune_count s)"
  for a b :: nat
  by (simp add: rune_width_def byte_in_def)

lemma rune_count_3:
  "a < 16 \<Longrightarrow> b < 64 \<Longrightarrow> c < 64 \<Longrightarrow> (a = 0 \<longrightarrow> 32 \<le> b) \<Longrightarrow> (a = 13 \<longrightarrow> b \<le> 31) \<Longrightarrow>
   rune_count (char_of (0xE0 + a) # char_of (0x80 + b) # char_of (0x80 + c) # s) = Suc (rune_count s)"
  for a b c :: nat
  by (simp add: rune_width_def byte_in_def)

lemma rune_count_4:
  "a \<le> 4 \<Longrightarrow> b < 64 \<Longrightarrow> c < 64 \<Longrightarrow> d < 64 \<Longrightarrow> (a = 0 \<longrightarrow> 16 \<le> b) \<Longrightarrow> (a = 4 \<longrightarrow> b \<le> 15) \<Longrightarrow>
   rune_count (char_of (0xF0 + a) # char_of (0x80 + b) # char_of (0x80 + c) # char_of (0x80 + d) # s)
     = Suc (rune_count s)"
  for a b c d :: nat
  by (simp add: rune_width_def byte_in_def)

lemma rune_count_encode1:
  assumes "scalar_value n"
  shows "rune_count (encode_rune n @ s) = Suc (rune_count s)"
proof -
  consider "n < 0x80" | "0x80 \<le> n" "n < 0x800" | "0x800 \<le> n" "n < 0x10000"
    | "0x10000 \<le> n" "n \<le> 0x10FFFF" using assms unfolding scalar_value_def by linarith
  then show ?thesis
  proof cases
    case 1
    then show ?thesis by (simp add: encode_rune_def rune_width_def)
  next
    case 2
    have "rune_count (char_of (0xC0 + n div 64) # char_of (0x80 + n mod 64) # s) = Suc (rune_count s)"
      using 2 by (intro rune_count_2) (auto simp: div_less_iff_less_mult less_eq_div_iff_mult_less_eq)
    with 2 show ?thesis by (simp add: encode_rune_def del: rune_count.simps)
  next
    case 3
    have d: "n div 4096 = n div 64 div 64" by (simp flip: div_mult2_eq)
    have m: "n div 64 = 64 * (n div 64 div 64) + n div 64 mod 64" by simp
    have "32 \<le> n div 64" "n div 64 < 864 \<or> 896 \<le> n div 64"
      using assms 3 unfolding scalar_value_def by auto
    moreover have "n div 64 mod 64 < 64" by simp
    ultimately have "n div 4096 = 13 \<longrightarrow> n div 64 mod 64 \<le> 31" "n div 4096 = 0 \<longrightarrow> 32 \<le> n div 64 mod 64"
      using d m by linarith+
    moreover have "n div 4096 < 16" using 3 by (simp add: div_less_iff_less_mult)
    ultimately have "rune_count (char_of (0xE0 + n div 4096) # char_of (0x80 + n div 64 mod 64)
        # char_of (0x80 + n mod 64) # s) = Suc (rune_count s)"
      by (intro rune_count_3) simp_all
    with 3 show ?thesis by (simp add: encode_rune_def del: rune_count.simps)
  next
    case 4
    have d: "n div 262144 = n div 4096 div 64" by (simp flip: div_mult2_eq)
    have m: "n div 4096 = 64 * (n div 4096 div 64) + n div 4096 mod 64" by simp
    have "16 \<le> n div 4096" "n div 4096 < 272" using 4 by auto
    then have "n div 262144 = 4 \<longrightarrow> n div 4096 mod 64 \<le> 15" "n div 262144 = 0 \<longrightarrow> 16 \<le> n div 4096 mod 64"
      using d m by linarith+
    moreover have "n div 262144 \<le> 4" using 4 by auto
    ultimately have "rune_count (char_of (0xF0 + n div 262144) # char_of (0x80 + n div 4096 mod 64)
        # char_of (0x80 + n div 64 mod 64) # char_of (0x80 + n mod 64) # s) = Suc (rune_count s)"
      by (intro rune_count_4) simp_all
    with 4 show ?thesis by (simp add: encode_rune_def del: rune_count.simps)
  qed
qed

lemma rune_count_encode:
  "\<forall>n \<in> set ns. scalar_value n \<Longrightarrow> rune_count (concat (map encode_rune ns)) = length ns"
  by (induction ns) (simp_all add: rune_count_encode1)

end
