(* ===== verification/Go_Http.thy ===== *)
theory Go_Http
  imports Go_Strings
begin

text \<open>
  What the service uses of package net/http for its answers, and the functions of packages
  outside the repository that return values only.

  A \<open>response_writer\<close> holds the header map, and, once \<open>WriteHeader\<close> has been called, the
  status and the headers sent with it; later calls of \<open>WriteHeader\<close> change nothing. A body
  write before any \<open>WriteHeader\<close> sends status 200, and a status that allows no body drops it.

  \<open>externals\<close> are parameters of the model: the UUID parser of satori/go.uuid, \<open>strconv.Quote\<close>,
  the JSON codec and the formatted current time.
\<close>

section \<open>Parameters\<close>

record externals =
  uuid_FromString :: "string \<Rightarrow> goerror + 8 word list"
  strconv_Quote :: "string \<Rightarrow> string"
  json_Marshal :: "gval \<Rightarrow> goerror + string"
  json_Unmarshal :: "string \<Rightarrow> goerror + gmap"   \<comment> \<open>into an empty map[string]interface{}\<close>
  time_Now_Format :: "string \<Rightarrow> string"         \<comment> \<open>time.Now().Format(layout)\<close>

text \<open>The \<open>Error()\<close> method.\<close>

definition Error :: "externals \<Rightarrow> goerror \<Rightarrow> string" where
  "Error ext e = (case e of
     ErrorString s \<Rightarrow> s
   | NumError s k \<Rightarrow> ''strconv.ParseInt: parsing '' @ strconv_Quote ext s @ '': '' @
       (case k of ErrSyntax \<Rightarrow> ''invalid syntax'' | ErrRange \<Rightarrow> ''value out of range'')
   | ForeignError s \<Rightarrow> s)"

section \<open>Response writers\<close>

record response_writer =
  rw_header :: "(string \<times> string) list"
  rw_status :: "nat option"
  rw_sent :: "(string \<times> string) list"
  rw_body :: string

definition fresh_writer :: response_writer where
  "fresh_writer = \<lparr>rw_header = [], rw_status = None, rw_sent = [], rw_body = []\<rparr>"

definition Header_Set :: "string \<Rightarrow> string \<Rightarrow> response_writer \<Rightarrow> response_writer" where
  "Header_Set k v w = w\<lparr>rw_header := AList.update k v (rw_header w)\<rparr>"

definition WriteHeader :: "nat \<Rightarrow> response_writer \<Rightarrow> response_writer" where
  "WriteHeader code w =
     (if rw_status w = None then w\<lparr>rw_status := Some code, rw_sent := rw_header w\<rparr> else w)"

definition body_allowed :: "nat \<Rightarrow> bool" where
  "body_allowed code = (\<not> (100 \<le> code \<and> code \<le> 199) \<and> code \<noteq> 204 \<and> code \<noteq> 304)"

definition WriteString :: "string \<Rightarrow> response_writer \<Rightarrow> response_writer" where
  "WriteString s w =
     (let w' = WriteHeader 200 w in
      if rw_status w' = None \<or> \<not> body_allowed (the (rw_status w')) then w'
      else w'\<lparr>rw_body := rw_body w' @ s\<rparr>)"

text \<open>\<open>http.Error(w, msg, code)\<close>\<close>

definition http_Error :: "string \<Rightarrow> nat \<Rightarrow> response_writer \<Rightarrow> response_writer" where
  "http_Error msg code w =
     WriteString (msg @ ''\<newline>'')
       (WriteHeader code
         (Header_Set ''X-Content-Type-Options'' ''nosniff''
           (Header_Set ''Content-Type'' ''text/plain; charset=utf-8'' w)))"

text \<open>What the server sends when the handler has returned.\<close>

definition final_status :: "response_writer \<Rightarrow> nat" where
  "final_status w = (case rw_status w of None \<Rightarrow> 200 | Some c \<Rightarrow> c)"

lemma WriteHeader_status [simp]:
  "rw_status (WriteHeader c w) = (case rw_status w of None \<Rightarrow> Some c | Some d \<Rightarrow> Some d)"
  by (simp add: WriteHeader_def split: option.split)

lemma WriteHeader_body [simp]: "rw_body (WriteHeader c w) = rw_body w"
  by (simp add: WriteHeader_def)

lemma WriteString_status [simp]:
  "rw_status (WriteString s w) = (case rw_status w of None \<Rightarrow> Some 200 | Some d \<Rightarrow> Some d)"
  by (simp add: WriteString_def Let_def split: option.split)

lemma WriteString_body:
  "rw_status w = Some c \<Longrightarrow> body_allowed c \<Longrightarrow> rw_body (WriteString s w) = rw_body w @ s"
  "rw_status w = None \<Longrightarrow> rw_body (WriteString s w) = rw_body w @ s"
  by (auto simp: WriteString_def WriteHeader_def body_allowed_def Let_def)

lemma Header_Set_simps [simp]:
  "rw_status (Header_Set k v w) = rw_status w" "rw_body (Header_Set k v w) = rw_body w"
  "rw_sent (Header_Set k v w) = rw_sent w"
  "rw_header (Header_Set k v w) = AList.update k v (rw_header w)"
  by (simp_all add: Header_Set_def)

lemma http_Error_status [simp]:
  "rw_status (http_Error msg c w) = (case rw_status w of None \<Rightarrow> Some c | Some d \<Rightarrow> Some d)"
  by (simp add: http_Error_def split: option.split)

lemma http_Error_body:
  "rw_status w = None \<Longrightarrow> body_allowed c \<Longrightarrow> rw_body (http_Error msg c w) = rw_body w @ msg @ ''\<newline>''"
  by (simp add: http_Error_def WriteString_body)

lemma WriteHeader_sent: "rw_status w = None \<Longrightarrow> rw_sent (WriteHeader c w) = rw_header w"
  by (simp add: WriteHeader_def)

lemma WriteString_sent:
  "rw_sent (WriteString s w) = (if rw_status w = None then rw_header w else rw_sent w)"
  by (cases "rw_status w") (simp_all add: WriteString_def WriteHeader_def Let_def)

end
