(* ===== verification/Common.thy ===== *)
theory Common
  imports Go_Http
begin

text \<open>
  Package common (\<open>common/common.go\<close>): the map helper \<open>SetKey\<close> in its two forms, the
  conversion of a JSON array to \<open>[]string\<close>, and the functions that shape and write the HTTP
  answers. A function that writes an answer returns its \<open>error\<close> and the writer. The contract of
  the error answers is the locale \<open>responder\<close>, interpreted on each of them.
\<close>

section \<open>Maps\<close>

text \<open>\<open>SetKey\<close>: the result pair \<open>(rv, err)\<close> and the map afterwards.\<close>

definition SetKey :: "gmap \<Rightarrow> string \<Rightarrow> gval \<Rightarrow> (bool \<times> goerror option) \<times> gmap" where
  "SetKey dict key value = (case dict of
     None \<Rightarrow> ((False, Some (ErrorString ''Uninitialized map passed'')), None)
   | Some d \<Rightarrow>
       let d1 = (case map_of d key of None \<Rightarrow> AList.update key (GSlice []) d | Some _ \<Rightarrow> d)
       in ((True, None), Some (AList.update key value d1)))"

definition Dict_SetKey :: "gmap \<Rightarrow> string \<Rightarrow> gval \<Rightarrow> (bool \<times> goerror option) \<times> gmap" where
  "Dict_SetKey d key value = (case d of
     None \<Rightarrow> ((False, Some (ErrorString ''Uninitialized map passed'')), None)
   | Some dict \<Rightarrow>
       let dict1 = (case map_of dict key of None \<Rightarrow> AList.update key (GSlice []) dict | Some _ \<Rightarrow> dict)
       in ((True, None), Some (AList.update key value dict1)))"

definition NewDict :: gmap where
  "NewDict = Some []"

text \<open>A call whose results are dropped.\<close>

definition put :: "string \<Rightarrow> gval \<Rightarrow> gmap \<Rightarrow> gmap" where
  "put key value dict = snd (SetKey dict key value)"

lemma SetKey_nil: "SetKey None k v = ((False, Some (ErrorString ''Uninitialized map passed'')), None)"
  by (simp add: SetKey_def)

lemma SetKey_Some: "SetKey (Some d) k v = ((True, None), Some (AList.update k v d))"
  by (simp add: SetKey_def Let_def split: option.split)

lemma put_simps [simp]: "put k v None = None" "put k v (Some d) = Some (AList.update k v d)"
  by (simp_all add: put_def SetKey_nil SetKey_Some)

lemma map_get_put [simp]:
  "map_get (put k v m) k' = (if k' = k \<and> m \<noteq> None then Some v else map_get m k')"
  by (cases m) auto

section \<open>Arrays of strings\<close>

fun string_elements :: "gval list \<Rightarrow> string list outcome" where
  "string_elements [] = Val []"
| "string_elements (v # vs) =
     obind (as_string v) (\<lambda>s. obind (string_elements vs) (\<lambda>ss. Val (s # ss)))"

definition InterfaceToStringArray :: "gval \<Rightarrow> string list outcome" where
  "InterfaceToStringArray input_if = obind (as_slice input_if) string_elements"

lemma string_elements_Val: "string_elements vs = Val ss \<longleftrightarrow> vs = map GString ss"
  by (induction vs arbitrary: ss) (auto simp: obind_eq_Val as_string_Val)

lemma InterfaceToStringArray_Val:
  "InterfaceToStringArray v = Val ss \<longleftrightarrow> v = GSlice (map GString ss)"
  by (auto simp: InterfaceToStringArray_def obind_eq_Val as_slice_Val string_elements_Val)

section \<open>Shaping answers\<close>

text \<open>One \<open>if val, ok := input[key]; ok && guard(val) { SetKey(rv, name, val) }\<close>.\<close>

definition copy_field ::
    "gmap \<Rightarrow> string \<Rightarrow> (gval \<Rightarrow> bool outcome) \<Rightarrow> string \<Rightarrow> gmap \<Rightarrow> gmap outcome" where
  "copy_field input key guard name rv = (case map_get input key of
     None \<Rightarrow> Val rv
   | Some val \<Rightarrow> obind (guard val) (\<lambda>ok. Val (if ok then put name val rv else rv)))"

definition formatResponse :: "gmap \<Rightarrow> gmap outcome" where
  "formatResponse input =
     obind (copy_field input ''msg'' (\<lambda>val. obind (elem_kind val) (\<lambda>k. Val (k = KString))) ''errormsg'' (Some []))
       (\<lambda>rv. obind (copy_field input ''data'' (\<lambda>val. Val True) ''data'' rv)
       (\<lambda>rv. obind (copy_field input ''num'' (\<lambda>val. obind (kind_of val) (\<lambda>k. Val (k = KInt))) ''num'' rv)
       (\<lambda>rv. copy_field input ''next'' (\<lambda>val. obind (kind_of val) (\<lambda>k. Val (k = KMap))) ''next'' rv)))"

definition formatJsonResponse :: "externals \<Rightarrow> gmap \<Rightarrow> (goerror + string) outcome" where
  "formatJsonResponse ext input = obind (formatResponse input) (\<lambda>rv. Val (json_Marshal ext (GMap rv)))"

definition formatJsonArrayResponse :: "externals \<Rightarrow> gval list \<Rightarrow> goerror + string" where
  "formatJsonArrayResponse ext input = json_Marshal ext (GSlice input)"

definition MakeCreatedReponse :: "string \<Rightarrow> response_writer \<Rightarrow> response_writer" where
  "MakeCreatedReponse location w = WriteHeader 201 (Header_Set ''Location'' location w)"

definition MakeNoContent :: "response_writer \<Rightarrow> response_writer" where
  "MakeNoContent w = WriteHeader 204 w"

definition MakeDataResponse ::
    "externals \<Rightarrow> gmap \<Rightarrow> response_writer \<Rightarrow> (goerror option \<times> response_writer) outcome" where
  "MakeDataResponse ext input w = obind (formatJsonResponse ext input) (\<lambda>r. Val (case r of
     Inl err \<Rightarrow> (Some err, w)
   | Inr jsonMsg \<Rightarrow> (None, WriteString (jsonMsg @ ''\<newline>'') w)))"

definition MakeDataArrayResponse ::
    "externals \<Rightarrow> gval list \<Rightarrow> response_writer \<Rightarrow> (goerror option \<times> response_writer) outcome" where
  "MakeDataArrayResponse ext input w = Val (case formatJsonArrayResponse ext input of
     Inl err \<Rightarrow> (Some err, w)
   | Inr jsonMsg \<Rightarrow> (None, WriteString (jsonMsg @ ''\<newline>'') w))"

definition MakeNotFoundResponse ::
    "externals \<Rightarrow> gmap \<Rightarrow> response_writer \<Rightarrow> (goerror option \<times> response_writer) outcome" where
  "MakeNotFoundResponse ext input w = obind (formatJsonResponse ext input) (\<lambda>r. Val (case r of
     Inl err \<Rightarrow> (Some err, w)
   | Inr jsonMsg \<Rightarrow> (None, WriteString (jsonMsg @ ''\<newline>'') (WriteHeader 404 w))))"

definition MakeInvalidInputResponse ::
    "externals \<Rightarrow> gmap \<Rightarrow> response_writer \<Rightarrow> (goerror option \<times> response_writer) outcome" where
  "MakeInvalidInputResponse ext input w = obind (formatJsonResponse ext input) (\<lambda>r. Val (case r of
     Inl err \<Rightarrow> (Some err, w)
   | Inr jsonMsg \<Rightarrow> (None, http_Error jsonMsg 400 w)))"

definition MakeInvalidMethodResponse ::
    "externals \<Rightarrow> gmap \<Rightarrow> response_writer \<Rightarrow> (goerror option \<times> response_writer) outcome" where
  "MakeInvalidMethodResponse ext input w = obind (formatJsonResponse ext input) (\<lambda>r. Val (case r of
     Inl err \<Rightarrow> (Some err, w)
   | Inr jsonMsg \<Rightarrow> (None, http_Error jsonMsg 405 w)))"

definition MakeInternalErrorResponse ::
    "externals \<Rightarrow> gmap \<Rightarrow> response_writer \<Rightarrow> (goerror option \<times> response_writer) outcome" where
  "MakeInternalErrorResponse ext input w = obind (formatJsonResponse ext input) (\<lambda>r. Val (case r of
     Inl err \<Rightarrow> (Some err, w)
   | Inr jsonMsg \<Rightarrow> (None, http_Error jsonMsg 500 w)))"

definition MakeNotImplementedResponse ::
    "externals \<Rightarrow> gmap \<Rightarrow> response_writer \<Rightarrow> (goerror option \<times> response_writer) outcome" where
  "MakeNotImplementedResponse ext input w = obind (formatJsonResponse ext input) (\<lambda>r. Val (case r of
     Inl err \<Rightarrow> (Some err, w)
   | Inr jsonMsg \<Rightarrow> (None, http_Error jsonMsg 501 w)))"

definition MakeUnavailableResponse ::
    "externals \<Rightarrow> gmap \<Rightarrow> response_writer \<Rightarrow> (goerror option \<times> response_writer) outcome" where
  "MakeUnavailableResponse ext input w = obind (formatJsonResponse ext input) (\<lambda>r. Val (case r of
     Inl err \<Rightarrow> (Some err, w)
   | Inr jsonMsg \<Rightarrow> (None, http_Error jsonMsg 503 w)))"

section \<open>The contract of the error answers\<close>

text \<open>The document every error branch of the handlers builds:
  \<open>errMsg := make(map[string]interface{}); SetKey(errMsg, "msg", []string{text})\<close>.\<close>

definition error_doc :: "string \<Rightarrow> gmap" where
  "error_doc text = put ''msg'' (GStrings [text]) (Some [])"

lemma formatResponse_error_doc:
  "formatResponse (error_doc text) = Val (Some [(''errormsg'', GStrings [text])])"
  by (simp add: formatResponse_def error_doc_def copy_field_def)

lemma formatResponse_empty: "formatResponse (Some []) = Val (Some [])"
  by (simp add: formatResponse_def copy_field_def)

text \<open>
  A \<open>responder\<close> with status \<open>code\<close> writes the status and the JSON text on a line when the
  document can be shaped and encoded, and leaves the writer alone when it cannot.
\<close>

locale responder =
  fixes respond :: "externals \<Rightarrow> gmap \<Rightarrow> response_writer \<Rightarrow> (goerror option \<times> response_writer) outcome"
    and code :: nat
  assumes encoded: "formatJsonResponse ext input = Val (Inr m) \<Longrightarrow> rw_status w = None \<Longrightarrow>
      \<exists>w'. respond ext input w = Val (None, w') \<and> rw_status w' = Some code \<and>
           rw_body w' = rw_body w @ m @ ''\<newline>''"
    and not_encoded: "formatJsonResponse ext input = Val (Inl e) \<Longrightarrow>
      respond ext input w = Val (Some e, w)"
    and unshaped: "formatJsonResponse ext input = Panic p \<Longrightarrow> respond ext input w = Panic p"
begin

lemma status_written:
  assumes "respond ext input w = Val (None, w')" and "rw_status w = None"
  shows "rw_status w' = Some code"
proof (cases "formatJsonResponse ext input")
  case (Val r)
  then show ?thesis
    using assms encoded [of ext input _ w] not_encoded [of ext input _ w] by (cases r) auto
next
  case (Panic p)
  then show ?thesis using assms unshaped by simp
qed

lemma error_reply:
  assumes "json_Marshal ext (GMap (Some [(''errormsg'', GStrings [text])])) = Inr m"
    and "rw_status w = None"
  shows "\<exists>w'. respond ext (error_doc text) w = Val (None, w') \<and> rw_status w' = Some code \<and>
              rw_body w' = rw_body w @ m @ ''\<newline>''"
  using assms by (intro encoded) (simp_all add: formatJsonResponse_def formatResponse_error_doc)

lemma error_reply_total:
  assumes "rw_status w = None"
  shows "\<exists>err w'. respond ext (error_doc text) w = Val (err, w') \<and>
           (rw_status w' = Some code \<or> w' = w)"
proof (cases "json_Marshal ext (GMap (Some [(''errormsg'', GStrings [text])]))")
  case (Inl e)
  then show ?thesis
    using not_encoded [of ext "error_doc text" e w]
    by (simp add: formatJsonResponse_def formatResponse_error_doc)
next
  case (Inr m)
  then show ?thesis using error_reply [OF _ assms] by blast
qed

lemma empty_reply_total:
  assumes "rw_status w = None"
  shows "\<exists>err w'. respond ext (Some []) w = Val (err, w') \<and> (rw_status w' = Some code \<or> w' = w)"
proof (cases "json_Marshal ext (GMap (Some []))")
  case (Inl e)
  then show ?thesis
    using not_encoded [of ext "Some []" e w] by (simp add: formatJsonResponse_def formatResponse_empty)
next
  case (Inr m)
  then show ?thesis
    using encoded [of ext "Some []" m w] assms by (auto simp: formatJsonResponse_def formatResponse_empty)
qed

end

interpretation not_found: responder MakeNotFoundResponse 404
  by unfold_locales
    (auto simp: MakeNotFoundResponse_def WriteString_body body_allowed_def)

interpretation invalid_input: responder MakeInvalidInputResponse 400
  by unfold_locales
    (auto simp: MakeInvalidInputResponse_def http_Error_body body_allowed_def)

interpretation invalid_method: responder MakeInvalidMethodResponse 405
  by unfold_locales
    (auto simp: MakeInvalidMethodResponse_def http_Error_body body_allowed_def)

interpretation internal_error: responder MakeInternalErrorResponse 500
  by unfold_locales
    (auto simp: MakeInternalErrorResponse_def http_Error_body body_allowed_def)

interpretation not_implemented: responder MakeNotImplementedResponse 501
  by unfold_locales
    (auto simp: MakeNotImplementedResponse_def http_Error_body body_allowed_def)

interpretation unavailable: responder MakeUnavailableResponse 503
  by unfold_locales
    (auto simp: MakeUnavailableResponse_def http_Error_body body_allowed_def)

interpretation data_response: responder MakeDataResponse 200
  by unfold_locales
    (auto simp: MakeDataResponse_def WriteString_body)

text \<open>
  C40. Each of the six error answers writes its own status and the JSON text of the error on
  a line of the body.
\<close>

theorem error_answers:
  assumes "(f, code) \<in> {(MakeNotFoundResponse, 404), (MakeInvalidInputResponse, 400),
      (MakeInvalidMethodResponse, 405), (MakeInternalErrorResponse, 500),
      (MakeNotImplementedResponse, 501), (MakeUnavailableResponse, 503)}"
    and "json_Marshal ext (GMap (Some [(''errormsg'', GStrings [t])])) = Inr m" and "rw_status w = None"
  shows "\<exists>w'. f ext (error_doc t) w = Val (None, w') \<and> rw_status w' = Some code \<and>
    rw_body w' = rw_body w @ m @ ''\<newline>''"
  using assms(1) not_found.error_reply [OF assms(2,3)] invalid_input.error_reply [OF assms(2,3)]
    invalid_method.error_reply [OF assms(2,3)] internal_error.error_reply [OF assms(2,3)]
    not_implemented.error_reply [OF assms(2,3)] unavailable.error_reply [OF assms(2,3)]
  by fastforce

section \<open>The contract of the map helpers\<close>

text \<open>
  Three copies of one helper: \<open>common.SetKey\<close>, the method \<open>Dict.SetKey\<close> and \<open>setKey\<close> of package
  validation promise the same: on a map they store the value and report success, on the nil
  map they report an error and store nothing.
\<close>

locale key_setter =
  fixes set_key :: "gmap \<Rightarrow> string \<Rightarrow> gval \<Rightarrow> (bool \<times> goerror option) \<times> gmap"
  assumes on_nil: "set_key None k v = ((False, Some (ErrorString ''Uninitialized map passed'')), None)"
    and on_map: "\<exists>d'. set_key (Some d) k v = ((True, None), Some d') \<and> map_of d' = (map_of d)(k \<mapsto> v)
                     \<and> (distinct (map fst d) \<longrightarrow> distinct (map fst d'))"
begin

lemma reports_success: "fst (fst (set_key m k v)) \<longleftrightarrow> m \<noteq> None"
  using on_nil on_map by (cases m) (auto, metis fst_conv)

lemma error_iff_failure: "snd (fst (set_key m k v)) = None \<longleftrightarrow> fst (fst (set_key m k v))"
  using on_nil on_map by (cases m) (auto, (metis fst_conv snd_conv)+)

lemma lookup_after: "m \<noteq> None \<Longrightarrow> map_get (snd (set_key m k v)) k' = (if k' = k then Some v else map_get m k')"
  using on_map by (cases m) (auto, (metis fun_upd_same snd_conv map_get_simps(2), metis fun_upd_other snd_conv map_get_simps(2)))

lemma keeps_wf: "wf_map m \<Longrightarrow> wf_map (snd (set_key m k v))"
  using on_nil on_map by (cases m) (auto, metis snd_conv wf_map_simps(2))

end

interpretation common_set: key_setter SetKey
  by unfold_locales (auto simp: SetKey_nil SetKey_Some)

interpretation dict_set: key_setter Dict_SetKey
  by unfold_locales (auto simp: Dict_SetKey_def Let_def split: option.split)

end
