(* ===== verification/Validation_Schema.thy ===== *)
theory Validation_Schema
  imports Common
begin

text \<open>
  Package validation, the preparation of a schema (\<open>validation/validation.go\<close>, \<open>InitSchema\<close> and
  what it calls). A schema is a JSON object; \<open>InitSchema\<close> checks it and rewrites it in place: the
  type names of every legend become \<open>reflect.Kind\<close> values and every action of
  \<open>required_fields\<close> is merged with the sections \<open>initial\<close> and \<open>all\<close>. Go maps are shared by
  reference, so a nested map that is rewritten is written back into the map that holds it. Every
  function returns its error and the rewritten map.
\<close>

section \<open>The map helper\<close>

definition setKey :: "gmap \<Rightarrow> string \<Rightarrow> gval \<Rightarrow> (bool \<times> goerror option) \<times> gmap" where
  "setKey dict key value = (case dict of
     None \<Rightarrow> ((False, Some (ErrorString ''Uninitialized map passed'')), None)
   | Some d \<Rightarrow>
       let ok = (map_of d key \<noteq> None);
           d1 = (if \<not> ok then AList.update key (GSlice []) d else d)
       in ((True, None), Some (AList.update key value d1)))"

interpretation validation_set: key_setter setKey
  by unfold_locales (auto simp: setKey_def Let_def)

lemma setKey_Some: "setKey (Some d) k v = ((True, None), Some (AList.update k v d))"
  by (simp add: setKey_def Let_def)

section \<open>Required fields\<close>

fun add_fields :: "gval list \<Rightarrow> gmap \<Rightarrow> gmap outcome" where
  "add_fields [] fieldFilter = Val fieldFilter"
| "add_fields (f # fs) fieldFilter =
     obind (as_string f) (\<lambda>s. obind (map_store fieldFilter s GNil) (add_fields fs))"

text \<open>The two results are \<open>*require_an_optional\<close> and the filter.\<close>

definition updatefieldList :: "gmap \<Rightarrow> bool \<Rightarrow> gmap \<Rightarrow> (bool \<times> gmap) outcome" where
  "updatefieldList fieldDef require_an_optional fieldFilter =
     obind (case map_get fieldDef ''require_an_optional'' of
              None \<Rightarrow> Val require_an_optional
            | Some v \<Rightarrow> as_bool v)
       (\<lambda>req. obind (case map_get fieldDef ''fields'' of
              None \<Rightarrow> Val fieldFilter
            | Some v \<Rightarrow> obind (as_slice v) (\<lambda>fs. add_fields fs fieldFilter))
       (\<lambda>filter. Val (req, filter)))"

definition simpleIntrospection :: "gval list \<Rightarrow> kind \<Rightarrow> goerror option outcome" where
  "simpleIntrospection arr t =
     first_error (\<lambda>v. obind (kind_of v) (\<lambda>k. Val (if k \<noteq> t then Some (ErrorString ''Invalid value found'') else None))) arr"

definition check_setting :: "string \<Rightarrow> string \<times> gval \<Rightarrow> goerror option outcome" where
  "check_setting subsectionName = (\<lambda>(k, v).
     if k = ''fields'' then
       obind (kind_of v) (\<lambda>kd.
         if kd \<noteq> KSlice then
           Val (Some (ErrorString ([CHR 0x27] @ ''fields' in '' @ subsectionName @ '' is not an array of values'')))
         else obind (as_slice v) (\<lambda>xs. obind (simpleIntrospection xs KString) (\<lambda>err. Val (case err of
                None \<Rightarrow> None
              | Some _ \<Rightarrow> Some (ErrorString ([CHR 0x27] @ ''fields' in '' @ subsectionName @
                    '' mus be a string list of fields''))))))
     else if k = ''require_an_optional'' then
       obind (kind_of v) (\<lambda>kd. Val (if kd \<noteq> KBool then
         Some (ErrorString ([CHR 0x27] @ ''require_an_optional' must be set to true or false'')) else None))
     else Val None)"

definition check_action :: "range_order \<Rightarrow> string \<Rightarrow> string \<times> gval \<Rightarrow> goerror option outcome" where
  "check_action ord subsectionName = (\<lambda>(action, rf).
     obind (kind_of rf) (\<lambda>kd.
       if kd \<noteq> KMap then Val (Some (ErrorString ([CHR 0x27] @ action @ ''' is not a hashmap'')))
       else obind (as_map rf) (\<lambda>m.
              first_error (check_setting subsectionName) (range_over ord ''processRequiredFields.settings'' m))))"

text \<open>The merged definition of one action, from the sections \<open>initial\<close>, the action and \<open>all\<close>.\<close>

definition merge_action :: "range_order \<Rightarrow> gmap \<Rightarrow> gmap \<Rightarrow> gmap \<Rightarrow> gmap outcome" where
  "merge_action ord initial_fields all_fields cfg =
     obind (updatefieldList initial_fields False (Some [])) (\<lambda>(r1, f1).
     obind (updatefieldList cfg r1 f1) (\<lambda>(r2, f2).
     obind (updatefieldList all_fields r2 f2) (\<lambda>(r3, f3).
       let fieldList = map fst (range_over ord ''processRequiredFields.fieldFilter'' f3);
           d1 = snd (setKey (Some []) ''fields'' (GStrings fieldList));
           d2 = snd (setKey d1 ''require_an_optional'' (GBool r3))
       in Val d2)))"

fun merge_actions :: "range_order \<Rightarrow> gmap \<Rightarrow> gmap \<Rightarrow> dict \<Rightarrow> gmap \<Rightarrow> gmap outcome" where
  "merge_actions ord initial_fields all_fields [] required_fields = Val required_fields"
| "merge_actions ord initial_fields all_fields ((action, config) # rest) required_fields =
     obind (as_map config) (\<lambda>cfg.
     obind (merge_action ord initial_fields all_fields cfg) (\<lambda>finalDefinition.
     obind (map_store required_fields action (GMap finalDefinition)) (\<lambda>required_fields'.
       merge_actions ord initial_fields all_fields rest required_fields')))"

definition processRequiredFields ::
    "range_order \<Rightarrow> string \<Rightarrow> gmap \<Rightarrow> (goerror option \<times> gmap) outcome" where
  "processRequiredFields ord subsectionName required_fields =
     (let rf1 = map_delete required_fields ''_comment'' in
      case find (\<lambda>v. map_get rf1 v = None) [''initial'', ''all''] of
        Some v \<Rightarrow> Val (Some (ErrorString (''Both 'all' and 'initial' must be defined in '' @
                    subsectionName @ '': missing '' @ v)), rf1)
      | None \<Rightarrow>
          obind (first_error (check_action ord subsectionName)
                  (range_over ord ''processRequiredFields.check'' rf1)) (\<lambda>err.
          case err of
            Some e \<Rightarrow> Val (Some e, rf1)
          | None \<Rightarrow>
              obind (as_map (map_index rf1 ''initial'')) (\<lambda>initial_fields.
                let rf2 = map_delete rf1 ''initial'' in
              obind (as_map (map_index rf2 ''all'')) (\<lambda>all_fields.
                let rf3 = map_delete rf2 ''all'' in
              obind (merge_actions ord initial_fields all_fields
                      (range_over ord ''processRequiredFields.merge'' rf3) rf3) (\<lambda>rf4.
                Val (None, rf4))))))"

section \<open>Legends\<close>

text \<open>The switch on the type name of a field.\<close>

definition type_kind :: "string \<Rightarrow> kind option" where
  "type_kind fieldType =
     (if fieldType = ''string'' then Some KString
      else if fieldType = ''int'' then Some KInt64
      else if fieldType = ''float'' then Some KFloat64
      else if fieldType = ''bool'' then Some KBool
      else if fieldType = ''array'' then Some KSlice
      else if fieldType = ''hashmap'' then Some KMap
      else None)"

definition check_array :: "string \<Rightarrow> string \<Rightarrow> gmap \<Rightarrow> goerror option outcome" where
  "check_array subsectionName fieldName typeDefinition =
     (case map_get typeDefinition ''sub_type'' of
        Some st \<Rightarrow> obind (kind_of st) (\<lambda>k. Val (if k \<noteq> KMap then
          Some (ErrorString ([CHR 0x27] @ ''sub_type' was not specified as a hashmap in field '' @
                  fieldName @ '' in '' @ subsectionName)) else None))
      | None \<Rightarrow> (case map_get typeDefinition ''introspect'' of
          Some _ \<Rightarrow>
            obind (case map_get typeDefinition ''additional_validation'' of
                     None \<Rightarrow> Val True
                   | Some value \<Rightarrow> obind (kind_of value) (\<lambda>k. Val (k \<noteq> KString)))
              (\<lambda>bad. Val (if bad then
                Some (ErrorString ([CHR 0x27] @ ''introspect' specified with invalid 'additional_validation' '' @
                        ''in field '' @ fieldName @ '' in '' @ subsectionName)) else None))
        | None \<Rightarrow>
            Val (Some (ErrorString ([CHR 0x27] @ ''sub_type' or 'introspect' must be specified for field '' @
                   fieldName @ '' in '' @ subsectionName)))))"

lemma map_index_size: "as_map (map_index m k) = Val m' \<Longrightarrow> dsize (entries m') < dsize (entries m)"
  using dsize_size [of m'] by (auto simp: map_index_def as_map_Val dest: dsize_get split: option.splits)

lemma sub_type_size:
  assumes "as_map td = Val a" and "map_store a ''type'' v = Val b"
    and "map_get b ''sub_type'' = Some st" and "as_map st = Val sub"
  shows "dsize (entries sub) < size td"
proof -
  have "map_get a ''sub_type'' = Some st" using assms(2,3) by (simp add: map_get_store)
  then have "size st < dsize (entries a)" by (rule dsize_get)
  then show ?thesis
    using assms(1,4) dsize_size [of a] dsize_size [of sub] by (simp add: as_map_Val)
qed

text \<open>
  The loop of \<open>processLegend\<close> runs over the entries it is given and carries the legend it
  rewrites; \<open>parseSubSection\<close> handles a section, the root one or that of a \<open>sub_type\<close>.
\<close>

function (sequential) processLegend_loop ::
    "range_order \<Rightarrow> string \<Rightarrow> dict \<Rightarrow> gmap \<Rightarrow> (goerror option \<times> gmap) outcome"
  and processLegend ::
    "range_order \<Rightarrow> string \<Rightarrow> gmap \<Rightarrow> (goerror option \<times> gmap) outcome"
  and parseSubSection ::
    "range_order \<Rightarrow> string \<Rightarrow> gmap \<Rightarrow> (goerror option \<times> gmap) outcome" where
  "processLegend_loop ord subsectionName [] legend = Val (None, legend)"
| "processLegend_loop ord subsectionName ((fieldName, td) # rest) legend =
     obind (kind_of td) (\<lambda>k.
     if k \<noteq> KMap then
       Val (Some (ErrorString (''Invalid type definition map for field '' @ fieldName @
              '' in section '' @ subsectionName)), legend)
     else
     obind (as_map td) (\<lambda>typeDefinition.
     case map_get typeDefinition ''type'' of
       None \<Rightarrow> Val (Some (ErrorString (''Field '' @ fieldName @
                 '' does not have 'type' in its definition'')), legend)
     | Some ft \<Rightarrow>
     obind (as_string ft) (\<lambda>fieldType.
     case type_kind fieldType of
       None \<Rightarrow> Val (Some (ErrorString (''Unhandled validation type '' @ fieldType @ '' in '' @
                 fieldName @ '' in section '' @ subsectionName)), legend)
     | Some kd \<Rightarrow>
     obind (map_store typeDefinition ''type'' (GKind kd)) (\<lambda>td1.
     obind (map_store legend fieldName (GMap td1)) (\<lambda>legend1.
     obind (if kd = KSlice then check_array subsectionName fieldName td1 else Val None) (\<lambda>err.
     case err of
       Some e \<Rightarrow> Val (Some e, legend1)
     | None \<Rightarrow>
     (case map_get td1 ''sub_type'' of
       None \<Rightarrow> processLegend_loop ord subsectionName rest legend1
     | Some st \<Rightarrow>
       if kd = KSlice \<or> kd = KMap then
         obind (as_map st) (\<lambda>sub.
         obind (parseSubSection ord fieldName sub) (\<lambda>r.
         obind (map_store td1 ''sub_type'' (GMap (snd r))) (\<lambda>td2.
         obind (map_store legend1 fieldName (GMap td2)) (\<lambda>legend2.
         case fst r of
           Some e \<Rightarrow> Val (Some e, legend2)
         | None \<Rightarrow> processLegend_loop ord subsectionName rest legend2))))
       else processLegend_loop ord subsectionName rest legend1)))))))"
| "processLegend ord subsectionName legend =
     processLegend_loop ord subsectionName (range_over ord ''processLegend'' legend) legend"
| "parseSubSection ord subsectionName subsection =
     obind (first_error (\<lambda>v. case map_get subsection v of
              None \<Rightarrow> Val (Some (ErrorString (''Legend field '' @ v @ '' is required'')))
            | Some s \<Rightarrow> obind (kind_of s) (\<lambda>k. Val (if k \<noteq> KMap then
                Some (ErrorString (''Legend field '' @ v @ '' is required'')) else None)))
            [''legend'', ''required_fields'']) (\<lambda>missing.
     case missing of
       Some e \<Rightarrow> Val (Some e, subsection)
     | None \<Rightarrow>
     obind (as_map (map_index subsection ''required_fields'')) (\<lambda>rf.
     obind (processRequiredFields ord subsectionName rf) (\<lambda>r.
     obind (map_store subsection ''required_fields'' (GMap (snd r))) (\<lambda>sub1.
     case fst r of
       Some e \<Rightarrow> Val (Some e, sub1)
     | None \<Rightarrow>
     obind (as_map (map_index subsection ''legend'')) (\<lambda>legend.
     obind (processLegend ord subsectionName legend) (\<lambda>l.
     obind (map_store sub1 ''legend'' (GMap (snd l))) (\<lambda>sub2.
       Val (fst l, sub2))))))))"
  by pat_completeness auto

termination
proof (relation "measure (\<lambda>x. case x of
    Inl (ord, n, es, l) \<Rightarrow> 3 * dsize es
  | Inr (Inl (ord, n, l)) \<Rightarrow> 3 * dsize (entries l) + 1
  | Inr (Inr (ord, n, s)) \<Rightarrow> 3 * dsize (entries s))", goal_cases)
  case (3 ord subsectionName fieldName td rest legend k a ft fieldType kd td1 legend1 err st sub)
  then have "dsize (entries sub) < size td" by (intro sub_type_size)
  then show ?case by simp
next
  case (7 ord subsectionName sec missing rf r sub1 legend)
  then have "dsize (entries legend) < dsize (entries sec)" by (intro map_index_size)
  then show ?case by simp
qed simp_all

declare processLegend.simps [simp del] parseSubSection.simps [simp del]
  processLegend_loop.simps(2) [simp del]

definition InitSchema :: "range_order \<Rightarrow> gmap \<Rightarrow> (goerror option \<times> gmap) outcome" where
  "InitSchema ord schema = parseSubSection ord ''root'' schema"

end
