(* ===== verification/Validation.thy ===== *)
theory Validation
  imports Validation_Schema
begin

text \<open>
  Package validation, the check of a document against a prepared schema
  (\<open>validation/validation.go\<close>, \<open>ValidateWithSchema\<close> and what it calls). The document is a Go
  map that the check changes in place: unknown fields are deleted and UUID and integer fields
  are replaced by their parsed values. Each function returns its error and the document
  afterwards; a panic of the source is a \<open>Panic\<close> outcome.
\<close>

section \<open>Required and optional fields\<close>

fun ValidateRequiredFields :: "gmap \<Rightarrow> string list \<Rightarrow> goerror option" where
  "ValidateRequiredFields input [] = None"
| "ValidateRequiredFields input (reqfield # reqfields) =
     (case map_get input reqfield of
        None \<Rightarrow> Some (ErrorString (''Field '' @ reqfield @ '' is a required field''))
      | Some _ \<Rightarrow> ValidateRequiredFields input reqfields)"

text \<open>The inner loop over \<open>requiredFields\<close>, with its flag \<open>isOptional\<close>.\<close>

definition is_optional :: "string list \<Rightarrow> string \<Rightarrow> bool" where
  "is_optional requiredFields k = fold (\<lambda>rk isOptional. if k = rk then False else isOptional) requiredFields True"

definition ValidatieAnOptionalField ::
    "range_order \<Rightarrow> gmap \<Rightarrow> gmap \<Rightarrow> string list \<Rightarrow> goerror option" where
  "ValidatieAnOptionalField ord input fieldDefs requiredFields =
     (let hasOptional =
        fold (\<lambda>(k, _) has.
                if is_optional requiredFields k then
                  fold (\<lambda>(ik, _) h. if k = ik then True else h)
                    (range_over ord ''ValidatieAnOptionalField.input'' input) has
                else has)
          (range_over ord ''ValidatieAnOptionalField'' fieldDefs) False
      in if \<not> hasOptional then Some (ErrorString ''At least one optional field must be provided'')
         else None)"

section \<open>Strings\<close>

definition check_enum :: "string \<Rightarrow> string \<Rightarrow> gmap \<Rightarrow> goerror option outcome" where
  "check_enum inputKey inputValue addtnl =
     (case map_get addtnl ''enum'' of
        None \<Rightarrow> Val None
      | Some enum_list \<Rightarrow>
          obind (as_slice enum_list) (\<lambda>vs.
          obind (string_elements vs) (\<lambda>strlist.
            let valueFound = (inputValue \<in> set strlist) in
            Val (if \<not> valueFound then
                   Some (ErrorString (''Value for '' @ [CHR 0x27] @ inputKey @ [CHR 0x27] @ '' must be in the list: '' @
                           join '', '' strlist))
                 else None))))"

text \<open>The two bounds of a \<open>[min, max]\<close> length specification.\<close>

definition check_bounds :: "string \<Rightarrow> string \<Rightarrow> gval \<Rightarrow> gval \<Rightarrow> goerror option outcome" where
  "check_bounds inputKey inputValue lower upper =
     (let valueLength = of_nat (rune_count inputValue) :: rat in
      obind (kind_of lower) (\<lambda>lower_t.
      obind (kind_of upper) (\<lambda>upper_t.
      obind (if lower_t = KFloat64 \<and> upper_t = KFloat64 then
               obind (as_float lower) (\<lambda>l. obind (as_float upper) (\<lambda>u. Val (u \<le> l)))
             else Val False) (\<lambda>crossed.
      if crossed then Val (Some (ErrorString ''Lower bound must be smaller than higher bound''))
      else if lower_t = KString \<and> lower \<noteq> GString ''min'' then
        Val (Some (ErrorString (''Lower bound must be 'min' if it is a string'')))
      else if upper_t = KString \<and> upper \<noteq> GString ''max'' then
        Val (Some (ErrorString (''Upper bound must be 'max' if it is a string'')))
      else
      obind (if lower_t = KFloat64 then obind (as_float lower) (\<lambda>l. Val (valueLength < l)) else Val False) (\<lambda>short.
      if short then
        obind (as_float lower) (\<lambda>l. Val (Some (ErrorString (inputKey @ '': '' @ [CHR 0x27] @ inputValue @ [CHR 0x27] @
          '' is smaller than min length of '' @ FormatFloat0 l))))
      else
      obind (if upper_t = KFloat64 then obind (as_float upper) (\<lambda>u. Val (u < valueLength)) else Val False) (\<lambda>long.
      if long then
        obind (as_float upper) (\<lambda>u. Val (Some (ErrorString (inputKey @ '': '' @ [CHR 0x27] @ inputValue @ [CHR 0x27] @
          '' is larger than max length of '' @ FormatFloat0 u))))
      else Val None))))))"

definition check_length :: "string \<Rightarrow> string \<Rightarrow> gmap \<Rightarrow> goerror option outcome" where
  "check_length inputKey inputValue addtnl =
     (case map_index addtnl ''length'' of
        GSlice size_spec \<Rightarrow>
          obind (if length size_spec = 1 then obind (kind_of (size_spec ! 0)) (\<lambda>k. Val (k = KFloat64))
                 else Val False) (\<lambda>exact.
          if exact then
            obind (as_float (size_spec ! 0)) (\<lambda>n.
            if of_nat (rune_count inputValue) \<noteq> n then
              obind (as_string (size_spec ! 0)) (\<lambda>s.
                Val (Some (ErrorString ([CHR 0x27] @ inputValue @ [CHR 0x27] @ '' must be exactly '' @
                       s @ '' characters long''))))
            else Val None)
          else if length size_spec = 2 then
            check_bounds inputKey inputValue (size_spec ! 0) (size_spec ! 1)
          else Val (Some (ErrorString (''Invalid 'length' specification for string''))))
      | _ \<Rightarrow> Val None)"

text \<open>The additional validation of a string field: the error and the value to store.\<close>

definition check_string ::
    "externals \<Rightarrow> string \<Rightarrow> string \<Rightarrow> gmap \<Rightarrow> (goerror option \<times> gval) outcome" where
  "check_string ext inputKey inputValue validationMethod =
     (case map_get validationMethod ''additional_validation'' of
        None \<Rightarrow> Val (None, GString inputValue)
      | Some addtnlValidation \<Rightarrow>
          obind (kind_of addtnlValidation) (\<lambda>k.
          if k = KString then
            (if addtnlValidation = GString ''UUID'' then
               (case uuid_FromString ext inputValue of
                  Inl err \<Rightarrow> Val (Some err, GString inputValue)
                | Inr uuidValue \<Rightarrow> Val (None, GUUID uuidValue))
             else Val (None, GString inputValue))
          else if k = KMap then
            obind (as_map addtnlValidation) (\<lambda>addtnl.
            obind (check_enum inputKey inputValue addtnl) (\<lambda>err.
            case err of
              Some e \<Rightarrow> Val (Some e, GString inputValue)
            | None \<Rightarrow> obind (check_length inputKey inputValue addtnl) (\<lambda>err. Val (err, GString inputValue))))
          else Val (None, GString inputValue)))"

section \<open>Documents\<close>

text \<open>\<open>nullOk\<close> of a field definition.\<close>

definition null_ok :: "gmap \<Rightarrow> bool outcome" where
  "null_ok validationMethod = (case map_get validationMethod ''null_ok'' of
     None \<Rightarrow> Val False
   | Some val \<Rightarrow> obind (kind_of val) (\<lambda>k. if k = KBool then as_bool val else Val False))"

lemma GMap_index_size: "map_index m k = GMap m' \<Longrightarrow> dsize (entries m') < dsize (entries m)"
  by (rule map_index_size [of m k]) simp

lemma map_get_GMap_size: "map_get m k = Some v \<Longrightarrow> as_map v = Val m' \<Longrightarrow> dsize (entries m') < dsize (entries m)"
  by (rule map_index_size [of m k]) (simp add: map_index_def)

text \<open>
  \<open>validate_field\<close> is the body of the loop of \<open>ValidateWithLegend\<close> for a field the legend
  knows. It returns the error and the value the document's entry is set to, \<open>None\<close> where the
  entry stays as it is. A nested document is shared with the entry, so its changes are written
  back, also when its check fails.
\<close>

function (sequential) ValidateWithSchema ::
    "externals \<Rightarrow> range_order \<Rightarrow> gmap \<Rightarrow> gmap \<Rightarrow> string \<Rightarrow> (goerror option \<times> gmap) outcome"
  and ValidateWithLegend ::
    "externals \<Rightarrow> range_order \<Rightarrow> gmap \<Rightarrow> gmap \<Rightarrow> string \<Rightarrow> (goerror option \<times> gmap) outcome"
  and legend_loop ::
    "externals \<Rightarrow> range_order \<Rightarrow> gmap \<Rightarrow> string \<Rightarrow> dict \<Rightarrow> gmap \<Rightarrow> (goerror option \<times> gmap) outcome"
  and validate_field ::
    "externals \<Rightarrow> range_order \<Rightarrow> string \<Rightarrow> string \<Rightarrow> gval \<Rightarrow> gmap \<Rightarrow> (goerror option \<times> gval option) outcome"
  where
  "ValidateWithSchema ext ord input schema action =
     obind (as_map (map_index schema ''required_fields'')) (\<lambda>reqFields.
     obind (as_map (case map_get reqFields action of
                      Some rf \<Rightarrow> rf
                    | None \<Rightarrow> map_index reqFields ''default'')) (\<lambda>r.
     obind (as_strings (map_index r ''fields'')) (\<lambda>requiredFields.
     obind (as_bool (map_index r ''require_an_optional'')) (\<lambda>requireOptional.
     case ValidateRequiredFields input requiredFields of
       Some e \<Rightarrow> Val (Some e, input)
     | None \<Rightarrow>
     obind (if requireOptional then
              obind (as_map (map_index schema ''legend'')) (\<lambda>legend.
                Val (ValidatieAnOptionalField ord input legend requiredFields))
            else Val None) (\<lambda>err.
     case err of
       Some e \<Rightarrow> Val (Some e, input)
     | None \<Rightarrow>
     obind (as_map (map_index schema ''legend'')) (\<lambda>legend.
       ValidateWithLegend ext ord input legend action))))))"
| "ValidateWithLegend ext ord input legend action =
     legend_loop ext ord legend action (range_over ord ''ValidateWithLegend'' input) input"
| "legend_loop ext ord legend action [] input = Val (None, input)"
| "legend_loop ext ord legend action ((inputKey, inputValue) # rest) input =
     (case map_index legend inputKey of
        GMap validationMethod \<Rightarrow>
          obind (validate_field ext ord action inputKey inputValue validationMethod) (\<lambda>r.
          obind (case snd r of None \<Rightarrow> Val input | Some v \<Rightarrow> map_store input inputKey v) (\<lambda>input'.
          case fst r of
            Some e \<Rightarrow> Val (Some e, input')
          | None \<Rightarrow> legend_loop ext ord legend action rest input'))
      | _ \<Rightarrow> legend_loop ext ord legend action rest (map_delete input inputKey))"
| "validate_field ext ord action inputKey inputValue validationMethod =
     (case map_get validationMethod ''type'' of
        None \<Rightarrow> Val (Some (ErrorString ([CHR 0x27] @ ''type' not defined for key '' @ inputKey)), None)
      | Some ty \<Rightarrow>
     obind (null_ok validationMethod) (\<lambda>nullOk.
     if nullOk \<and> inputValue = GNil then Val (None, None)
     else if inputValue = GNil then Val (Some (ErrorString (inputKey @ '' may not be set to null'')), None)
     else if ty = GKind KString then
       obind (kind_of inputValue) (\<lambda>k.
       if k \<noteq> KString then Val (Some (ErrorString (inputKey @ '' is not a valid string'')), None)
       else obind (as_string inputValue) (\<lambda>s.
            obind (check_string ext inputKey s validationMethod) (\<lambda>r.
            case fst r of Some e \<Rightarrow> Val (Some e, None) | None \<Rightarrow> Val (None, Some (snd r)))))
     else if ty = GKind KInt64 then
       obind (kind_of inputValue) (\<lambda>k.
       obind (if k = KString then
                obind (as_string inputValue) (\<lambda>s. Val (map_sum id GInt64 (ParseInt s)))
              else Val (Inr inputValue)) (\<lambda>p.
       case p of
         Inl err \<Rightarrow> Val (Some err, None)
       | Inr v \<Rightarrow> obind (kind_of v) (\<lambda>k.
           if k \<noteq> KInt64 then Val (Some (ErrorString (inputKey @ '' is not a valid integer'')), None)
           else Val (None, Some v))))
     else if ty = GKind KBool then
       obind (kind_of inputValue) (\<lambda>k.
       if k \<noteq> KBool then Val (Some (ErrorString (inputKey @ '' is not a valid boolean'')), None)
       else Val (None, None))
     else if ty = GKind KMap then
       obind (kind_of inputValue) (\<lambda>k.
       if k \<noteq> KMap then Val (Some (ErrorString (inputKey @ '' is not a valid hashmap'')), None)
       else obind (as_map inputValue) (\<lambda>m.
            obind (as_map (map_index validationMethod ''sub_type'')) (\<lambda>sub.
            obind (ValidateWithSchema ext ord m sub action) (\<lambda>r.
              Val (fst r, Some (GMap (snd r)))))))
     else if ty = GKind KSlice then
       obind (kind_of inputValue) (\<lambda>k.
       if k \<noteq> KSlice then Val (Some (ErrorString (inputKey @ '' is not a valid array'')), None)
       else (case map_get validationMethod ''sub_type'' of
               Some sub_key \<Rightarrow>
                 obind (as_map inputValue) (\<lambda>m.
                 obind (as_map sub_key) (\<lambda>sub.
                 obind (ValidateWithSchema ext ord m sub action) (\<lambda>r.
                   Val (fst r, Some (GMap (snd r))))))
             | None \<Rightarrow> Val (None, None)))
     else
       obind (as_kind ty) (\<lambda>k.
         Val (Some (ErrorString (''Unhandled validation type for '' @ inputKey @ '' as '' @ kind_name k)), None))))"
  by pat_completeness auto

termination
proof (relation "measures [\<lambda>x. case x of
      Inl (Inl (ext, ord, input, schema, action)) \<Rightarrow> 4 * dsize (entries schema)
    | Inl (Inr (ext, ord, input, legend, action)) \<Rightarrow> 4 * dsize (entries legend) + 3
    | Inr (Inl (ext, ord, legend, action, es, input)) \<Rightarrow> 4 * dsize (entries legend) + 2
    | Inr (Inr (ext, ord, action, key, v, vm)) \<Rightarrow> 4 * dsize (entries vm) + 1,
    \<lambda>x. case x of Inr (Inl (ext, ord, legend, action, es, input)) \<Rightarrow> length es | _ \<Rightarrow> 0]", goal_cases)
qed (auto dest: map_index_size GMap_index_size map_get_GMap_size)

declare ValidateWithSchema.simps [simp del] ValidateWithLegend.simps [simp del]
  validate_field.simps [simp del]

end
