(* ===== verification/Go_Proc.thy ===== *)
theory Go_Proc
  imports Go_Http
begin

text \<open>
  Operations that change the world: a \<open>proc\<close> takes the world and returns its outcome and the
  world afterwards, also when it panics, because what it sent to the database or the queue
  before the panic has been sent.
\<close>

type_synonym ('w, 'a) proc = "'w \<Rightarrow> 'a outcome \<times> 'w"

definition preturn :: "'a \<Rightarrow> ('w, 'a) proc" where
  "preturn a = (\<lambda>w. (Val a, w))"

definition plift :: "'a outcome \<Rightarrow> ('w, 'a) proc" where
  "plift m = (\<lambda>w. (m, w))"

definition pbind :: "('w, 'a) proc \<Rightarrow> ('a \<Rightarrow> ('w, 'b) proc) \<Rightarrow> ('w, 'b) proc" where
  "pbind m k = (\<lambda>w. case m w of (Val a, w') \<Rightarrow> k a w' | (Panic p, w') \<Rightarrow> (Panic p, w'))"

text \<open>A call of an external operation that itself does not panic.\<close>

definition pcall :: "('w \<Rightarrow> 'a \<times> 'w) \<Rightarrow> ('w, 'a) proc" where
  "pcall f = (\<lambda>w. case f w of (a, w') \<Rightarrow> (Val a, w'))"

definition pmodify :: "('w \<Rightarrow> 'w) \<Rightarrow> ('w, unit) proc" where
  "pmodify f = (\<lambda>w. (Val (), f w))"

lemma preturn_apply [simp]: "preturn a w = (Val a, w)"
  by (simp add: preturn_def)

lemma plift_apply [simp]: "plift m w = (m, w)"
  by (simp add: plift_def)

lemma pcall_apply [simp]: "pcall f w = (Val (fst (f w)), snd (f w))"
  by (simp add: pcall_def split: prod.split)

lemma pmodify_apply [simp]: "pmodify f w = (Val (), f w)"
  by (simp add: pmodify_def)

lemma pbind_apply:
  "pbind m k w = (case fst (m w) of Val a \<Rightarrow> k a (snd (m w)) | Panic p \<Rightarrow> (Panic p, snd (m w)))"
  by (simp add: pbind_def split: prod.split outcome.split)

lemma pbind_simps [simp]:
  "pbind (preturn a) k = k a"
  "pbind (plift (Val a)) k = k a"
  "pbind (plift (Panic p)) k = plift (Panic p)"
  by (simp_all add: pbind_def plift_def preturn_def)

lemma pbind_Val: "m w = (Val a, w') \<Longrightarrow> pbind m k w = k a w'"
  by (simp add: pbind_def)

lemma pbind_Panic: "m w = (Panic p, w') \<Longrightarrow> pbind m k w = (Panic p, w')"
  by (simp add: pbind_def)

lemma pbind_eq_Val:
  "pbind m k w = (Val b, w'') \<longleftrightarrow> (\<exists>a w'. m w = (Val a, w') \<and> k a w' = (Val b, w''))"
  by (cases "m w") (auto simp: pbind_def split: outcome.splits)

lemma pbind_assoc: "pbind (pbind m k) l = pbind m (\<lambda>a. pbind (k a) l)"
  by (rule ext) (simp add: pbind_def split: prod.split outcome.split)

lemma plift_obind: "plift (obind m k) = pbind (plift m) (\<lambda>a. plift (k a))"
  by (cases m) (simp_all add: plift_def pbind_def)

end
