(* ===== verification/Dal_Config.thy ===== *)
theory Dal_Config
  imports Go_Proc
begin

text \<open>
  Package dal_postgresql, the connection: \<open>PostgresCfg\<close>, \<open>NewPostgresCfg\<close>, \<open>GetURI\<close> and the
  functions that open a database handle (\<open>dal_postgresql/dal_postgresql.go\<close>, the first part).

  The database is outside the repository: \<open>'w database\<close> has what package database/sql and the
  driver do, on a world \<open>'w\<close>. A result set has its columns, the rows \<open>Next\<close> delivers and the
  value of \<open>Err()\<close> afterwards, which the code never reads; the result of a statement is the pair
  \<open>RowsAffected\<close> returns. A handle is nil or a pool with its data source name and its two limits. The conversion of a float64 that no uint16 holds is left open by the language:
  it is the parameter \<open>conv\<close>.
\<close>

section \<open>The database as the code sees it\<close>

record sql_db =
  dsn :: string
  max_idle :: int
  max_open :: int

type_synonym handle = "sql_db option"     \<comment> \<open>*sql.DB\<close>

record result_set =
  rs_columns :: "string list"
  rs_rows :: "gval list list"
  rs_err :: "goerror option"

record 'w database =
  sql_Open :: "string \<Rightarrow> string \<Rightarrow> 'w \<Rightarrow> goerror option \<times> 'w"
  db_Query :: "sql_db \<Rightarrow> string \<Rightarrow> gval list \<Rightarrow> 'w \<Rightarrow> (goerror + result_set) \<times> 'w"
  db_Exec :: "sql_db \<Rightarrow> string \<Rightarrow> gval list \<Rightarrow> 'w \<Rightarrow> (goerror + 64 word \<times> goerror option) \<times> 'w"

text \<open>A method call on the handle; on a nil handle it dereferences nil.\<close>

definition Query :: "'w database \<Rightarrow> handle \<Rightarrow> string \<Rightarrow> gval list \<Rightarrow> ('w, goerror + result_set) proc" where
  "Query db dbh stmt args = (case dbh of
     None \<Rightarrow> plift (Panic NilDereference)
   | Some h \<Rightarrow> pcall (db_Query db h stmt args))"

definition Exec ::
    "'w database \<Rightarrow> handle \<Rightarrow> string \<Rightarrow> gval list \<Rightarrow> ('w, goerror + 64 word \<times> goerror option) proc" where
  "Exec db dbh stmt args = (case dbh of
     None \<Rightarrow> plift (Panic NilDereference)
   | Some h \<Rightarrow> pcall (db_Exec db h stmt args))"

text \<open>\<open>SetMaxIdleConns\<close> and \<open>SetMaxOpenConns\<close> of database/sql: the number of idle connections
  never exceeds the number of open ones, where that is limited.\<close>

definition SetMaxIdleConns :: "int \<Rightarrow> sql_db \<Rightarrow> sql_db" where
  "SetMaxIdleConns n h =
     (let m = (if 0 < n then n else 0)
      in h\<lparr>max_idle := (if 0 < max_open h \<and> max_open h < m then max_open h else m)\<rparr>)"

definition SetMaxOpenConns :: "int \<Rightarrow> sql_db \<Rightarrow> sql_db" where
  "SetMaxOpenConns n h =
     (let h' = h\<lparr>max_open := (if n < 0 then 0 else n)\<rparr>
      in if 0 < max_open h' \<and> max_open h' < max_idle h' then SetMaxIdleConns n h' else h')"

section \<open>The configuration\<close>

record PostgresCfg =
  hostname :: string
  username :: string
  password :: string
  port :: "16 word"
  database_name :: string
  sslmode :: string

text \<open>\<open>uint16(x)\<close>: truncation towards zero where the result fits.\<close>

definition to_uint16 :: "(rat \<Rightarrow> 16 word) \<Rightarrow> rat \<Rightarrow> 16 word" where
  "to_uint16 conv x =
     (let t = (if 0 \<le> x then \<lfloor>x\<rfloor> else \<lceil>x\<rceil>)
      in if 0 \<le> t \<and> t < 65536 then word_of_int t else conv x)"

definition ssl_mode :: "gval \<Rightarrow> string outcome" where
  "ssl_mode v =
     obind (kind_of v) (\<lambda>k.
       if k = KBool then obind (as_bool v) (\<lambda>b. Val (if b then ''require'' else ''disable''))
       else if k = KString then
         obind (as_string v) (\<lambda>s. Val (if s = ''require'' \<or> s = ''disable'' then s else ''verify-full''))
       else Val [])"

text \<open>The body of the loop over the login details.\<close>

definition cfg_setting :: "(rat \<Rightarrow> 16 word) \<Rightarrow> string \<times> gval \<Rightarrow> PostgresCfg \<Rightarrow> PostgresCfg outcome" where
  "cfg_setting conv = (\<lambda>(k, v) pCFG.
     if k = ''type'' then Val pCFG
     else if k = ''hostname'' then obind (as_string v) (\<lambda>s. Val (pCFG\<lparr>hostname := s\<rparr>))
     else if k = ''username'' then obind (as_string v) (\<lambda>s. Val (pCFG\<lparr>username := s\<rparr>))
     else if k = ''password'' then obind (as_string v) (\<lambda>s. Val (pCFG\<lparr>password := s\<rparr>))
     else if k = ''database'' then obind (as_string v) (\<lambda>s. Val (pCFG\<lparr>database_name := s\<rparr>))
     else if k = ''port'' then obind (as_float v) (\<lambda>x. Val (pCFG\<lparr>port := to_uint16 conv x\<rparr>))
     else if k = ''ssl'' then
       obind (ssl_mode v) (\<lambda>mode. Val (if mode \<noteq> [] then pCFG\<lparr>sslmode := mode\<rparr> else pCFG))
     else Val pCFG)"

fun cfg_settings :: "(rat \<Rightarrow> 16 word) \<Rightarrow> dict \<Rightarrow> PostgresCfg \<Rightarrow> PostgresCfg outcome" where
  "cfg_settings conv [] pCFG = Val pCFG"
| "cfg_settings conv (e # es) pCFG = obind (cfg_setting conv e pCFG) (cfg_settings conv es)"

definition default_cfg :: PostgresCfg where
  "default_cfg = \<lparr>hostname = ''localhost'', username = [], password = [], port = 5432,
                  database_name = [], sslmode = ''disable''\<rparr>"

definition NewPostgresCfg :: "(rat \<Rightarrow> 16 word) \<Rightarrow> range_order \<Rightarrow> gmap \<Rightarrow> PostgresCfg outcome" where
  "NewPostgresCfg conv ord loginDetails =
     cfg_settings conv (range_over ord ''NewPostgresCfg'' loginDetails) default_cfg"

definition GetURI :: "PostgresCfg \<Rightarrow> string" where
  "GetURI pCFG =
     (let rv = ''postgres://'';
          rv = (if username pCFG \<noteq> [] then
                  (let rv = rv @ username pCFG;
                       rv = (if password pCFG \<noteq> [] then rv @ '':'' @ password pCFG else rv)
                   in rv @ ''@'')
                else rv);
          rv = (if hostname pCFG \<noteq> [] then rv @ hostname pCFG else rv);
          rv = (if 0 < port pCFG then rv @ '':'' @ FormatInt (uint (port pCFG)) else rv);
          rv = (if database_name pCFG \<noteq> [] then rv @ ''/'' @ database_name pCFG else rv);
          args = (if sslmode pCFG \<noteq> [] then [''sslmode='' @ sslmode pCFG] else [])
      in if 0 < length args then rv @ ''?'' @ join ''&'' args else rv)"

section \<open>Opening a handle\<close>

text \<open>\<open>sql.Open\<close> returns a nil handle with an error, else a pool with the default limits.\<close>

definition open_pool :: "'w database \<Rightarrow> string \<Rightarrow> ('w, handle \<times> goerror option) proc" where
  "open_pool db name =
     pbind (pcall (sql_Open db ''postgres'' name)) (\<lambda>err. preturn (case err of
       Some e \<Rightarrow> (None, Some e)
     | None \<Rightarrow> (Some \<lparr>dsn = name, max_idle = 2, max_open = 0\<rparr>, None)))"

definition GetDatabaseHandleFromCfg :: "'w database \<Rightarrow> PostgresCfg \<Rightarrow> ('w, handle \<times> goerror option) proc" where
  "GetDatabaseHandleFromCfg db cfg =
     pbind (open_pool db (GetURI cfg)) (\<lambda>(dbh, err). case err of
       Some e \<Rightarrow> preturn (dbh, Some e)
     | None \<Rightarrow> preturn (map_option (SetMaxOpenConns 200) (map_option (SetMaxIdleConns 50) dbh), None))"

definition GetDatabaseHandle ::
    "'w database \<Rightarrow> (rat \<Rightarrow> 16 word) \<Rightarrow> range_order \<Rightarrow> gmap \<Rightarrow> ('w, handle \<times> goerror option) proc" where
  "GetDatabaseHandle db conv ord loginDetails =
     pbind (plift (case map_get loginDetails ''hostname'' of
               None \<Rightarrow> Val None
             | Some hn \<Rightarrow> obind (as_string hn) (\<lambda>s. Val (if HasPrefix s ''postgresql://'' then Some s else None))))
       (\<lambda>uri. case uri of
          Some connDetailString \<Rightarrow>
            pbind (open_pool db connDetailString) (\<lambda>(dbh, err). case err of
              Some e \<Rightarrow> preturn (dbh, Some e)
            | None \<Rightarrow> preturn (map_option (SetMaxOpenConns 200) (map_option (SetMaxIdleConns 50) dbh), None))
        | None \<Rightarrow>
            pbind (plift (NewPostgresCfg conv ord loginDetails)) (GetDatabaseHandleFromCfg db))"

lemma GetDatabaseHandleFromCfg_ok:
  "sql_Open db ''postgres'' (GetURI cfg) w = (None, w') \<Longrightarrow>
   GetDatabaseHandleFromCfg db cfg w =
     (Val (Some \<lparr>dsn = GetURI cfg, max_idle = 50, max_open = 200\<rparr>, None), w')"
  by (simp add: GetDatabaseHandleFromCfg_def open_pool_def pbind_apply SetMaxIdleConns_def
      SetMaxOpenConns_def Let_def)

lemma GetDatabaseHandleFromCfg_error:
  "sql_Open db ''postgres'' (GetURI cfg) w = (Some e, w') \<Longrightarrow>
   GetDatabaseHandleFromCfg db cfg w = (Val (None, Some e), w')"
  by (simp add: GetDatabaseHandleFromCfg_def open_pool_def pbind_apply)

lemma GetDatabaseHandleFromCfg_cases:
  obtains e w' where "GetDatabaseHandleFromCfg db cfg w = (Val (None, Some e), w')"
  | h w' where "GetDatabaseHandleFromCfg db cfg w = (Val (Some h, None), w')"
  using GetDatabaseHandleFromCfg_ok [of db cfg w] GetDatabaseHandleFromCfg_error [of db cfg w]
  by (cases "sql_Open db ''postgres'' (GetURI cfg) w") (metis option.exhaust)

end
