(* ===== verification/Dal_Rows.thy ===== *)
theory Dal_Rows
  imports Dal_Config
begin

text \<open>
  Package dal_postgresql, the parts its operations share: the loop that reads a result set into
  maps (written out four times in the source), the bookkeeping after it, and the loops that
  number the placeholders of a statement. The contract of the numbering loops is the locale
  \<open>numbering\<close>: the n-th placeholder stands for the n-th argument.
\<close>

section \<open>Reading rows\<close>

text \<open>\<open>rows.Scan(valuePtrs...)\<close> into \<open>n\<close> empty interface values; its error is dropped.\<close>

definition scan_values :: "nat \<Rightarrow> gval list \<Rightarrow> gval list" where
  "scan_values n vals = (if length vals = n then vals else replicate n GNil)"

definition column_value :: "gval \<Rightarrow> gval" where
  "column_value val = (case val of GBytes b \<Rightarrow> GString b | v \<Rightarrow> v)"

fun fill_row :: "(string \<times> gval) list \<Rightarrow> dict \<Rightarrow> dict" where
  "fill_row [] row = row"
| "fill_row ((col, val) # cs) row = fill_row cs (AList.update col (column_value val) row)"

definition read_row :: "string list \<Rightarrow> gval list \<Rightarrow> gmap" where
  "read_row columns vals = Some (fill_row (zip columns (scan_values (length columns) vals)) [])"

text \<open>The loop over the rows carries \<open>counter\<close>, \<open>row\<close> and \<open>Record\<close>; \<open>keep\<close> is the condition on
  the counter under which a row is appended to \<open>Record\<close>.\<close>

fun row_loop ::
    "(64 word \<Rightarrow> bool) \<Rightarrow> string list \<Rightarrow> gval list list \<Rightarrow> 64 word \<Rightarrow> gmap \<Rightarrow> gval list
      \<Rightarrow> 64 word \<times> gmap \<times> gval list" where
  "row_loop keep columns [] counter row Record = (counter, row, Record)"
| "row_loop keep columns (vals # rest) counter row Record =
     (let row' = read_row columns vals;
          counter' = counter + 1;
          Record' = (if keep counter' then Record @ [GMap row'] else Record)
      in row_loop keep columns rest counter' row' Record')"

text \<open>\<open>for _, pk := range primaryKey { next[pk] = row[pk] }\<close>\<close>

fun next_index :: "string list \<Rightarrow> gmap \<Rightarrow> dict \<Rightarrow> dict" where
  "next_index [] row nx = nx"
| "next_index (pk # pks) row nx =
     next_index pks row (AList.update pk (map_index row pk) nx)"

lemma fill_row_get:
  "map_of (fill_row cs row) c =
     (case map_of (rev cs) c of Some v \<Rightarrow> Some (column_value v) | None \<Rightarrow> map_of row c)"
  by (induction cs row rule: fill_row.induct) (auto simp: map_add_def split: option.split)

lemma fill_row_distinct: "distinct (map fst row) \<Longrightarrow> distinct (map fst (fill_row cs row))"
  by (induction cs row rule: fill_row.induct) auto

lemma read_row_get:
  assumes "length vals = length columns" "distinct columns" "i < length columns"
  shows "map_get (read_row columns vals) (columns ! i) = Some (column_value (vals ! i))"
proof -
  have "(columns ! i, vals ! i) \<in> set (zip columns vals)"
    using assms by (auto simp: set_zip)
  moreover have "distinct (map fst (rev (zip columns vals)))"
    using assms by (simp flip: rev_map)
  ultimately have "map_of (rev (zip columns vals)) (columns ! i) = Some (vals ! i)"
    by (intro map_of_SomeI) auto
  then show ?thesis using assms by (simp add: read_row_def fill_row_get scan_values_def)
qed

lemma read_row_wf: "wf_map (read_row columns vals)"
  by (simp add: read_row_def fill_row_distinct)

lemma next_index_get:
  "map_of (next_index pks row nx) f =
     (if f \<in> set pks then Some (map_index row f) else map_of nx f)"
  by (induction pks row nx rule: next_index.induct) auto

text \<open>What the loop leaves behind.\<close>

lemma row_loop_counter: "fst (row_loop keep columns rows counter row Record) = counter + of_nat (length rows)"
  by (induction keep columns rows counter row Record rule: row_loop.induct) (simp_all add: Let_def)

lemma row_loop_row:
  "fst (snd (row_loop keep columns rows counter row Record)) =
     (if rows = [] then row else read_row columns (last rows))"
  by (induction keep columns rows counter row Record rule: row_loop.induct) (simp_all add: Let_def)

lemma row_loop_all:
  "row_loop (\<lambda>_. True) columns rows counter row Record =
    (counter + of_nat (length rows), if rows = [] then row else read_row columns (last rows),
     Record @ map (\<lambda>vals. GMap (read_row columns vals)) rows)"
  by (induction rows arbitrary: counter row Record) (simp_all add: Let_def)

lemma sint_of_nat: "n < 2 ^ 63 \<Longrightarrow> sint (of_nat n :: 64 word) = int n"
  by (simp add: signed_of_nat signed_take_bit_int_eq_self)

lemma row_loop_batch:
  assumes "c + length rows < 2 ^ 63" "0 \<le> sint b"
  shows "snd (snd (row_loop (\<lambda>c. sint c \<le> sint b) columns rows (of_nat c) row Record)) =
    Record @ map (\<lambda>vals. GMap (read_row columns vals)) (take (nat (sint b) - c) rows)"
  using assms
proof (induction rows arbitrary: c row Record)
  case (Cons vals rest)
  have c: "sint (of_nat (Suc c) :: 64 word) = int (Suc c)" using Cons.prems by (intro sint_of_nat) simp
  have w: "(of_nat c :: 64 word) + 1 = of_nat (Suc c)" by simp
  have t: "take (nat (sint b) - c) (vals # rest) =
      (if int (Suc c) \<le> sint b then vals # take (nat (sint b) - Suc c) rest else [])"
  proof (cases "int (Suc c) \<le> sint b")
    case True
    then have "nat (sint b) - c = Suc (nat (sint b) - Suc c)" by linarith
    with True show ?thesis by simp
  next
    case False
    then have "nat (sint b) - c = 0" by simp
    with False show ?thesis by simp
  qed
  show ?case
    unfolding row_loop.simps Let_def w c
    by (subst Cons.IH) (use Cons.prems in \<open>auto simp: t\<close>)
qed simp

section \<open>Numbered placeholders\<close>

text \<open>\<open>"$" + strconv.FormatInt(pc, 10)\<close>\<close>

definition placeholder :: "64 word \<Rightarrow> string" where
  "placeholder pc = ''$'' @ FormatInt (sint pc)"

lemma placeholder_nat: "n < 2 ^ 63 \<Longrightarrow> placeholder (of_nat n) = ''$'' @ dec_nat n"
  by (simp add: placeholder_def sint_of_nat FormatInt_def)

text \<open>The placeholders of the elements \<open>xs\<close>, numbered from \<open>pc\<close>.\<close>

fun numbered :: "('e \<Rightarrow> string \<Rightarrow> string) \<Rightarrow> 64 word \<Rightarrow> 'e list \<Rightarrow> string list" where
  "numbered slot pc [] = []"
| "numbered slot pc (x # xs) = slot x (placeholder pc) # numbered slot (pc + 1) xs"

lemma length_numbered [simp]: "length (numbered slot pc xs) = length xs"
  by (induction slot pc xs rule: numbered.induct) simp_all

lemma numbered_append:
  "numbered slot pc (xs @ ys) = numbered slot pc xs @ numbered slot (pc + of_nat (length xs)) ys"
  by (induction slot pc xs rule: numbered.induct) (simp_all add: add.assoc)

lemma numbered_nth:
  "i < length xs \<Longrightarrow> numbered slot pc xs ! i = slot (xs ! i) (placeholder (pc + of_nat i))"
  by (induction slot pc xs arbitrary: i rule: numbered.induct) (auto simp: nth_Cons' add.assoc split: nat.split)

text \<open>
  A \<open>numbering\<close> loop: an element that is used takes the next placeholder and appends its value
  to the arguments, another one takes none. Its lemma ties the two lists together.
\<close>

locale numbering =
  fixes loop :: "'e list \<Rightarrow> 64 word \<Rightarrow> string list \<Rightarrow> gval list \<Rightarrow> (64 word \<times> string list \<times> gval list) outcome"
    and used :: "'e \<Rightarrow> bool"
    and slot :: "'e \<Rightarrow> string \<Rightarrow> string"
    and arg :: "'e \<Rightarrow> gval"
  assumes loop_Nil: "loop [] pc ph args = Val (pc, ph, args)"
    and loop_used: "used x \<Longrightarrow> loop (x # xs) pc ph args = Val r \<Longrightarrow>
      loop xs (pc + 1) (ph @ [slot x (placeholder pc)]) (args @ [arg x]) = Val r"
    and loop_skipped: "\<not> used x \<Longrightarrow> loop (x # xs) pc ph args = Val r \<Longrightarrow> loop xs pc ph args = Val r"
begin

lemma loop_Val:
  "loop xs pc ph args = Val r \<Longrightarrow>
   r = (pc + of_nat (length (filter used xs)), ph @ numbered slot pc (filter used xs),
        args @ map arg (filter used xs))"
proof (induction xs arbitrary: pc ph args)
  case Nil
  then show ?case by (simp add: loop_Nil)
next
  case (Cons x xs)
  show ?case
  proof (cases "used x")
    case True
    from Cons.IH [OF loop_used [OF True Cons.prems]] True show ?thesis by (simp add: add.assoc)
  next
    case False
    from Cons.IH [OF loop_skipped [OF False Cons.prems]] False show ?thesis by simp
  qed
qed

text \<open>Started on empty lists, placeholder \<open>$(i+1)\<close> belongs to argument \<open>i\<close>.\<close>

lemma aligned:
  assumes "loop xs 1 [] [] = Val (pc, ph, args)" and "i < length args"
  shows "length ph = length args"
    and "ph ! i = slot (filter used xs ! i) (placeholder (of_nat (Suc i)))"
    and "args ! i = arg (filter used xs ! i)"
  using loop_Val [OF assms(1)] assms(2) by (auto simp: numbered_nth)

end

end
