(* ===== verification/Dal_Executor.thy ===== *)
theory Dal_Executor
  imports Dal_Rows
begin

text \<open>
  Package dal_postgresql, \<open>postgresFunctionExecutor\<close>: a call of a stored function by name, with
  the arguments the configuration lists. The receiver is a record that every operation returns
  updated; its fields carry the prefix \<open>pFE_\<close>.
\<close>

record postgresFunctionExecutor =
  pFE_NumAffectedLastOp :: "64 word"
  pFE_Record :: "gval list"
  pFE_dbh :: handle
  pFE_functionName :: string
  pFE_functionArguments :: "gval list"
  pFE_dmlArguments :: "gval list"
  pFE_dmlStatement :: string

definition zero_pFE :: postgresFunctionExecutor where
  "zero_pFE = \<lparr>pFE_NumAffectedLastOp = 0, pFE_Record = [], pFE_dbh = None, pFE_functionName = [],
     pFE_functionArguments = [], pFE_dmlArguments = [], pFE_dmlStatement = []\<rparr>"

definition NewPostgresFunctionExecutor ::
    "handle \<Rightarrow> string \<Rightarrow> gval list \<Rightarrow> postgresFunctionExecutor \<times> goerror option" where
  "NewPostgresFunctionExecutor dbh functionName functionArguments =
     (if dbh = None then (zero_pFE, Some (ErrorString ''Invalid database handle provided''))
      else (zero_pFE\<lparr>pFE_dbh := dbh, pFE_functionName := functionName,
              pFE_functionArguments := functionArguments\<rparr>, None))"

text \<open>The loop over \<open>functionArguments\<close>: the counter, the placeholders and \<open>dmlArguments\<close>.\<close>

fun function_arguments ::
    "gmap \<Rightarrow> gval list \<Rightarrow> 64 word \<Rightarrow> string list \<Rightarrow> gval list
      \<Rightarrow> (64 word \<times> string list \<times> gval list) outcome" where
  "function_arguments procArgs [] placeholderCounter placeholders dmlArguments =
     Val (placeholderCounter, placeholders, dmlArguments)"
| "function_arguments procArgs (fieldName # rest) placeholderCounter placeholders dmlArguments =
     (let placeholders' = placeholders @ [placeholder placeholderCounter] in
      obind (as_string fieldName) (\<lambda>name.
        function_arguments procArgs rest (placeholderCounter + 1) placeholders'
          (dmlArguments @ [case map_get procArgs name of Some v \<Rightarrow> v | None \<Rightarrow> GNil])))"

definition executor_statement :: "string \<Rightarrow> 64 word \<Rightarrow> string list \<Rightarrow> string" where
  "executor_statement functionName placeholderCounter placeholders =
     ''select * from '' @ functionName @ ''('' @
       (if 0 < sint placeholderCounter then join '','' placeholders else []) @ '')''"

definition ExecuteProc ::
    "'w database \<Rightarrow> postgresFunctionExecutor \<Rightarrow> gmap
      \<Rightarrow> ('w, goerror option \<times> postgresFunctionExecutor) proc" where
  "ExecuteProc db pFE procArgs =
     pbind (plift (function_arguments procArgs (pFE_functionArguments pFE) 1 [] (pFE_dmlArguments pFE)))
       (\<lambda>(placeholderCounter, placeholders, dmlArguments).
     let pFE1 = pFE\<lparr>pFE_dmlArguments := dmlArguments,
           pFE_dmlStatement := executor_statement (pFE_functionName pFE) placeholderCounter placeholders\<rparr> in
     pbind (Query db (pFE_dbh pFE1) (pFE_dmlStatement pFE1) (pFE_dmlArguments pFE1)) (\<lambda>r. case r of
       Inl err \<Rightarrow> preturn (Some err, pFE1)
     | Inr rows \<Rightarrow>
         let (counter, row, Record) =
           row_loop (\<lambda>_. True) (rs_columns rows) (rs_rows rows) 0 None (pFE_Record pFE1)
         in preturn (None, pFE1\<lparr>pFE_Record := Record, pFE_NumAffectedLastOp := counter\<rparr>)))"

section \<open>What a call sends\<close>

fun name_of :: "gval \<Rightarrow> string" where
  "name_of (GString s) = s"
| "name_of _ = []"

definition argument :: "gmap \<Rightarrow> gval \<Rightarrow> gval" where
  "argument procArgs fieldName = map_index procArgs (name_of fieldName)"

interpretation executor: numbering "function_arguments procArgs" "\<lambda>_. True" "\<lambda>_ p. p" "argument procArgs"
  for procArgs
  by unfold_locales
    (auto simp: obind_eq_Val as_string_Val argument_def map_index_def split: option.splits)

lemma function_arguments_total:
  assumes "\<forall>a \<in> set names. \<exists>s. a = GString s"
  shows "function_arguments procArgs names pc ph args =
    Val (pc + of_nat (length names), ph @ numbered (\<lambda>_ p. p) pc names, args @ map (argument procArgs) names)"
proof -
  have "\<exists>r. function_arguments procArgs names pc ph args = Val r"
    using assms by (induction names arbitrary: pc ph args) (auto simp: Let_def)
  then show ?thesis using executor.loop_Val by (metis (no_types, lifting) filter_True)
qed

text \<open>The executor after a call that reached the database.\<close>

definition called :: "postgresFunctionExecutor \<Rightarrow> gmap \<Rightarrow> postgresFunctionExecutor" where
  "called pFE procArgs = pFE\<lparr>
     pFE_dmlArguments := pFE_dmlArguments pFE @ map (argument procArgs) (pFE_functionArguments pFE),
     pFE_dmlStatement := executor_statement (pFE_functionName pFE)
       (1 + of_nat (length (pFE_functionArguments pFE)))
       (numbered (\<lambda>_ p. p) 1 (pFE_functionArguments pFE))\<rparr>"

lemma ExecuteProc_runs:
  assumes "pFE_dbh pFE = Some h" and "\<forall>a \<in> set (pFE_functionArguments pFE). \<exists>s. a = GString s"
  shows "ExecuteProc db pFE procArgs w =
    (let pFE1 = called pFE procArgs;
         (r, w') = db_Query db h (pFE_dmlStatement pFE1) (pFE_dmlArguments pFE1) w
     in (Val (case r of
           Inl err \<Rightarrow> (Some err, pFE1)
         | Inr rows \<Rightarrow> (None, pFE1\<lparr>
             pFE_Record := pFE_Record pFE @ map (\<lambda>vals. GMap (read_row (rs_columns rows) vals)) (rs_rows rows),
             pFE_NumAffectedLastOp := of_nat (length (rs_rows rows))\<rparr>)), w'))"
  using assms
  by (simp add: ExecuteProc_def function_arguments_total called_def Query_def pbind_apply row_loop_all
      Let_def split: prod.split sum.split)

end
