(* ===== verification/Dal_Handler.thy ===== *)
theory Dal_Handler
  imports Dal_Rows
begin

text \<open>
  Package dal_postgresql, \<open>postgresDataHandler\<close>: a handler for the records of one table. The
  receiver is a record that every operation returns updated; its fields carry the prefix \<open>pDH_\<close>.
  A statement is built from the maps of the receiver in the order Go visits them.
\<close>

section \<open>The handler\<close>

record postgresDataHandler =
  pDH_Id :: gmap
  pDH_NumAffectedLastOp :: "64 word"
  pDH_RecordNextIdx :: gmap
  pDH_RecordLastOp :: gmap
  pDH_Record :: "gval list"
  pDH_dbh :: handle
  pDH_tableName :: string
  pDH_batchSize :: "64 word"
  pDH_EnforceBatch :: bool
  pDH_projection :: gmap
  pDH_searchCriteria :: gmap
  pDH_sortDirection :: string
  pDH_primaryKey :: "string list"
  pDH_dmlType :: string
  pDH_dmlStatement :: string
  pDH_dmlArguments :: "gval list"

definition zero_pDH :: postgresDataHandler where
  "zero_pDH = \<lparr>pDH_Id = None, pDH_NumAffectedLastOp = 0, pDH_RecordNextIdx = None,
     pDH_RecordLastOp = None, pDH_Record = [], pDH_dbh = None, pDH_tableName = [], pDH_batchSize = 0,
     pDH_EnforceBatch = False, pDH_projection = None, pDH_searchCriteria = None,
     pDH_sortDirection = [], pDH_primaryKey = [], pDH_dmlType = [], pDH_dmlStatement = [],
     pDH_dmlArguments = []\<rparr>"

definition stringIn :: "string \<Rightarrow> string list \<Rightarrow> bool" where
  "stringIn val valid = list_ex (\<lambda>v. v = val) valid"

definition getDefaultSortDirection :: string where
  "getDefaultSortDirection = ''desc''"

definition getDefaultBatchSize :: "64 word" where
  "getDefaultBatchSize = 10"

text \<open>The loop over the \<open>pk\<close> names: the projection and the primary key.\<close>

fun add_primary_key :: "string list \<Rightarrow> postgresDataHandler \<Rightarrow> postgresDataHandler outcome" where
  "add_primary_key [] pDH = Val pDH"
| "add_primary_key (f # fs) pDH =
     obind (map_store (pDH_projection pDH) f GNil) (\<lambda>projection.
       add_primary_key fs (pDH\<lparr>pDH_projection := projection, pDH_primaryKey := pDH_primaryKey pDH @ [f]\<rparr>))"

definition NewPostgresDataHandler ::
    "handle \<Rightarrow> gmap \<Rightarrow> (postgresDataHandler \<times> goerror option) outcome" where
  "NewPostgresDataHandler dbh tableDetails =
     (if dbh = None then Val (zero_pDH, Some (ErrorString ''Invalid database handle provided''))
      else if tableDetails = None then Val (zero_pDH, Some (ErrorString ''Invalid tableDetails provided''))
      else if map_get tableDetails ''table_name'' = None then
        Val (zero_pDH, Some (ErrorString ''table_name must be provided''))
      else if map_get tableDetails ''pk'' = None then
        Val (zero_pDH, Some (ErrorString (''Primary Key 'pk' details must be provided'')))
      else
        obind (as_string (map_index tableDetails ''table_name'')) (\<lambda>tableName.
        let pDH = zero_pDH\<lparr>pDH_dbh := dbh, pDH_tableName := tableName, pDH_projection := Some [],
              pDH_searchCriteria := Some [], pDH_batchSize := getDefaultBatchSize,
              pDH_EnforceBatch := True, pDH_Record := [],
              pDH_sortDirection := getDefaultSortDirection\<rparr> in
        obind (as_strings (map_index tableDetails ''pk'')) (\<lambda>pk.
        obind (add_primary_key pk pDH) (\<lambda>pDH'. Val (pDH', None)))))"

definition checkPrimaryKey :: "range_order \<Rightarrow> postgresDataHandler \<Rightarrow> goerror option" where
  "checkPrimaryKey ord pDH =
     (if list_all (\<lambda>pkf. list_ex (\<lambda>(scf, _). pkf = scf)
            (range_over ord ''checkPrimaryKey'' (pDH_searchCriteria pDH))) (pDH_primaryKey pDH)
      then None
      else Some (ErrorString ''All parts of the primary key must be provided''))"

definition GetDMLStatement :: "postgresDataHandler \<Rightarrow> string \<times> gval list" where
  "GetDMLStatement pDH = (pDH_dmlStatement pDH, pDH_dmlArguments pDH)"

definition SetBatchSize :: "64 word \<Rightarrow> postgresDataHandler \<Rightarrow> postgresDataHandler" where
  "SetBatchSize b pDH =
     (if b = 0 then pDH\<lparr>pDH_batchSize := getDefaultBatchSize\<rparr> else pDH\<lparr>pDH_batchSize := b\<rparr>)"

fun SetProjection :: "string list \<Rightarrow> postgresDataHandler \<Rightarrow> postgresDataHandler outcome" where
  "SetProjection [] pDH = Val pDH"
| "SetProjection (f # fieldList) pDH =
     obind (map_store (pDH_projection pDH) f GNil) (\<lambda>projection.
       SetProjection fieldList (pDH\<lparr>pDH_projection := projection\<rparr>))"

definition SetFindCriteria ::
    "gmap \<Rightarrow> postgresDataHandler \<Rightarrow> goerror option \<times> postgresDataHandler" where
  "SetFindCriteria findKeys pDH =
     (case find (\<lambda>pkf. map_get findKeys pkf = None) (pDH_primaryKey pDH) of
        Some pkf \<Rightarrow> (Some (ErrorString (''Primary key field '' @ pkf @ '' is missing'')), pDH)
      | None \<Rightarrow> (None, pDH\<lparr>pDH_searchCriteria := findKeys\<rparr>))"

section \<open>Finding records\<close>

text \<open>The flags: \<open>return_many\<close> and the sort direction.\<close>

fun find_flags :: "string list \<Rightarrow> bool \<Rightarrow> string \<Rightarrow> bool \<times> string" where
  "find_flags [] return_many sortDirection = (return_many, sortDirection)"
| "find_flags (flag # args) return_many sortDirection =
     (if flag = ''return_many'' then find_flags args True sortDirection
      else if flag = ''reverse_sort'' then
        find_flags args return_many (if sortDirection = ''desc'' then ''asc'' else ''desc'')
      else find_flags args return_many sortDirection)"

text \<open>A criterion that is a slice: what it can panic on; the rest of its branch only prints.\<close>

definition slice_criterion :: "gval \<Rightarrow> unit outcome" where
  "slice_criterion v =
     obind (as_slice v) (\<lambda>xs.
     obind (if length xs = 2 then
              obind (as_string (xs ! 0)) (\<lambda>s. Val (stringIn s [''<'', ''<='', ''=>'', ''>'']))
            else Val False) (\<lambda>comparison.
     if comparison then Val ()
     else if length xs = 3 then
       obind (as_string (xs ! 0)) (\<lambda>s. Val ())
     else Val ()))"

fun find_criteria ::
    "dict \<Rightarrow> 64 word \<Rightarrow> string list \<Rightarrow> gval list \<Rightarrow> (64 word \<times> string list \<times> gval list) outcome" where
  "find_criteria [] pc placeholders dmlArguments = Val (pc, placeholders, dmlArguments)"
| "find_criteria ((k, v) # rest) pc placeholders dmlArguments =
     obind (kind_of v) (\<lambda>kd.
     if kd = KSlice then
       obind (slice_criterion v) (\<lambda>_. find_criteria rest pc placeholders dmlArguments)
     else
       find_criteria rest (pc + 1) (placeholders @ [k @ ''='' @ placeholder pc]) (dmlArguments @ [v]))"

text \<open>\<open>if len(searchCriteria) > 0 { ... }\<close>: the loop, when there is a criterion.\<close>

definition find_placeholders ::
    "range_order \<Rightarrow> postgresDataHandler \<Rightarrow> (64 word \<times> string list \<times> gval list) outcome" where
  "find_placeholders ord pDH =
     (if 0 < map_len (pDH_searchCriteria pDH) then
        find_criteria (range_over ord ''FindRecord.searchCriteria'' (pDH_searchCriteria pDH))
          1 [] (pDH_dmlArguments pDH)
      else Val (1, [], pDH_dmlArguments pDH))"

text \<open>The text of the statement.\<close>

definition find_statement :: "postgresDataHandler \<Rightarrow> string list \<Rightarrow> string list \<Rightarrow> string" where
  "find_statement pDH proj placeholders =
     ''select '' @ join '','' proj @ '' from '' @ pDH_tableName pDH @
     (if 0 < map_len (pDH_searchCriteria pDH) then '' where '' @ join '' and '' placeholders else []) @
     '' order by'' @
     concat (map (\<lambda>f. '' '' @ f @ '' '' @ pDH_sortDirection pDH) (pDH_primaryKey pDH)) @
     (if pDH_EnforceBatch pDH then '' limit '' @ FormatInt (sint (pDH_batchSize pDH + 1)) else [])"

text \<open>The end of \<open>FindRecord\<close>, \<open>ExecuteProc\<close> and \<open>InsertRecord\<close>, after the loop over the rows.\<close>

definition finish_rows :: "64 word \<Rightarrow> gmap \<Rightarrow> postgresDataHandler \<Rightarrow> postgresDataHandler" where
  "finish_rows counter row pDH =
     (let pDH1 = pDH\<lparr>pDH_NumAffectedLastOp := counter\<rparr>
      in if 0 < sint counter then
           (let pDH2 = (if sint (pDH_batchSize pDH1) < sint counter then
                          pDH1\<lparr>pDH_RecordNextIdx := Some (next_index (pDH_primaryKey pDH1) row [])\<rparr>
                        else pDH1)
            in pDH2\<lparr>pDH_RecordLastOp := row\<rparr>)
         else pDH1)"

definition read_found :: "result_set \<Rightarrow> postgresDataHandler \<Rightarrow> postgresDataHandler" where
  "read_found rows pDH =
     (let (counter, row, Record) =
        row_loop (\<lambda>counter. sint counter \<le> sint (pDH_batchSize pDH) \<or> \<not> pDH_EnforceBatch pDH)
          (rs_columns rows) (rs_rows rows) 0 None (pDH_Record pDH)
      in finish_rows counter row (pDH\<lparr>pDH_Record := Record\<rparr>))"

definition FindRecord ::
    "'w database \<Rightarrow> range_order \<Rightarrow> postgresDataHandler \<Rightarrow> string list
      \<Rightarrow> ('w, goerror option \<times> postgresDataHandler) proc" where
  "FindRecord db ord pDH args =
     (if pDH_dmlType pDH \<noteq> [] then
        preturn (Some (ErrorString (''Record is already staged for '' @ pDH_dmlType pDH)), pDH)
      else
      let (return_many, sortDirection) = find_flags args False (pDH_sortDirection pDH);
          pDH1 = pDH\<lparr>pDH_sortDirection := sortDirection\<rparr>;
          pkerr = (if \<not> return_many then checkPrimaryKey ord pDH1 else None) in
      case pkerr of
        Some err \<Rightarrow> preturn (Some err, pDH1)
      | None \<Rightarrow>
      let proj = map fst (range_over ord ''FindRecord.projection'' (pDH_projection pDH1)) in
      pbind (plift (find_placeholders ord pDH1)) (\<lambda>(pc, placeholders, dmlArguments).
      let pDH2 = pDH1\<lparr>pDH_dmlArguments := dmlArguments,
                      pDH_dmlStatement := find_statement pDH1 proj placeholders\<rparr> in
      pbind (Query db (pDH_dbh pDH2) (pDH_dmlStatement pDH2) (pDH_dmlArguments pDH2)) (\<lambda>r. case r of
        Inl err \<Rightarrow> preturn (Some err, pDH2)
      | Inr rows \<Rightarrow> preturn (None, read_found rows pDH2))))"

section \<open>Calling a procedure\<close>

text \<open>The method \<open>ExecuteProc\<close> of the data handler.\<close>

fun proc_arguments ::
    "gval list \<Rightarrow> 64 word \<Rightarrow> string list \<Rightarrow> gval list \<Rightarrow> (64 word \<times> string list \<times> gval list) outcome" where
  "proc_arguments [] pc placeholders dmlArguments = Val (pc, placeholders, dmlArguments)"
| "proc_arguments (v # vs) pc placeholders dmlArguments =
     proc_arguments vs (pc + 1) (placeholders @ [placeholder pc]) (dmlArguments @ [v])"

definition read_all :: "result_set \<Rightarrow> postgresDataHandler \<Rightarrow> postgresDataHandler" where
  "read_all rows pDH =
     (let (counter, row, Record) =
        row_loop (\<lambda>_. True) (rs_columns rows) (rs_rows rows) 0 None (pDH_Record pDH)
      in finish_rows counter row (pDH\<lparr>pDH_Record := Record\<rparr>))"

definition pDH_ExecuteProc ::
    "'w database \<Rightarrow> postgresDataHandler \<Rightarrow> string \<Rightarrow> gval list
      \<Rightarrow> ('w, goerror option \<times> postgresDataHandler) proc" where
  "pDH_ExecuteProc db pDH procName procArgs =
     pbind (plift (if 0 < length procArgs then proc_arguments procArgs 1 [] (pDH_dmlArguments pDH)
                   else Val (1, [], pDH_dmlArguments pDH))) (\<lambda>(pc, placeholders, dmlArguments).
     let pDH1 = pDH\<lparr>pDH_dmlArguments := dmlArguments,
                    pDH_dmlStatement := ''select '' @ procName @ ''('' @ join '','' placeholders @ '')''\<rparr> in
     pbind (Query db (pDH_dbh pDH1) (pDH_dmlStatement pDH1) (pDH_dmlArguments pDH1)) (\<lambda>r. case r of
       Inl err \<Rightarrow> preturn (Some err, pDH1)
     | Inr rows \<Rightarrow> preturn (None, read_all rows pDH1)))"

section \<open>Changing records\<close>

text \<open>The loops over a map of new values and over the criteria: slices are skipped.\<close>

fun equalities ::
    "dict \<Rightarrow> 64 word \<Rightarrow> string list \<Rightarrow> gval list \<Rightarrow> (64 word \<times> string list \<times> gval list) outcome" where
  "equalities [] pc placeholders dmlArguments = Val (pc, placeholders, dmlArguments)"
| "equalities ((k, v) # rest) pc placeholders dmlArguments =
     obind (kind_of v) (\<lambda>kd.
     if kd = KSlice then equalities rest pc placeholders dmlArguments
     else equalities rest (pc + 1) (placeholders @ [k @ ''='' @ placeholder pc]) (dmlArguments @ [v]))"

text \<open>The common end of \<open>UpdateRecord\<close> and \<open>DeleteRecord\<close>.\<close>

definition run_dml ::
    "'w database \<Rightarrow> postgresDataHandler \<Rightarrow> ('w, goerror option \<times> postgresDataHandler) proc" where
  "run_dml db pDH =
     pbind (Exec db (pDH_dbh pDH) (pDH_dmlStatement pDH) (pDH_dmlArguments pDH)) (\<lambda>res. case res of
       Inl err \<Rightarrow> preturn (Some err, pDH)
     | Inr (n, err) \<Rightarrow> preturn (err, pDH\<lparr>pDH_NumAffectedLastOp := n\<rparr>))"

definition UpdateRecord ::
    "'w database \<Rightarrow> range_order \<Rightarrow> postgresDataHandler \<Rightarrow> gmap
      \<Rightarrow> ('w, goerror option \<times> postgresDataHandler) proc" where
  "UpdateRecord db ord pDH replacement =
     (case checkPrimaryKey ord pDH of
        Some err \<Rightarrow> preturn (Some err, pDH)
      | None \<Rightarrow>
      if replacement = None \<or> map_len replacement = 0 then
        preturn (Some (ErrorString ''A replacement must be provided to update''), pDH)
      else
      pbind (plift (equalities (range_over ord ''UpdateRecord.replacement'' replacement) 1 []
               (pDH_dmlArguments pDH))) (\<lambda>(pc, update_placeholders, args1).
      pbind (plift (equalities (range_over ord ''UpdateRecord.searchCriteria'' (pDH_searchCriteria pDH)) pc []
               args1)) (\<lambda>(pc', find_placeholders, args2).
      run_dml db (pDH\<lparr>pDH_dmlArguments := args2,
        pDH_dmlStatement := ''update '' @ pDH_tableName pDH @ '' set\<newline>    '' @
          join '',\<newline>    '' update_placeholders @ ''\<newline>where\<newline>    '' @
          join ''\<newline>and '' find_placeholders\<rparr>))))"

definition DeleteRecord ::
    "'w database \<Rightarrow> range_order \<Rightarrow> postgresDataHandler
      \<Rightarrow> ('w, goerror option \<times> postgresDataHandler) proc" where
  "DeleteRecord db ord pDH =
     (case checkPrimaryKey ord pDH of
        Some err \<Rightarrow> preturn (Some err, pDH)
      | None \<Rightarrow>
      pbind (plift (equalities (range_over ord ''DeleteRecord.searchCriteria'' (pDH_searchCriteria pDH)) 1 []
               (pDH_dmlArguments pDH))) (\<lambda>(pc, placeholders, dmlArguments).
      run_dml db (pDH\<lparr>pDH_dmlArguments := dmlArguments,
        pDH_dmlStatement := ''delete from '' @ pDH_tableName pDH @ ''\<newline>where\<newline>    '' @
          join ''\<newline>and '' placeholders\<rparr>)))"

text \<open>The loop over the record: its field names, its values and the placeholders.\<close>

fun insert_columns ::
    "dict \<Rightarrow> 64 word \<Rightarrow> string list \<Rightarrow> gval list \<Rightarrow> string list \<Rightarrow> string list \<times> gval list \<times> string list" where
  "insert_columns [] counter fs vals placeholders = (fs, vals, placeholders)"
| "insert_columns ((k, v) # rest) counter fs vals placeholders =
     insert_columns rest (counter + 1) (fs @ [k]) (vals @ [v]) (placeholders @ [placeholder counter])"

definition InsertRecord ::
    "'w database \<Rightarrow> range_order \<Rightarrow> postgresDataHandler \<Rightarrow> gmap \<Rightarrow> string list
      \<Rightarrow> ('w, goerror option \<times> postgresDataHandler) proc" where
  "InsertRecord db ord pDH record args =
     (if pDH_dmlType pDH \<noteq> [] then
        preturn (Some (ErrorString (''Record is already stageed for '' @ pDH_dmlType pDH)), pDH)
      else if map_len record = 0 then
        preturn (Some (ErrorString ''A blank record was passed''), pDH)
      else
      let return_modified = list_ex (\<lambda>flag. flag = ''return_modified'') args;
          (fs, vals, placeholders) = insert_columns (range_over ord ''InsertRecord'' record) 1 [] [] [];
          statement = ''insert into '' @ pDH_tableName pDH @ '' ('' @ join '','' fs @ '') values ('' @
            join '','' placeholders @ '')'';
          pDH1 = pDH\<lparr>pDH_dmlType := ''insert'', pDH_dmlArguments := vals\<rparr> in
      if return_modified then
        let pDH2 = pDH1\<lparr>pDH_dmlStatement := ''with inserted_rows as ('' @ statement @ '' returning '' @
              pDH_tableName pDH @ ''.*) select * from inserted_rows''\<rparr> in
        pbind (Query db (pDH_dbh pDH2) (pDH_dmlStatement pDH2) (pDH_dmlArguments pDH2)) (\<lambda>r. case r of
          Inl err \<Rightarrow> preturn (Some err, pDH2)
        | Inr rows \<Rightarrow> preturn (None, read_all rows pDH2))
      else
        let pDH2 = pDH1\<lparr>pDH_dmlStatement := statement\<rparr> in
        pbind (Exec db (pDH_dbh pDH2) (pDH_dmlStatement pDH2) (pDH_dmlArguments pDH2)) (\<lambda>r. case r of
          Inl err \<Rightarrow> preturn (Some err, pDH2)
        | Inr _ \<Rightarrow> preturn (None, pDH2)))"

end
