(* ===== verification/Handlers.thy ===== *)
theory Handlers
  imports Validation Dal_Executor Dal_Handler
begin

text \<open>
  Package apphandlers, the common part (\<open>apphandlers/main.go\<close>) and the pageview handler
  (\<open>apphandlers/pageview.go\<close>). A handler is a \<open>proc\<close> on a \<open>world\<close>: the response writer and the
  outside world \<open>'s\<close> that the database and the queue act on. The \<open>environment\<close> holds the
  parameters of the model: the database, the queue, the other externals and the map orders.
  Log output is not modelled.
\<close>

section \<open>The process and its environment\<close>

record ProcessConfiguration =
  ApiVersion :: string
  KafkaTopic :: string
  KafkaBrokers :: "string list"
  Settings :: gmap
  DbCfg :: PostgresCfg
  KafkaProducer :: bool            \<comment> \<open>false: the nil interface\<close>
  DebugOutput :: bool
  TimeFormat :: string

text \<open>A request as the handler sees it: \<open>ReadAll(r.Body)\<close>, \<open>mux.Vars(r)\<close> and \<open>r.FormValue\<close>.\<close>

record request =
  Method :: string
  Body :: "goerror + string"
  Vars :: "(string \<times> string) list"
  FormValue :: "string \<Rightarrow> string"

record 's environment =
  env_db :: "'s database"
  env_SendMessage :: "string \<Rightarrow> string \<Rightarrow> 's \<Rightarrow> goerror option \<times> 's"
  env_ext :: externals
  env_ord :: range_order

record 's world =
  outside :: 's
  writer :: response_writer

definition on_outside :: "('s, 'a) proc \<Rightarrow> ('s world, 'a) proc" where
  "on_outside p = (\<lambda>w. case p (outside w) of (r, s) \<Rightarrow> (r, w\<lparr>outside := s\<rparr>))"

lemma on_outside_apply [simp]:
  "on_outside p w = (fst (p (outside w)), w\<lparr>outside := snd (p (outside w))\<rparr>)"
  by (simp add: on_outside_def split: prod.split)

section \<open>Answers\<close>

type_synonym answer = "externals \<Rightarrow> gmap \<Rightarrow> response_writer \<Rightarrow> (goerror option \<times> response_writer) outcome"

text \<open>A call of an answer function whose error is dropped.\<close>

definition reply :: "'s environment \<Rightarrow> answer \<Rightarrow> gmap \<Rightarrow> ('s world, unit) proc" where
  "reply env f doc = (\<lambda>w. case f (env_ext env) doc (writer w) of
     Val (err, rw) \<Rightarrow> (Val (), w\<lparr>writer := rw\<rparr>)
   | Panic p \<Rightarrow> (Panic p, w))"

text \<open>\<open>errMsg := make(...); SetKey(errMsg, "msg", []string{err.Error()}); common.Make...Response(w, errMsg)\<close>\<close>

definition reply_error :: "'s environment \<Rightarrow> answer \<Rightarrow> goerror \<Rightarrow> ('s world, unit) proc" where
  "reply_error env f err = reply env f (error_doc (Error (env_ext env) err))"

definition invalid_method :: "'s environment \<Rightarrow> ('s world, unit) proc" where
  "invalid_method env = reply env MakeInvalidMethodResponse (error_doc ''Invalid request method'')"

definition write_answer :: "(response_writer \<Rightarrow> response_writer) \<Rightarrow> ('s world, unit) proc" where
  "write_answer f = pmodify (\<lambda>w. w\<lparr>writer := f (writer w)\<rparr>)"

section \<open>The queue\<close>

text \<open>
  \<open>sendMessage\<close>: a message that cannot be encoded is sent with no bytes, and the error of the
  encoding is returned when the queue accepts it.
\<close>

definition sendMessage ::
    "'s environment \<Rightarrow> ProcessConfiguration \<Rightarrow> gmap \<Rightarrow> ('s world, goerror option) proc" where
  "sendMessage env processConfig msgInput =
     (let (brv, err) = (case json_Marshal (env_ext env) (GMap msgInput) of
            Inl e \<Rightarrow> ([], Some e) | Inr s \<Rightarrow> (s, None))
      in if \<not> KafkaProducer processConfig then plift (Panic NilDereference)
         else pbind (on_outside (pcall (env_SendMessage env (KafkaTopic processConfig) brv))) (\<lambda>serr.
           preturn (case serr of Some e \<Rightarrow> Some e | None \<Rightarrow> err)))"

section \<open>The input document\<close>

text \<open>The loop over the variables of the URL.\<close>

fun add_vars :: "dict \<Rightarrow> gmap \<Rightarrow> gmap \<times> goerror option" where
  "add_vars [] inputDoc = (inputDoc, None)"
| "add_vars ((argn, argv) # rest) inputDoc =
     (case SetKey inputDoc argn argv of
        ((ok, err), inputDoc') \<Rightarrow>
          if \<not> ok then
            (inputDoc', Some (ErrorString (''Could not add/append arguments to input: '' @
               (case err of Some (ErrorString s) \<Rightarrow> s | _ \<Rightarrow> []))))
          else add_vars rest inputDoc')"

definition combineInput :: "externals \<Rightarrow> range_order \<Rightarrow> request \<Rightarrow> gmap \<times> goerror option" where
  "combineInput ext ord r =
     (let vars = Some (map (\<lambda>(k, v). (k, GString v)) (Vars r));
          inputDoc = Some [] in
      case Body r of
        Inl err \<Rightarrow> (inputDoc, Some (ErrorString (''Error reading http body: '' @ Error ext err)))
      | Inr body \<Rightarrow>
          (case (if 0 < length body then json_Unmarshal ext body else Inr inputDoc) of
             Inl err \<Rightarrow> (inputDoc, Some err)
           | Inr inputDoc' \<Rightarrow> add_vars (range_over ord ''combineInput'' vars) inputDoc'))"

text \<open>\<open>Settings[section].(map[string]interface{})\<close> and the check of the input against it.\<close>

definition validate_input ::
    "'s environment \<Rightarrow> ProcessConfiguration \<Rightarrow> string \<Rightarrow> string \<Rightarrow> gmap \<Rightarrow> ('s world, goerror option \<times> gmap) proc" where
  "validate_input env processConfig sect action inputDoc =
     plift (obind (as_map (map_index (Settings processConfig) sect)) (\<lambda>schema.
       ValidateWithSchema (env_ext env) (env_ord env) inputDoc schema action))"

section \<open>Pageviews\<close>

definition pageview_message :: "externals \<Rightarrow> string \<Rightarrow> gval \<Rightarrow> gmap" where
  "pageview_message ext layout ident =
     put ''pageview_dt'' (GString (time_Now_Format ext layout))
       (put ''content_id'' ident (put ''type'' (GString ''content_pageview'') (Some [])))"

definition ProcessPageviewHandler ::
    "'s environment \<Rightarrow> ProcessConfiguration \<Rightarrow> request \<Rightarrow> ('s world, unit) proc" where
  "ProcessPageviewHandler env processConfig r =
     (if Method r = ''GET'' then
        (case combineInput (env_ext env) (env_ord env) r of
           (inputDoc, Some err) \<Rightarrow> reply_error env MakeInvalidInputResponse err
         | (inputDoc, None) \<Rightarrow>
             pbind (plift (as_string (map_index inputDoc ''id''))) (\<lambda>ident.
             case uuid_FromString (env_ext env) ident of
               Inl err \<Rightarrow> reply_error env MakeInvalidInputResponse err
             | Inr _ \<Rightarrow>
                 pbind (sendMessage env processConfig
                          (pageview_message (env_ext env) (TimeFormat processConfig) (GString ident)))
                   (\<lambda>err. case err of
                      Some e \<Rightarrow> reply_error env MakeInternalErrorResponse e
                    | None \<Rightarrow> write_answer MakeNoContent)))
      else invalid_method env)"

section \<open>What the answers do to the world\<close>

text \<open>The answer is given with status \<open>code\<close>, or not at all when its text cannot be encoded.\<close>

definition answered :: "nat \<Rightarrow> 's world \<Rightarrow> 's world \<Rightarrow> bool" where
  "answered code w w' \<longleftrightarrow> outside w' = outside w \<and>
     (rw_status (writer w') = Some code \<or> writer w' = writer w)"

lemma reply_answered:
  assumes "responder f code" and "rw_status (writer w) = None"
  shows "\<exists>w'. reply env f (error_doc t) w = (Val (), w') \<and> answered code w w'"
proof -
  from responder.error_reply_total [OF assms, of "env_ext env" t] obtain err rw where
    "f (env_ext env) (error_doc t) (writer w) = Val (err, rw)" "rw_status rw = Some code \<or> rw = writer w" by blast
  then show ?thesis by (simp add: reply_def answered_def)
qed

lemma reply_empty_answered:
  assumes "responder f code" and "rw_status (writer w) = None"
  shows "\<exists>w'. reply env f (Some []) w = (Val (), w') \<and> answered code w w'"
proof -
  from responder.empty_reply_total [OF assms, of "env_ext env"] obtain err rw where
    "f (env_ext env) (Some []) (writer w) = Val (err, rw)" "rw_status rw = Some code \<or> rw = writer w" by blast
  then show ?thesis by (simp add: reply_def answered_def)
qed

lemmas responders = not_found.responder_axioms invalid_input.responder_axioms
  invalid_method.responder_axioms internal_error.responder_axioms

lemma reply_error_answered:
  assumes "responder f code" and "rw_status (writer w) = None"
  shows "\<exists>w'. reply_error env f e w = (Val (), w') \<and> answered code w w'"
  unfolding reply_error_def by (rule reply_answered [OF assms])

lemma invalid_method_answered:
  assumes "rw_status (writer w) = None"
  shows "\<exists>w'. invalid_method env w = (Val (), w') \<and> answered 405 w w'"
  unfolding invalid_method_def by (rule reply_answered [OF invalid_method.responder_axioms assms])

end
