(* ===== verification/Client_Handlers.thy ===== *)
theory Client_Handlers
  imports Handlers
begin

text \<open>
  Package apphandlers, the clients (\<open>apphandlers/client.go\<close>): creating, changing and removing a
  client through the stored functions the configuration names, and listing the clients. One
  definition for each branch of the switch on the method.
\<close>

section \<open>What the branches share\<close>

text \<open>\<open>conn, conerr := GetDatabaseHandleFromCfg(&processConfig.DbCfg)\<close> and the answer to its error.\<close>

definition with_connection ::
    "'s environment \<Rightarrow> ProcessConfiguration \<Rightarrow> (handle \<Rightarrow> ('s world, unit) proc) \<Rightarrow> ('s world, unit) proc" where
  "with_connection env processConfig k =
     pbind (on_outside (GetDatabaseHandleFromCfg (env_db env) (DbCfg processConfig))) (\<lambda>(conn, conerr).
       case conerr of
         Some e \<Rightarrow> reply_error env MakeInternalErrorResponse e
       | None \<Rightarrow> k conn)"

text \<open>\<open>inputDoc, err := combineInput(w, r)\<close> and the answer to its error.\<close>

definition with_input ::
    "'s environment \<Rightarrow> request \<Rightarrow> (gmap \<Rightarrow> ('s world, unit) proc) \<Rightarrow> ('s world, unit) proc" where
  "with_input env r k =
     (case combineInput (env_ext env) (env_ord env) r of
        (_, Some err) \<Rightarrow> reply_error env MakeInvalidInputResponse err
      | (inputDoc, None) \<Rightarrow> k inputDoc)"

text \<open>The check of the input and the answer to its error.\<close>

definition with_valid ::
    "'s environment \<Rightarrow> ProcessConfiguration \<Rightarrow> string \<Rightarrow> string \<Rightarrow> gmap
      \<Rightarrow> (gmap \<Rightarrow> ('s world, unit) proc) \<Rightarrow> ('s world, unit) proc" where
  "with_valid env processConfig sect action inputDoc k =
     pbind (validate_input env processConfig sect action inputDoc) (\<lambda>(err, inputDoc').
       case err of
         Some e \<Rightarrow> reply_error env MakeInvalidInputResponse e
       | None \<Rightarrow> k inputDoc')"

text \<open>\<open>cfg["function"].(string)\<close> and \<open>cfg["arguments"].([]interface{})\<close> of an action.\<close>

definition action_cfg :: "ProcessConfiguration \<Rightarrow> string \<Rightarrow> string \<Rightarrow> (string \<times> gval list) outcome" where
  "action_cfg processConfig sect action =
     obind (as_map (map_index (Settings processConfig) sect)) (\<lambda>actions.
     obind (as_map (map_index actions action)) (\<lambda>cfg.
     obind (as_string (map_index cfg ''function'')) (\<lambda>function_name.
     obind (as_slice (map_index cfg ''arguments'')) (\<lambda>arguments.
       Val (function_name, arguments)))))"

text \<open>The executor is made and called; both errors are answered as invalid input.\<close>

definition call_function ::
    "'s environment \<Rightarrow> handle \<Rightarrow> string \<Rightarrow> gval list \<Rightarrow> gmap
      \<Rightarrow> (postgresFunctionExecutor \<Rightarrow> ('s world, unit) proc) \<Rightarrow> ('s world, unit) proc" where
  "call_function env conn function_name arguments inputDoc k =
     (case NewPostgresFunctionExecutor conn function_name arguments of
        (_, Some err) \<Rightarrow> reply_error env MakeInvalidInputResponse err
      | (pFE, None) \<Rightarrow>
          pbind (on_outside (ExecuteProc (env_db env) pFE inputDoc)) (\<lambda>(err, pFE').
            case err of
              Some e \<Rightarrow> reply_error env MakeInvalidInputResponse e
            | None \<Rightarrow> k pFE'))"

text \<open>\<open>Record[0].(map[string]interface{})\<close>\<close>

definition first_record :: "gval list \<Rightarrow> gmap outcome" where
  "first_record Record = (case Record of [] \<Rightarrow> Panic IndexOutOfRange | v # _ \<Rightarrow> as_map v)"

definition queue_message :: "string \<Rightarrow> gval \<Rightarrow> gmap" where
  "queue_message kd ident = put ''id'' ident (put ''type'' (GString kd) (Some []))"

text \<open>The message about a record; a failure is only logged.\<close>

definition announce ::
    "'s environment \<Rightarrow> ProcessConfiguration \<Rightarrow> string \<Rightarrow> gval \<Rightarrow> ('s world, unit) proc" where
  "announce env processConfig kd ident =
     pbind (sendMessage env processConfig (queue_message kd ident)) (\<lambda>_. preturn ())"

section \<open>Creating a client\<close>

definition insert_client_post ::
    "'s environment \<Rightarrow> ProcessConfiguration \<Rightarrow> handle \<Rightarrow> gmap \<Rightarrow> ('s world, unit) proc" where
  "insert_client_post env processConfig conn inputDoc =
     with_valid env processConfig ''client_message'' ''insert'' inputDoc (\<lambda>inputDoc'.
     pbind (plift (action_cfg processConfig ''client_action'' ''insert'')) (\<lambda>(function_name, arguments).
     call_function env conn function_name arguments inputDoc' (\<lambda>iH.
     pbind (plift (first_record (pFE_Record iH))) (\<lambda>returnRec.
     pbind (plift (as_string (map_index returnRec ''client_id''))) (\<lambda>ident.
     pbind (write_answer (MakeCreatedReponse (''/v'' @ ApiVersion processConfig @ ''/client/'' @ ident))) (\<lambda>_.
       announce env processConfig ''client_create'' (GString ident)))))))"

definition InsertClientHandler ::
    "'s environment \<Rightarrow> ProcessConfiguration \<Rightarrow> request \<Rightarrow> ('s world, unit) proc" where
  "InsertClientHandler env processConfig r =
     with_input env r (\<lambda>inputDoc.
     with_connection env processConfig (\<lambda>conn.
       if Method r = ''GET'' then preturn ()
       else if Method r = ''POST'' then insert_client_post env processConfig conn inputDoc
       else invalid_method env))"

section \<open>Changing and removing a client\<close>

definition reply_one :: "'s environment \<Rightarrow> 64 word \<Rightarrow> ('s world, unit) proc" where
  "reply_one env n =
     (if n = 1 then write_answer MakeNoContent else reply env MakeNotFoundResponse (Some []))"

definition update_client_post ::
    "'s environment \<Rightarrow> ProcessConfiguration \<Rightarrow> handle \<Rightarrow> gmap \<Rightarrow> ('s world, unit) proc" where
  "update_client_post env processConfig conn inputDoc =
     with_valid env processConfig ''client_message'' ''update'' inputDoc (\<lambda>inputDoc'.
     let inputDoc'' = put ''replacement'' (GBool True) inputDoc' in
     pbind (plift (action_cfg processConfig ''client_action'' ''update'')) (\<lambda>(function_name, arguments).
     call_function env conn function_name (arguments @ [GString ''replacement'']) inputDoc'' (\<lambda>uH.
       reply_one env (pFE_NumAffectedLastOp uH))))"

definition update_client_patch ::
    "'s environment \<Rightarrow> ProcessConfiguration \<Rightarrow> handle \<Rightarrow> gmap \<Rightarrow> ('s world, unit) proc" where
  "update_client_patch env processConfig conn inputDoc =
     with_valid env processConfig ''client_message'' ''update'' inputDoc (\<lambda>inputDoc'.
     pbind (plift (action_cfg processConfig ''client_action'' ''update'')) (\<lambda>(function_name, arguments).
     call_function env conn function_name arguments inputDoc' (\<lambda>uH.
       reply_one env (pFE_NumAffectedLastOp uH))))"

text \<open>The document of a data answer: the records, their number and where to go on.\<close>

definition data_doc :: "gval list \<Rightarrow> gval \<Rightarrow> gmap" where
  "data_doc Record nx =
     put ''next'' nx (put ''num'' (GInt (of_nat (length Record))) (put ''data'' (GSlice Record) (Some [])))"

definition last_record :: "gval list \<Rightarrow> gval outcome" where
  "last_record Record = (if Record = [] then Panic IndexOutOfRange else Val (last Record))"

definition update_client_delete ::
    "'s environment \<Rightarrow> ProcessConfiguration \<Rightarrow> handle \<Rightarrow> gmap \<Rightarrow> ('s world, unit) proc" where
  "update_client_delete env processConfig conn inputDoc =
     with_valid env processConfig ''client_message'' ''delete'' inputDoc (\<lambda>inputDoc'.
     pbind (plift (action_cfg processConfig ''client_action'' ''delete'')) (\<lambda>(function_name, arguments).
     call_function env conn function_name arguments inputDoc' (\<lambda>dH.
       if 0 < sint (pFE_NumAffectedLastOp dH) then
         pbind (plift (last_record (pFE_Record dH))) (\<lambda>nx.
           reply env MakeDataResponse (data_doc (pFE_Record dH) nx))
       else reply env MakeNotFoundResponse (Some []))))"

definition UpdateClientHandler ::
    "'s environment \<Rightarrow> ProcessConfiguration \<Rightarrow> request \<Rightarrow> ('s world, unit) proc" where
  "UpdateClientHandler env processConfig r =
     with_input env r (\<lambda>inputDoc.
     with_connection env processConfig (\<lambda>conn.
       if Method r = ''GET'' then preturn ()
       else if Method r = ''POST'' then update_client_post env processConfig conn inputDoc
       else if Method r = ''PATCH'' then update_client_patch env processConfig conn inputDoc
       else if Method r = ''DELETE'' then update_client_delete env processConfig conn inputDoc
       else invalid_method env))"

section \<open>Finding clients\<close>

definition FindOneClientHandler ::
    "'s environment \<Rightarrow> ProcessConfiguration \<Rightarrow> request \<Rightarrow> ('s world, unit) proc" where
  "FindOneClientHandler env processConfig r =
     with_connection env processConfig (\<lambda>_.
       if Method r = ''GET'' then preturn () else invalid_method env)"

text \<open>The loop over \<open>table_configs\<close>: the definition of one table and the flag \<open>success\<close>.\<close>

fun table_def_loop :: "string \<Rightarrow> dict \<Rightarrow> gmap \<Rightarrow> bool \<Rightarrow> (gmap \<times> bool) outcome" where
  "table_def_loop table [] rv success = Val (rv, success)"
| "table_def_loop table ((k, v) # rest) rv success =
     (if k = table then
        (let rv1 = put ''table_name'' (GString k) rv in
         obind (as_map v) (\<lambda>t.
         case map_get t ''pk'' of
           None \<Rightarrow> table_def_loop table rest rv1 success
         | Some pk \<Rightarrow>
             obind (InterfaceToStringArray pk) (\<lambda>names.
               table_def_loop table rest (put ''pk'' (GStrings names) rv1) True)))
      else table_def_loop table rest rv success)"

definition GetClientTableDef :: "range_order \<Rightarrow> ProcessConfiguration \<Rightarrow> (gmap \<times> bool) outcome" where
  "GetClientTableDef ord processConfig =
     obind (as_map (map_index (Settings processConfig) ''table_configs'')) (\<lambda>configs.
       table_def_loop ''client'' (range_over ord ''GetClientTableDef'' configs) (Some []) False)"

text \<open>\<open>NewPostgresDataHandler\<close> and the answer to its error.\<close>

definition with_handler ::
    "'s environment \<Rightarrow> handle \<Rightarrow> gmap \<Rightarrow> (postgresDataHandler \<Rightarrow> ('s world, unit) proc)
      \<Rightarrow> ('s world, unit) proc" where
  "with_handler env conn tableDetails k =
     pbind (plift (NewPostgresDataHandler conn tableDetails)) (\<lambda>(pDH, dberr).
       case dberr of
         Some e \<Rightarrow> reply_error env MakeInternalErrorResponse e
       | None \<Rightarrow> k pDH)"

text \<open>The argument \<open>q\<close> of the query: the projection it asks for, or the text of the error.\<close>

definition query_projection :: "gmap \<Rightarrow> postgresDataHandler \<Rightarrow> postgresDataHandler outcome" where
  "query_projection args pDH = (case map_get args ''fields'' of
     None \<Rightarrow> Val pDH
   | Some fv \<Rightarrow>
       obind (kind_of fv) (\<lambda>k.
       obind (if k = KBool then as_bool fv else Val False) (\<lambda>everything.
       if everything then SetProjection [''*''] pDH
       else if k = KSlice then obind (InterfaceToStringArray fv) (\<lambda>l. SetProjection l pDH)
       else Val pDH)))"

definition with_query ::
    "'s environment \<Rightarrow> request \<Rightarrow> postgresDataHandler \<Rightarrow> (postgresDataHandler \<Rightarrow> ('s world, unit) proc)
      \<Rightarrow> ('s world, unit) proc" where
  "with_query env r pDH k =
     (let args_str = FormValue r ''q'' in
      if args_str \<noteq> [] then
        (case json_Unmarshal (env_ext env) args_str of
           Inl err \<Rightarrow> reply env MakeInvalidInputResponse
             (error_doc (''Could not parse json q= argument: '' @ Error (env_ext env) err))
         | Inr args \<Rightarrow> pbind (plift (query_projection args pDH)) k)
      else k pDH)"

text \<open>\<open>FindRecord\<close> and the answer to its error.\<close>

definition with_found ::
    "'s environment \<Rightarrow> postgresDataHandler \<Rightarrow> string list \<Rightarrow> (postgresDataHandler \<Rightarrow> ('s world, unit) proc)
      \<Rightarrow> ('s world, unit) proc" where
  "with_found env pDH args k =
     pbind (on_outside (FindRecord (env_db env) (env_ord env) pDH args)) (\<lambda>(err, pDH').
       case err of
         Some e \<Rightarrow> reply_error env MakeInternalErrorResponse e
       | None \<Rightarrow> k pDH')"

definition reply_found :: "'s environment \<Rightarrow> postgresDataHandler \<Rightarrow> ('s world, unit) proc" where
  "reply_found env pDH =
     (if 0 < sint (pDH_NumAffectedLastOp pDH) then
        reply env MakeDataResponse (data_doc (pDH_Record pDH) (GMap (pDH_RecordNextIdx pDH)))
      else reply env MakeNotFoundResponse (Some []))"

definition FindManyClientHandler ::
    "'s environment \<Rightarrow> ProcessConfiguration \<Rightarrow> request \<Rightarrow> ('s world, unit) proc" where
  "FindManyClientHandler env processConfig r =
     with_connection env processConfig (\<lambda>conn.
     pbind (plift (GetClientTableDef (env_ord env) processConfig)) (\<lambda>(clientTableDetails, success).
     with_handler env conn clientTableDetails (\<lambda>dbh.
       if Method r = ''GET'' then
         with_query env r dbh (\<lambda>dbh.
         let dbh = snd (SetFindCriteria (Some []) dbh) in
         with_found env dbh [''return_many'', ''reverse_sort''] (reply_found env))
       else invalid_method env)))"

end
