(* ===== verification/Content_Handlers.thy ===== *)
theory Content_Handlers
  imports Client_Handlers
begin

text \<open>
  Package apphandlers, the contents (\<open>apphandlers/content.go\<close>). Its handlers work on the table
  directly. Those for one content give \<open>NewPostgresDataHandler\<close> an empty table description, and
  check their input against the setting \<open>content_schema\<close>.
\<close>

definition GetContentTableDef :: "range_order \<Rightarrow> ProcessConfiguration \<Rightarrow> (gmap \<times> bool) outcome" where
  "GetContentTableDef ord processConfig =
     obind (as_map (map_index (Settings processConfig) ''table_configs'')) (\<lambda>configs.
       table_def_loop ''content'' (range_over ord ''GetContentTableDef'' configs) (Some []) False)"

section \<open>Creating a content\<close>

definition insert_content_get ::
    "'s environment \<Rightarrow> ProcessConfiguration \<Rightarrow> request \<Rightarrow> postgresDataHandler \<Rightarrow> ('s world, unit) proc" where
  "insert_content_get env processConfig r dbh =
     with_query env r dbh (\<lambda>dbh.
     with_valid env processConfig ''content_schema'' [] (Some []) (\<lambda>findCriteria.
     let dbh = snd (SetFindCriteria findCriteria dbh) in
     with_found env dbh [''return_many'', ''reverse_sort''] (reply_found env)))"

definition insert_content_post ::
    "'s environment \<Rightarrow> ProcessConfiguration \<Rightarrow> request \<Rightarrow> postgresDataHandler \<Rightarrow> ('s world, unit) proc" where
  "insert_content_post env processConfig r dbh =
     with_input env r (\<lambda>inputDoc.
     with_valid env processConfig ''content_schema'' ''insert'' inputDoc (\<lambda>inputDoc'.
     let args = [map_index inputDoc' ''name'', map_index inputDoc' ''url''] in
     pbind (on_outside (pDH_ExecuteProc (env_db env) dbh ''content_add'' args)) (\<lambda>(err, dbh').
     case err of
       Some e \<Rightarrow> reply_error env MakeInvalidInputResponse e
     | None \<Rightarrow>
         pbind (plift (first_record (pDH_Record dbh'))) (\<lambda>returnRec.
         pbind (plift (as_string (map_index returnRec ''content_add''))) (\<lambda>ident.
         pbind (write_answer (MakeCreatedReponse (''/v'' @ ApiVersion processConfig @ ''/content/'' @ ident))) (\<lambda>_.
           announce env processConfig ''content_create'' (GString ident)))))))"

definition InsertContentHandler ::
    "'s environment \<Rightarrow> ProcessConfiguration \<Rightarrow> request \<Rightarrow> ('s world, unit) proc" where
  "InsertContentHandler env processConfig r =
     with_connection env processConfig (\<lambda>conn.
     with_handler env conn (Some []) (\<lambda>dbh.
       if Method r = ''GET'' then insert_content_get env processConfig r dbh
       else if Method r = ''POST'' then insert_content_post env processConfig r dbh
       else invalid_method env))"

section \<open>Reading, changing and removing a content\<close>

definition update_content_get ::
    "'s environment \<Rightarrow> ProcessConfiguration \<Rightarrow> request \<Rightarrow> postgresDataHandler \<Rightarrow> ('s world, unit) proc" where
  "update_content_get env processConfig r dbh =
     with_query env r dbh (\<lambda>dbh.
     let ident = (case map_of (Vars r) ''id'' of Some s \<Rightarrow> s | None \<Rightarrow> []);
         findCriteria = put ''id'' (GString ident) (Some []) in
     with_valid env processConfig ''content_schema'' [] findCriteria (\<lambda>findCriteria'.
     let dbh = snd (SetFindCriteria findCriteria' dbh) in
     with_found env dbh [] (reply_found env)))"

definition reply_some :: "'s environment \<Rightarrow> 64 word \<Rightarrow> ('s world, unit) proc" where
  "reply_some env n =
     (if 0 < sint n then write_answer MakeNoContent else reply env MakeNotFoundResponse (Some []))"

text \<open>PATCH (action \<open>update\<close>) and POST (action \<open>replace\<close>) are the same but for the action.\<close>

definition update_content_change ::
    "'s environment \<Rightarrow> ProcessConfiguration \<Rightarrow> string \<Rightarrow> request \<Rightarrow> postgresDataHandler \<Rightarrow> ('s world, unit) proc" where
  "update_content_change env processConfig action r dbh =
     with_input env r (\<lambda>inputDoc.
     with_valid env processConfig ''content_schema'' action inputDoc (\<lambda>inputDoc'.
     let findCriteria = put ''id'' (map_index inputDoc' ''id'') (Some []);
         inputDoc'' = map_delete inputDoc' ''id'';
         dbh = snd (SetFindCriteria findCriteria dbh) in
     pbind (on_outside (UpdateRecord (env_db env) (env_ord env) dbh inputDoc'')) (\<lambda>(err, dbh').
     case err of
       Some e \<Rightarrow> reply_error env MakeInternalErrorResponse e
     | None \<Rightarrow> reply_some env (pDH_NumAffectedLastOp dbh'))))"

definition update_content_delete ::
    "'s environment \<Rightarrow> ProcessConfiguration \<Rightarrow> request \<Rightarrow> postgresDataHandler \<Rightarrow> ('s world, unit) proc" where
  "update_content_delete env processConfig r dbh =
     with_input env r (\<lambda>inputDoc.
     with_valid env processConfig ''content_schema'' ''delete'' inputDoc (\<lambda>inputDoc'.
     let findCriteria = put ''id'' (map_index inputDoc' ''id'') (Some []);
         dbh = snd (SetFindCriteria findCriteria dbh) in
     pbind (on_outside (DeleteRecord (env_db env) (env_ord env) dbh)) (\<lambda>(err, dbh').
     case err of
       Some e \<Rightarrow> reply_error env MakeInternalErrorResponse e
     | None \<Rightarrow>
         pbind (reply_some env (pDH_NumAffectedLastOp dbh')) (\<lambda>_.
         pbind (plift (as_string (map_index findCriteria ''id''))) (\<lambda>ident.
           announce env processConfig ''content_delete'' (GString ident))))))"

definition UpdateContentHandler ::
    "'s environment \<Rightarrow> ProcessConfiguration \<Rightarrow> request \<Rightarrow> ('s world, unit) proc" where
  "UpdateContentHandler env processConfig r =
     with_connection env processConfig (\<lambda>conn.
     with_handler env conn (Some []) (\<lambda>dbh.
       if Method r = ''GET'' then update_content_get env processConfig r dbh
       else if Method r = ''PATCH'' then update_content_change env processConfig ''update'' r dbh
       else if Method r = ''POST'' then update_content_change env processConfig ''replace'' r dbh
       else if Method r = ''DELETE'' then update_content_delete env processConfig r dbh
       else invalid_method env))"

section \<open>Listing the contents\<close>

definition FindManyContentHandler ::
    "'s environment \<Rightarrow> ProcessConfiguration \<Rightarrow> request \<Rightarrow> ('s world, unit) proc" where
  "FindManyContentHandler env processConfig r =
     with_connection env processConfig (\<lambda>conn.
     pbind (plift (GetContentTableDef (env_ord env) processConfig)) (\<lambda>(contentTableDetails, success).
     with_handler env conn contentTableDetails (\<lambda>dbh.
       let dbh = dbh\<lparr>pDH_EnforceBatch := False\<rparr> in
       if Method r = ''GET'' then
         let dbh = snd (SetFindCriteria (Some []) dbh) in
         with_found env dbh [''return_many'', ''reverse_sort''] (\<lambda>dbh.
           if 0 < sint (pDH_NumAffectedLastOp dbh) then
             (\<lambda>w. case MakeDataArrayResponse (env_ext env) (pDH_Record dbh) (writer w) of
                Val (err, rw) \<Rightarrow> (Val (), w\<lparr>writer := rw\<rparr>)
              | Panic p \<Rightarrow> (Panic p, w))
           else reply env MakeNotFoundResponse (Some []))
       else invalid_method env)))"

end
