(* ===== verification/Service.thy ===== *)
theory Service
  imports Content_Handlers
begin

text \<open>
  Package main (\<open>main.go\<close>): the start of the process, which reads and prepares the settings, and
  the table of routes. What the start takes from outside is the record \<open>startup\<close>: the result of
  the flag parser, the files with the JSON decoder, and the connection to the queue.
\<close>

section \<open>Start\<close>

record startup =
  flags_Parse :: "goerror + string option"           \<comment> \<open>\<open>opts.ConfigFile\<close>\<close>
  os_Open :: "string \<Rightarrow> goerror option"
  cfg_Decode :: "string \<Rightarrow> goerror + gmap"
  sarama_NewSyncProducer :: "string list \<Rightarrow> goerror option"

definition initial_config :: ProcessConfiguration where
  "initial_config = \<lparr>ApiVersion = ''1'', KafkaTopic = [], KafkaBrokers = [], Settings = None,
     DbCfg = \<lparr>hostname = [], username = [], password = [], port = 0, database_name = [], sslmode = []\<rparr>,
     KafkaProducer = False, DebugOutput = False,
     TimeFormat = ''2006-01-02T15:04:05.999999Z07:00''\<rparr>"

text \<open>\<open>InitSchema(settings[section].(map...))\<close>, which rewrites the section in place, and the panic on
  its error.\<close>

definition init_section :: "externals \<Rightarrow> range_order \<Rightarrow> string \<Rightarrow> gmap \<Rightarrow> gmap outcome" where
  "init_section ext ord sect settings =
     obind (as_map (map_index settings sect)) (\<lambda>schema.
     obind (InitSchema ord schema) (\<lambda>(err, schema').
     case err of
       Some e \<Rightarrow> Panic (Explicit (Error ext e))
     | None \<Rightarrow> map_store settings sect (GMap schema')))"

definition read_settings :: "externals \<Rightarrow> range_order \<Rightarrow> startup \<Rightarrow> gmap outcome" where
  "read_settings ext ord s = (case flags_Parse s of
     Inl err \<Rightarrow> Panic (Exit ''1'')
   | Inr None \<Rightarrow> Panic (Exit ''-c <config file> must be provided\<newline>'')
   | Inr (Some file) \<Rightarrow> (case os_Open s file of
       Some err \<Rightarrow> Panic (Exit (''Could not parse '' @ file @ '': '' @ Error ext err))
     | None \<Rightarrow> (case cfg_Decode s file of
         Inl err \<Rightarrow> Panic (Exit (''Could not parse json in '' @ file @ '': '' @ Error ext err))
       | Inr settings \<Rightarrow>
           obind (init_section ext ord ''client_message'' settings)
             (init_section ext ord ''content_message''))))"

definition init_queue :: "externals \<Rightarrow> startup \<Rightarrow> gmap \<Rightarrow> ProcessConfiguration \<Rightarrow> ProcessConfiguration outcome" where
  "init_queue ext s settings processConfig = (case map_index settings ''pageview_connection'' of
     GMap pvc \<Rightarrow>
       obind (InterfaceToStringArray (map_index pvc ''brokers'')) (\<lambda>brokers.
       let cfg1 = processConfig\<lparr>KafkaBrokers := brokers\<rparr> in
       case sarama_NewSyncProducer s brokers of
         Some err \<Rightarrow> Panic (Explicit (Error ext err))
       | None \<Rightarrow>
           let cfg2 = cfg1\<lparr>KafkaProducer := True\<rparr> in
           (case map_get pvc ''topic'' of
              None \<Rightarrow> Panic (Explicit (''Could not find 'topic' for pageview_connection''))
            | Some qT \<Rightarrow> obind (as_string qT) (\<lambda>topic. Val (cfg2\<lparr>KafkaTopic := topic\<rparr>))))
   | _ \<Rightarrow> Val processConfig)"

definition init_database ::
    "(rat \<Rightarrow> 16 word) \<Rightarrow> range_order \<Rightarrow> gmap \<Rightarrow> ProcessConfiguration \<Rightarrow> ProcessConfiguration outcome" where
  "init_database conv ord settings processConfig = (case map_index settings ''content_connection'' of
     GMap dbc \<Rightarrow> obind (NewPostgresCfg conv ord dbc) (\<lambda>c. Val (processConfig\<lparr>DbCfg := c\<rparr>))
   | _ \<Rightarrow> Val processConfig)"

definition init_logging :: "gmap \<Rightarrow> ProcessConfiguration \<Rightarrow> ProcessConfiguration outcome" where
  "init_logging settings processConfig = (case map_get settings ''logging_level'' of
     None \<Rightarrow> Val processConfig
   | Some dbg \<Rightarrow> obind (as_string dbg) (\<lambda>level.
       Val (if level = ''debug'' then processConfig\<lparr>DebugOutput := True\<rparr> else processConfig)))"

definition init_process ::
    "externals \<Rightarrow> (rat \<Rightarrow> 16 word) \<Rightarrow> range_order \<Rightarrow> startup \<Rightarrow> ProcessConfiguration outcome" where
  "init_process ext conv ord s =
     obind (read_settings ext ord s) (\<lambda>settings.
     obind (init_queue ext s settings (initial_config\<lparr>Settings := settings\<rparr>)) (\<lambda>cfg1.
     obind (init_database conv ord settings cfg1) (\<lambda>cfg2.
       init_logging settings cfg2)))"

section \<open>Routes\<close>

datatype handlerFunction =
    RInsertClient | RUpdateClient | RFindOneClient | RFindManyClient
  | RInsertContent | RUpdateContent | RFindManyContent | RProcessPageview

definition run_handler ::
    "handlerFunction \<Rightarrow> 's environment \<Rightarrow> ProcessConfiguration \<Rightarrow> request \<Rightarrow> ('s world, unit) proc" where
  "run_handler h = (case h of
     RInsertClient \<Rightarrow> InsertClientHandler
   | RUpdateClient \<Rightarrow> UpdateClientHandler
   | RFindOneClient \<Rightarrow> FindOneClientHandler
   | RFindManyClient \<Rightarrow> FindManyClientHandler
   | RInsertContent \<Rightarrow> InsertContentHandler
   | RUpdateContent \<Rightarrow> UpdateContentHandler
   | RFindManyContent \<Rightarrow> FindManyContentHandler
   | RProcessPageview \<Rightarrow> ProcessPageviewHandler)"

definition id_pattern :: string where
  "id_pattern = ''{id:[a-f0-9]{8}-[a-f0-9]{4}-[a-f0-9]{4}-[a-f0-9]{4}-[a-f0-9]{12}}''"

text \<open>The path patterns, in the order they are registered; the router tries them in that order.\<close>

definition routes :: "ProcessConfiguration \<Rightarrow> (string \<times> handlerFunction) list" where
  "routes processConfig =
     (let api = ''/v'' @ ApiVersion processConfig;
          client = api @ ''/client''; content = api @ ''/content''; pageview = api @ ''/pageview'' in
      [(client @ ''/maintain'', RInsertClient),
       (client @ ''/maintain/'' @ id_pattern, RUpdateClient),
       (client @ ''/read/find/'' @ id_pattern, RFindOneClient),
       (client @ ''/read/list'', RFindManyClient),
       (content @ ''/maintain'', RInsertContent),
       (content @ ''/maintain/'' @ id_pattern, RUpdateContent),
       (content @ ''/read/list'', RFindManyContent),
       (pageview @ ''/content/'' @ id_pattern, RProcessPageview)])"

section \<open>The shipped configuration\<close>

text \<open>The sections of \<open>pageviewcount_service.json\<close> the handlers use, as the JSON decoder yields them.\<close>

definition uuid_field :: gval where
  "uuid_field = GMap (Some [(''type'', GString ''string''), (''additional_validation'', GString ''UUID'')])"

definition length_field :: "gval list \<Rightarrow> gval" where
  "length_field spec = GMap (Some [(''type'', GString ''string''),
     (''additional_validation'', GMap (Some [(''length'', GSlice spec)]))])"

definition required :: "string list \<Rightarrow> gval" where
  "required fs = GMap (Some [(''fields'', GSlice (map GString fs))])"

definition client_message :: gmap where
  "client_message = Some
    [(''legend'', GMap (Some
       [(''id'', uuid_field), (''name'', length_field [GFloat 1, GString ''max''])])),
     (''required_fields'', GMap (Some
       [(''default'', GMap (Some [])), (''initial'', GMap (Some [])), (''all'', GMap (Some [])),
        (''insert'', required [''name'']), (''delete'', required [''id'']),
        (''replace'', required [''id'', ''name'']), (''update'', required [''id'', ''name''])]))]"

definition content_message :: gmap where
  "content_message = Some
    [(''legend'', GMap (Some
       [(''id'', uuid_field), (''client_id'', uuid_field),
        (''name'', length_field [GFloat 1, GString ''max'']), (''url'', length_field [GFloat 1, GFloat 255])])),
     (''required_fields'', GMap (Some
       [(''default'', GMap (Some [])), (''initial'', GMap (Some [])), (''all'', GMap (Some [])),
        (''insert'', required [''client_id'', ''name'', ''url'']), (''delete'', required [''id'']),
        (''replace'', required [''id'', ''client_id'', ''name'', ''url'']),
        (''update'', GMap (Some [(''fields'', GSlice [GString ''id'']), (''require_an_optional'', GBool True)]))]))]"

definition action_entry :: "string \<Rightarrow> string list \<Rightarrow> gval" where
  "action_entry f args = GMap (Some [(''function'', GString f), (''arguments'', GSlice (map GString args))])"

definition shipped_settings :: gmap where
  "shipped_settings = Some
    [(''logging_level'', GString ''debug''),
     (''pageview_connection'', GMap (Some
        [(''brokers'', GSlice [GString ''kafkaserver01:9092'']), (''topic'', GString ''pageview'')])),
     (''content_connection'', GMap (Some
        [(''type'', GString ''static''), (''hostname'', GString ''database01''), (''ssl'', GBool False),
         (''port'', GFloat 5432), (''username'', GString ''pageview''), (''password'', GString ''password''),
         (''database'', GString ''pageview'')])),
     (''table_configs'', GMap (Some
        [(''client'', GMap (Some [(''pk'', GSlice [GString ''id''])])),
         (''content'', GMap (Some [(''pk'', GSlice [GString ''id''])]))])),
     (''client_action'', GMap (Some
        [(''find'', action_entry ''find_client'' [''id'']), (''findall'', GMap (Some [])),
         (''insert'', action_entry ''create_client'' [''name'']),
         (''update'', action_entry ''update_client'' [''id'', ''name'']),
         (''delete'', action_entry ''delete_client'' [''id''])])),
     (''content_action'', GMap (Some
        [(''find'', action_entry ''find_content'' [''client_id'', ''content_id'']),
         (''insert'', action_entry ''create_content'' [''name'']),
         (''update'', action_entry ''update_content'' [''id'', ''name'']),
         (''delete'', action_entry ''delete_content'' [''id''])])),
     (''client_message'', GMap client_message),
     (''content_message'', GMap content_message)]"

end
