(* ===== verification/Samples.thy ===== *)
theory Samples
  imports Service
begin

text \<open>
  Concrete instances of the parameters of the model, on which the properties are shown to apply: an
  external codec, a prepared schema, a database that records every statement it is sent, a queue
  that records every message, and requests.
\<close>

section \<open>Documents\<close>

definition sample_ext :: externals where
  "sample_ext = \<lparr>
     uuid_FromString = (\<lambda>s. if length s = 36 then Inr (replicate 16 0)
                            else Inl (ForeignError ''uuid: incorrect UUID length'')),
     strconv_Quote = (\<lambda>s. CHR 0x22 # s @ [CHR 0x22]),
     json_Marshal = (\<lambda>_. Inr ''{}''),
     json_Unmarshal = (\<lambda>s. if s = ''null'' then Inr None else Inr (Some [(''name'', GString s)])),
     time_Now_Format = (\<lambda>layout. layout)\<rparr>"

lemma sample_ext_simps [simp]:
  "json_Marshal sample_ext v = Inr ''{}''"
  "json_Unmarshal sample_ext s = (if s = ''null'' then Inr None else Inr (Some [(''name'', GString s)]))"
  "uuid_FromString sample_ext s = (if length s = 36 then Inr (replicate 16 0)
     else Inl (ForeignError ''uuid: incorrect UUID length''))"
  by (simp_all add: sample_ext_def)

definition sample_ord :: range_order where
  "sample_ord = (\<lambda>_ d. d)"

lemma range_sample [simp]: "range_over sample_ord site m = entries m"
  by (simp add: sample_ord_def)

definition settings_of :: "string list \<Rightarrow> bool \<Rightarrow> gval" where
  "settings_of fs b = GMap (Some [(''fields'', GStrings fs), (''require_an_optional'', GBool b)])"

text \<open>A schema as the preparation leaves it: an identifier, a name and a number.\<close>

definition name_field :: gmap where
  "name_field = Some [(''type'', GKind KString),
     (''additional_validation'', GMap (Some [(''length'', GSlice [GFloat 1, GString ''max''])]))]"

definition number_field :: gmap where
  "number_field = Some [(''type'', GKind KInt64)]"

definition sample_legend :: gmap where
  "sample_legend = Some [(''name'', GMap name_field), (''number'', GMap number_field)]"

definition sample_schema :: gmap where
  "sample_schema = Some [(''legend'', GMap sample_legend),
     (''required_fields'', GMap (Some
        [(''default'', settings_of [] False), (''insert'', settings_of [''name''] False),
         (''update'', settings_of [''name''] False)]))]"

definition sample_input :: gmap where
  "sample_input = Some [(''name'', GString ''abc''), (''unknown'', GBool True)]"

definition sample_output :: gmap where
  "sample_output = Some [(''name'', GString ''abc'')]"

lemma map_index_Some: "map_index (Some d) k = (case map_of d k of None \<Rightarrow> GNil | Some v \<Rightarrow> v)"
  by (simp add: map_index_def)

lemma sample_legend_get:
  "map_index sample_legend k =
     (if k = ''name'' then GMap name_field else if k = ''number'' then GMap number_field else GNil)"
  by (simp add: map_index_def sample_legend_def)

lemma sample_schema_get:
  "map_index sample_schema ''legend'' = GMap sample_legend"
  "map_index sample_schema ''required_fields'' = GMap (Some
        [(''default'', settings_of [] False), (''insert'', settings_of [''name''] False),
         (''update'', settings_of [''name''] False)])"
  by (simp_all add: map_index_def sample_schema_def)

lemma name_field_string:
  "s \<noteq> [] \<Longrightarrow> validate_field sample_ext ord action k (GString s) name_field = Val (None, Some (GString s))"
  by (cases s) (simp_all add: validate_field.simps name_field_def null_ok_def check_string_def check_enum_def
      check_length_def check_bounds_def map_index_def Let_def)

lemma sample_accepts:
  "ValidateWithSchema sample_ext sample_ord sample_input sample_schema ''insert'' = Val (None, sample_output)"
  by (simp add: ValidateWithSchema.simps ValidateWithLegend.simps sample_schema_get sample_legend_get
      settings_of_def map_index_Some sample_input_def sample_output_def name_field_string)

lemma sample_refuses:
  "ValidateWithSchema sample_ext sample_ord (Some []) sample_schema ''insert'' =
     Val (Some (ErrorString ''Field name is a required field''), Some [])"
  by (simp add: ValidateWithSchema.simps sample_schema_get settings_of_def map_index_Some)

lemma sample_input_wf: "wf_val (GMap sample_input)"
  by (simp add: sample_input_def)

section \<open>The outside world\<close>

text \<open>A world is the list of what was sent: statements with their arguments, topics with messages.\<close>

type_synonym log = "(string \<times> gval list) list"

definition sample_db :: "string list \<Rightarrow> gval list list \<Rightarrow> log database" where
  "sample_db cols rows = \<lparr>
     sql_Open = (\<lambda>drv name s. (None, s)),
     db_Query = (\<lambda>h stmt args s. (Inr \<lparr>rs_columns = cols, rs_rows = rows, rs_err = None\<rparr>, s @ [(stmt, args)])),
     db_Exec = (\<lambda>h stmt args s. (Inr (1, None), s @ [(stmt, args)]))\<rparr>"

definition sample_rows :: "string list \<Rightarrow> gval list list \<Rightarrow> result_set" where
  "sample_rows cols rows = \<lparr>rs_columns = cols, rs_rows = rows, rs_err = None\<rparr>"

lemma sample_db_simps [simp]:
  "sql_Open (sample_db cols rows) drv name s = (None, s)"
  "db_Query (sample_db cols rows) h stmt args s = (Inr (sample_rows cols rows), s @ [(stmt, args)])"
  "db_Exec (sample_db cols rows) h stmt args s = (Inr (1, None), s @ [(stmt, args)])"
  "rs_columns (sample_rows cols rows) = cols" "rs_rows (sample_rows cols rows) = rows"
  by (simp_all add: sample_db_def sample_rows_def)

definition sample_env :: "string list \<Rightarrow> gval list list \<Rightarrow> log environment" where
  "sample_env cols rows = \<lparr>env_db = sample_db cols rows,
     env_SendMessage = (\<lambda>topic m s. (None, s @ [(topic, [GString m])])),
     env_ext = sample_ext, env_ord = sample_ord\<rparr>"

lemma sample_env_simps [simp]:
  "env_db (sample_env cols rows) = sample_db cols rows"
  "env_SendMessage (sample_env cols rows) topic m s = (None, s @ [(topic, [GString m])])"
  "env_ext (sample_env cols rows) = sample_ext" "env_ord (sample_env cols rows) = sample_ord"
  by (simp_all add: sample_env_def)

definition sample_cfg :: ProcessConfiguration where
  "sample_cfg = initial_config\<lparr>Settings := Some
      [(''client_message'', GMap sample_schema),
       (''client_action'', GMap (Some
          [(''insert'', action_entry ''create_client'' [''name'']),
           (''update'', action_entry ''update_client'' [''name'']),
           (''delete'', action_entry ''delete_client'' [''name''])])),
       (''table_configs'', GMap (Some [(''client'', GMap (Some [(''pk'', GSlice [GString ''id''])]))]))],
     KafkaProducer := True, KafkaTopic := ''pageview''\<rparr>"

lemma sample_cfg_simps [simp]:
  "KafkaProducer sample_cfg" "KafkaTopic sample_cfg = ''pageview''" "ApiVersion sample_cfg = ''1''"
  by (simp_all add: sample_cfg_def initial_config_def)

definition sample_request :: "string \<Rightarrow> string \<Rightarrow> (string \<times> string) list \<Rightarrow> request" where
  "sample_request m b vs = \<lparr>Method = m, Body = Inr b, Vars = vs, FormValue = (\<lambda>_. [])\<rparr>"

lemma sample_request_simps [simp]:
  "Method (sample_request m b vs) = m" "Body (sample_request m b vs) = Inr b"
  "Vars (sample_request m b vs) = vs" "FormValue (sample_request m b vs) q = []"
  by (simp_all add: sample_request_def)

definition sample_world :: "log world" where
  "sample_world = \<lparr>outside = [], writer = fresh_writer\<rparr>"

lemma sample_world_simps [simp]:
  "outside sample_world = []" "rw_status (writer sample_world) = None" "rw_body (writer sample_world) = []"
  by (simp_all add: sample_world_def fresh_writer_def)

text \<open>A handler of the table \<open>client\<close> on the client \<open>c1\<close>, with pages of two rows.\<close>

definition sample_pool :: sql_db where
  "sample_pool = \<lparr>dsn = ''postgres://localhost'', max_idle = 50, max_open = 200\<rparr>"

definition sample_pDH :: postgresDataHandler where
  "sample_pDH = zero_pDH\<lparr>pDH_dbh := Some sample_pool, pDH_tableName := ''client'', pDH_batchSize := 2,
     pDH_EnforceBatch := True, pDH_projection := Some [(''id'', GNil)],
     pDH_searchCriteria := Some [(''id'', GString ''c1'')], pDH_sortDirection := ''desc'',
     pDH_primaryKey := [''id'']\<rparr>"

lemma sample_pDH_simps [simp]:
  "pDH_dbh sample_pDH = Some sample_pool" "pDH_dmlType sample_pDH = []" "pDH_primaryKey sample_pDH = [''id'']"
  "pDH_searchCriteria sample_pDH = Some [(''id'', GString ''c1'')]" "pDH_EnforceBatch sample_pDH"
  "pDH_batchSize sample_pDH = 2" "pDH_Record sample_pDH = []" "pDH_RecordNextIdx sample_pDH = None"
  "pDH_dmlArguments sample_pDH = []" "pDH_tableName sample_pDH = ''client''"
  "pDH_projection sample_pDH = Some [(''id'', GNil)]" "pDH_sortDirection sample_pDH = ''desc''"
  by (simp_all add: sample_pDH_def zero_pDH_def)

end
