(* ===== verification/Dal_Correct.thy ===== *)
theory Dal_Correct
  imports Dal_Executor Dal_Handler
begin

text \<open>
  What package dal_postgresql promises: the statement an operation sends has one placeholder for
  each argument, in the same order (the interpretations of \<open>numbering\<close>); no record is changed
  or deleted without its whole primary key; a page of results is the first \<open>batchSize\<close> rows.
\<close>

section \<open>The numbering loops\<close>

definition is_slice :: "gval \<Rightarrow> bool" where
  "is_slice v \<longleftrightarrow> kind_of v = Val KSlice"

definition equality :: "string \<times> gval \<Rightarrow> string \<Rightarrow> string" where
  "equality e p = fst e @ ''='' @ p"

definition plain :: "string \<times> gval \<Rightarrow> bool" where
  "plain e \<longleftrightarrow> \<not> is_slice (snd e)"

lemma plain_pair [simp]: "plain (k, v) \<longleftrightarrow> \<not> is_slice v"
  by (simp add: plain_def)

interpretation criteria: numbering find_criteria plain equality snd
  by unfold_locales (auto simp: obind_eq_Val is_slice_def plain_def equality_def split: if_splits)

interpretation eqs: numbering equalities plain equality snd
  by unfold_locales (auto simp: obind_eq_Val is_slice_def plain_def equality_def split: if_splits)

interpretation procs: numbering proc_arguments "\<lambda>_. True" "\<lambda>_ p. p" "\<lambda>v. v"
  by unfold_locales auto

lemma insert_columns_append:
  "insert_columns es c fs vals ph =
     (case insert_columns es c [] [] [] of (fs', vals', ph') \<Rightarrow> (fs @ fs', vals @ vals', ph @ ph'))"
proof (induction es arbitrary: c fs vals ph)
  case (Cons e es)
  obtain k v where e: "e = (k, v)" by (cases e)
  obtain a b d where r: "insert_columns es (c + 1) [] [] [] = (a, b, d)" by (metis prod_cases3)
  show ?case
    unfolding e insert_columns.simps
    by (subst Cons.IH, subst (2) Cons.IH) (simp add: r)
qed simp

interpretation columns: numbering
  "\<lambda>es c ph args. case insert_columns es c [] args ph of (_, vals, ph') \<Rightarrow> Val (c + of_nat (length es), ph', vals)"
  "\<lambda>_. True" "\<lambda>_ p. p" snd
proof (unfold_locales, goal_cases)
  case (2 x xs c ph args r)
  obtain k v where x: "x = (k, v)" by (cases x)
  obtain a b d where i: "insert_columns xs (c + 1) [] [] [] = (a, b, d)" by (metis prod_cases3)
  from 2 show ?case
    unfolding x insert_columns.simps fst_conv snd_conv
    by (subst insert_columns_append, subst (asm) insert_columns_append) (auto simp: i add.assoc)
qed simp_all

lemma insert_columns_Val:
  "insert_columns es 1 [] [] [] = (map fst es, map snd es, numbered (\<lambda>_ p. p) 1 es)"
proof -
  obtain fs vals ph where i: "insert_columns es 1 [] [] [] = (fs, vals, ph)" by (metis prod_cases3)
  have "fst (insert_columns es c fs vals ph) = fs @ map fst es" for c fs vals ph
    by (induction es arbitrary: c fs vals ph) auto
  from this [of 1 "[]" "[]" "[]"] columns.loop_Val [where xs = es and pc = 1 and ph = "[]" and args = "[]"] i show ?thesis by simp
qed

text \<open>The loops panic on a nil value only, before anything is sent.\<close>

lemma equalities_total:
  "\<forall>e \<in> set es. snd e \<noteq> GNil \<Longrightarrow> \<exists>r. equalities es pc ph args = Val r"
proof (induction es arbitrary: pc ph args)
  case (Cons e es)
  then obtain k v where e: "e = (k, v)" and "v \<noteq> GNil" by (cases e) auto
  then obtain kd where "kind_of v = Val kd" by (cases v) auto
  with Cons show ?case by (simp add: e)
qed simp

lemma equalities_nil:
  "\<exists>e \<in> set es. snd e = GNil \<Longrightarrow> equalities es pc ph args = Panic NilDereference"
proof (induction es arbitrary: pc ph args)
  case (Cons e es)
  obtain k v where e: "e = (k, v)" by (cases e)
  show ?case
  proof (cases "v = GNil")
    case False
    then obtain kd where "kind_of v = Val kd" by (cases v) auto
    with Cons False show ?thesis by (auto simp: e)
  qed (simp add: e)
qed simp

lemma equalities_Val:
  assumes "\<forall>e \<in> set es. snd e \<noteq> GNil"
  shows "equalities es pc ph args = Val (pc + of_nat (length (filter plain es)),
    ph @ numbered equality pc (filter plain es), args @ map snd (filter plain es))"
  using equalities_total [OF assms] eqs.loop_Val by metis

section \<open>Primary keys\<close>

lemma checkPrimaryKey_None:
  "checkPrimaryKey ord pDH = None \<longleftrightarrow>
     (\<forall>f \<in> set (pDH_primaryKey pDH). map_get (pDH_searchCriteria pDH) f \<noteq> None)"
proof -
  have "list_ex (\<lambda>(scf, _). f = scf) es \<longleftrightarrow> f \<in> fst ` set es" for f and es :: dict
    by (induction es) auto
  then show ?thesis
    unfolding checkPrimaryKey_def list_all_iff map_get_key by simp
qed

lemma SetFindCriteria_ok:
  "fst (SetFindCriteria findKeys pDH) = None \<longleftrightarrow> (\<forall>f \<in> set (pDH_primaryKey pDH). map_get findKeys f \<noteq> None)"
  by (auto simp: SetFindCriteria_def find_None_iff find_Some_iff split: option.split)

section \<open>Updating and deleting\<close>

text \<open>The equalities of a criteria map, in the order Go visits it.\<close>

definition equalities_of :: "range_order \<Rightarrow> string \<Rightarrow> gmap \<Rightarrow> dict" where
  "equalities_of ord site m = filter plain (range_over ord site m)"

lemma equalities_of_mset: "mset (equalities_of ord site m) = filter_mset plain (mset (entries m))"
  by (simp add: equalities_of_def)

lemma equalities_of_mem: "(k, v) \<in> set (equalities_of ord site m) \<longleftrightarrow> (k, v) \<in> set (entries m) \<and> \<not> is_slice v"
  by (auto simp: equalities_of_def)

definition dml_result ::
    "goerror + 64 word \<times> goerror option \<Rightarrow> postgresDataHandler \<Rightarrow> goerror option \<times> postgresDataHandler" where
  "dml_result res pDH = (case res of
     Inl err \<Rightarrow> (Some err, pDH) | Inr (n, err) \<Rightarrow> (err, pDH\<lparr>pDH_NumAffectedLastOp := n\<rparr>))"

lemma run_dml_runs:
  "pDH_dbh pDH = Some h \<Longrightarrow> run_dml db pDH w =
     (case db_Exec db h (pDH_dmlStatement pDH) (pDH_dmlArguments pDH) w of
        (res, w') \<Rightarrow> (Val (dml_result res pDH), w'))"
  by (simp add: run_dml_def Exec_def pbind_apply dml_result_def split: prod.split sum.split)

definition delete_text :: "string \<Rightarrow> dict \<Rightarrow> string" where
  "delete_text table es = ''delete from '' @ table @ ''\<newline>where\<newline>    '' @
     join ''\<newline>and '' (numbered equality 1 es)"


text \<open>What \<open>DeleteRecord\<close> does to any handler: the new arguments follow those it already has.\<close>

lemma DeleteRecord_runs:
  assumes "pDH_dbh pDH = Some h" and "checkPrimaryKey ord pDH = None"
    and "\<forall>e \<in> set (entries (pDH_searchCriteria pDH)). snd e \<noteq> GNil"
  shows "let es = equalities_of ord ''DeleteRecord.searchCriteria'' (pDH_searchCriteria pDH);
             pDH' = pDH\<lparr>pDH_dmlArguments := pDH_dmlArguments pDH @ map snd es,
                        pDH_dmlStatement := delete_text (pDH_tableName pDH) es\<rparr>;
             (res, w') = db_Exec db h (pDH_dmlStatement pDH') (pDH_dmlArguments pDH') w
         in DeleteRecord db ord pDH w = (Val (dml_result res pDH'), w')"
  using assms
  by (auto simp: DeleteRecord_def equalities_Val equalities_of_def [symmetric] run_dml_runs Let_def
      delete_text_def split: prod.split)

text \<open>
  C11. DeleteRecord with its whole primary key, on a handler without old arguments, sends
  one statement: its where clause has one equality for each criterion that is not a slice,
  its n-th placeholder stands for the n-th argument, which is the value of the n-th of these
  criteria, and the value of every plain key field is among them; the result of the
  statement is recorded.
\<close>

theorem delete_sends:
  assumes "pDH_dbh pDH = Some h" and "checkPrimaryKey ord pDH = None" and "pDH_dmlArguments pDH = []"
    and "\<forall>e \<in> set (entries (pDH_searchCriteria pDH)). snd e \<noteq> GNil"
  shows "let es = equalities_of ord ''DeleteRecord.searchCriteria'' (pDH_searchCriteria pDH);
             pDH' = pDH\<lparr>pDH_dmlArguments := map snd es,
                        pDH_dmlStatement := delete_text (pDH_tableName pDH) es\<rparr>;
             (res, w') = db_Exec db h (delete_text (pDH_tableName pDH) es) (map snd es) w
         in DeleteRecord db ord pDH w = (Val (dml_result res pDH'), w') \<and>
            mset es = filter_mset plain (mset (entries (pDH_searchCriteria pDH))) \<and>
            (\<forall>f \<in> set (pDH_primaryKey pDH). \<forall>v. map_get (pDH_searchCriteria pDH) f = Some v \<longrightarrow>
               \<not> is_slice v \<longrightarrow> (f, v) \<in> set es)"
  using DeleteRecord_runs [OF assms(1,2,4), of db w] assms(3)
  by (auto simp: Let_def equalities_of_mset equalities_of_mem map_get_def dest: map_of_SomeD split: prod.split)


text \<open>
  C20. Without every field of the primary key in the criteria neither DeleteRecord nor
  UpdateRecord reaches the database.
\<close>

theorem keyless_refused:
  assumes "f \<in> set (pDH_primaryKey pDH)" and "map_get (pDH_searchCriteria pDH) f = None"
  shows "DeleteRecord db ord pDH w =
           (Val (Some (ErrorString ''All parts of the primary key must be provided''), pDH), w) \<and>
         UpdateRecord db ord pDH replacement w =
           (Val (Some (ErrorString ''All parts of the primary key must be provided''), pDH), w)"
proof -
  have "checkPrimaryKey ord pDH = Some (ErrorString ''All parts of the primary key must be provided'')"
    using assms checkPrimaryKey_None [of ord pDH] by (auto simp: checkPrimaryKey_def split: if_splits)
  then show ?thesis by (simp add: DeleteRecord_def UpdateRecord_def)
qed

section \<open>Finding\<close>

text \<open>The handler that \<open>FindRecord\<close> queries with, given the criteria in the order Go visits them.\<close>

definition find_query :: "range_order \<Rightarrow> postgresDataHandler \<Rightarrow> string list \<Rightarrow> dict \<Rightarrow> postgresDataHandler" where
  "find_query ord pDH args es =
     (let pDH1 = pDH\<lparr>pDH_sortDirection := snd (find_flags args False (pDH_sortDirection pDH))\<rparr> in
      pDH1\<lparr>pDH_dmlArguments := pDH_dmlArguments pDH @ map snd es,
           pDH_dmlStatement := find_statement pDH1
             (map fst (range_over ord ''FindRecord.projection'' (pDH_projection pDH)))
             (numbered equality 1 es)\<rparr>)"

text \<open>A criterion that the loop passes: no null, and no slice that its branch panics on.\<close>

definition passable :: "string \<times> gval \<Rightarrow> bool" where
  "passable e \<longleftrightarrow> snd e \<noteq> GNil \<and> (is_slice (snd e) \<longrightarrow> slice_criterion (snd e) = Val ())"

lemma find_criteria_total:
  assumes "\<forall>e \<in> set es. passable e"
  shows "find_criteria es pc ph args = Val (pc + of_nat (length (filter plain es)),
    ph @ numbered equality pc (filter plain es), args @ map snd (filter plain es))"
proof -
  have "\<exists>r. find_criteria es pc ph args = Val r"
    using assms
  proof (induction es arbitrary: pc ph args)
    case (Cons e es)
    obtain k v where e: "e = (k, v)" by (cases e)
    then have "v \<noteq> GNil" and slice: "is_slice v \<longrightarrow> slice_criterion v = Val ()"
      using Cons.prems by (simp_all add: passable_def)
    then obtain kd where "kind_of v = Val kd" by (cases v) auto
    with slice Cons show ?case by (simp add: e is_slice_def)
  qed simp
  then show ?thesis using criteria.loop_Val by metis
qed

definition find_result ::
    "goerror + result_set \<Rightarrow> postgresDataHandler \<Rightarrow> goerror option \<times> postgresDataHandler" where
  "find_result r pDH = (case r of Inl e \<Rightarrow> (Some e, pDH) | Inr rows \<Rightarrow> (None, read_found rows pDH))"

lemma find_placeholders_sort [simp]:
  "find_placeholders ord (pDH\<lparr>pDH_sortDirection := d\<rparr>) = find_placeholders ord pDH"
  by (simp add: find_placeholders_def)

lemma FindRecord_runs:
  assumes "pDH_dbh pDH = Some h" and "pDH_dmlType pDH = []"
    and "find_flags args False (pDH_sortDirection pDH) = (return_many, d)"
    and "return_many \<or> checkPrimaryKey ord (pDH\<lparr>pDH_sortDirection := d\<rparr>) = None"
    and "find_placeholders ord pDH = Val (pc, ph, dargs)"
  shows "let pDH' = pDH\<lparr>pDH_sortDirection := d, pDH_dmlArguments := dargs,
            pDH_dmlStatement := find_statement (pDH\<lparr>pDH_sortDirection := d\<rparr>)
              (map fst (range_over ord ''FindRecord.projection'' (pDH_projection pDH))) ph\<rparr>;
            q = db_Query db h (pDH_dmlStatement pDH') dargs w
         in FindRecord db ord pDH args w = (Val (find_result (fst q) pDH'), snd q)"
proof -
  have "(if \<not> return_many then checkPrimaryKey ord (pDH\<lparr>pDH_sortDirection := d\<rparr>) else None) = None"
    using assms(4) by auto
  then show ?thesis
    using assms(1-3,5)
    by (simp add: FindRecord_def Let_def pbind_apply Query_def find_result_def split: sum.split)
qed

lemma FindRecord_query:
  assumes "pDH_dbh pDH = Some h" and "pDH_dmlType pDH = []"
    and "''return_many'' \<in> set args \<or> checkPrimaryKey ord pDH = None"
    and "\<forall>e \<in> set (entries (pDH_searchCriteria pDH)). passable e"
  shows "let pDH' = find_query ord pDH args (equalities_of ord ''FindRecord.searchCriteria'' (pDH_searchCriteria pDH));
             q = db_Query db h (pDH_dmlStatement pDH') (pDH_dmlArguments pDH') w
         in FindRecord db ord pDH args w = (Val (find_result (fst q) pDH'), snd q)"
proof -
  let ?es = "range_over ord ''FindRecord.searchCriteria'' (pDH_searchCriteria pDH)"
  obtain rm d where f: "find_flags args False (pDH_sortDirection pDH) = (rm, d)"
    by (cases "find_flags args False (pDH_sortDirection pDH)")
  have flag: "fst (find_flags args b d) = (b \<or> ''return_many'' \<in> set args)" for b d
    by (induction args b d rule: find_flags.induct) auto
  then have "rm = (''return_many'' \<in> set args)" using f by (metis fst_conv)
  moreover have "checkPrimaryKey ord (pDH\<lparr>pDH_sortDirection := d\<rparr>) = checkPrimaryKey ord pDH"
    by (simp add: checkPrimaryKey_def)
  ultimately have pk: "rm \<or> checkPrimaryKey ord (pDH\<lparr>pDH_sortDirection := d\<rparr>) = None"
    using assms(3) by simp
  have "length ?es = map_len (pDH_searchCriteria pDH)" by (simp add: map_len_def)
  then have empty: "?es = []" if "\<not> 0 < map_len (pDH_searchCriteria pDH)"
    using that by (metis length_0_conv neq0_conv)
  have crit: "find_placeholders ord pDH =
      Val (1 + of_nat (length (filter plain ?es)), numbered equality 1 (filter plain ?es),
        pDH_dmlArguments pDH @ map snd (filter plain ?es))"
    using find_criteria_total [of ?es 1 "[]" "pDH_dmlArguments pDH"] assms(4) empty
    by (auto simp: find_placeholders_def)
  show ?thesis
    using FindRecord_runs [OF assms(1,2) f pk crit, of db w] f
    by (simp add: find_query_def equalities_of_def Let_def)
qed

lemma find_query_keeps [simp]:
  "pDH_dbh (find_query ord pDH args es) = pDH_dbh pDH"
  "pDH_primaryKey (find_query ord pDH args es) = pDH_primaryKey pDH"
  "pDH_searchCriteria (find_query ord pDH args es) = pDH_searchCriteria pDH"
  "pDH_tableName (find_query ord pDH args es) = pDH_tableName pDH"
  "pDH_dmlArguments (find_query ord pDH args es) = pDH_dmlArguments pDH @ map snd es"
  by (simp_all add: find_query_def Let_def)

text \<open>
  C22. FindRecord, on a handler without old arguments and with criteria that it does not
  panic on, sends one query with one equality for each criterion that is not a slice,
  placeholders and arguments in the same order, and hands its result on; a slice adds
  nothing to the query.
\<close>

theorem find_sends:
  assumes "pDH_dbh pDH = Some h" and "pDH_dmlType pDH = []"
    and "''return_many'' \<in> set args \<or> checkPrimaryKey ord pDH = None"
    and "pDH_dmlArguments pDH = []" and "\<forall>e \<in> set (entries (pDH_searchCriteria pDH)). passable e"
  shows "let es = equalities_of ord ''FindRecord.searchCriteria'' (pDH_searchCriteria pDH);
             pDH' = find_query ord pDH args es;
             (r, w') = db_Query db h (pDH_dmlStatement pDH') (map snd es) w
         in FindRecord db ord pDH args w = (Val (find_result r pDH'), w') \<and> pDH_dmlArguments pDH' = map snd es \<and>
            mset es = filter_mset plain (mset (entries (pDH_searchCriteria pDH)))"
  using FindRecord_query [OF assms(1-3,5), of db w] assms(4)
  by (simp add: equalities_of_mset Let_def split: prod.split)

lemma read_found_batch:
  assumes "pDH_EnforceBatch pDH" and "0 \<le> sint (pDH_batchSize pDH)" and "length (rs_rows rows) < 2 ^ 63"
  shows "read_found rows pDH =
    (let n = length (rs_rows rows); page = nat (sint (pDH_batchSize pDH));
         last_row = read_row (rs_columns rows) (last (rs_rows rows));
         pDH1 = pDH\<lparr>pDH_Record := pDH_Record pDH @
                  map (\<lambda>vals. GMap (read_row (rs_columns rows) vals)) (take page (rs_rows rows)),
                pDH_NumAffectedLastOp := of_nat n\<rparr>
     in if n = 0 then pDH1
        else (if page < n then pDH1\<lparr>pDH_RecordNextIdx := Some (next_index (pDH_primaryKey pDH) last_row [])\<rparr>
              else pDH1)\<lparr>pDH_RecordLastOp := last_row\<rparr>)"
proof -
  let ?loop = "row_loop (\<lambda>c. sint c \<le> sint (pDH_batchSize pDH)) (rs_columns rows) (rs_rows rows) 0 None (pDH_Record pDH)"
  obtain c row rec where l: "?loop = (c, row, rec)" by (metis prod_cases3)
  have c: "c = of_nat (length (rs_rows rows))"
    using row_loop_counter [of "\<lambda>c. sint c \<le> sint (pDH_batchSize pDH)"] l by (metis add_0 fst_conv)
  have row: "row = (if rs_rows rows = [] then None else read_row (rs_columns rows) (last (rs_rows rows)))"
    using row_loop_row [of "\<lambda>c. sint c \<le> sint (pDH_batchSize pDH)"] l by (metis fst_conv snd_conv)
  have rec: "rec = pDH_Record pDH @
      map (\<lambda>vals. GMap (read_row (rs_columns rows) vals)) (take (nat (sint (pDH_batchSize pDH))) (rs_rows rows))"
    using row_loop_batch [of 0 "rs_rows rows" "pDH_batchSize pDH" "rs_columns rows" None "pDH_Record pDH"] assms(2,3) l
    by simp
  have s: "sint c = int (length (rs_rows rows))" using assms(3) by (simp add: c sint_of_nat)
  show ?thesis
    using assms(1,2) l s
    by (auto simp: read_found_def finish_rows_def Let_def row rec c nat_less_iff)
qed

end
