(* ===== verification/Dal_Pages.thy ===== *)
theory Dal_Pages
  imports Dal_Correct
begin

text \<open>
  Results of package dal_postgresql: what \<open>FindRecord\<close> keeps of a result set and where the next
  page starts, what an insert sends, what the function executor sends, and where the handlers go
  wrong when they are used twice or with the largest batch size.
\<close>

section \<open>Pages\<close>

text \<open>
  C13. What FindRecord keeps of the rows the database returns: the first batchSize rows as
  records, the number of all rows, and, exactly when there are more rows than a page holds,
  the key of the last row read as the place to go on from.
\<close>

theorem find_page:
  assumes "pDH_dbh pDH = Some h" and "pDH_EnforceBatch pDH" and "0 \<le> sint (pDH_batchSize pDH)"
    and "FindRecord db ord pDH args w = (Val (None, pDH'), w')" and "pDH_Record pDH = []"
    and "pDH_RecordNextIdx pDH = None"
  shows "\<exists>rows. db_Query db h (pDH_dmlStatement pDH') (pDH_dmlArguments pDH') w = (Inr rows, w') \<and>
    (length (rs_rows rows) < 2 ^ 63 \<longrightarrow>
      (let n = length (rs_rows rows); page = nat (sint (pDH_batchSize pDH));
           read = read_row (rs_columns rows)
       in pDH_Record pDH' = map (GMap \<circ> read) (take page (rs_rows rows)) \<and>
          pDH_NumAffectedLastOp pDH' = of_nat n \<and>
          (if page < n then
             \<exists>nx. pDH_RecordNextIdx pDH' = Some nx \<and>
               (\<forall>f \<in> set (pDH_primaryKey pDH). map_of nx f = Some (map_index (read (last (rs_rows rows))) f))
           else pDH_RecordNextIdx pDH' = None)))"
proof -
  from assms(4) have staged: "pDH_dmlType pDH = []"
    by (auto simp: FindRecord_def split: if_splits)
  obtain rm d where f: "find_flags args False (pDH_sortDirection pDH) = (rm, d)"
    by (cases "find_flags args False (pDH_sortDirection pDH)")
  from assms(4) staged f have pk: "rm \<or> checkPrimaryKey ord (pDH\<lparr>pDH_sortDirection := d\<rparr>) = None"
    by (cases rm) (auto simp: FindRecord_def Let_def split: option.splits)
  from assms(4) staged f pk obtain pc ph dargs where crit: "find_placeholders ord pDH = Val (pc, ph, dargs)"
    by (cases "find_placeholders ord pDH") (auto simp: FindRecord_def Let_def pbind_apply split: if_splits)
  define stmt where "stmt = find_statement (pDH\<lparr>pDH_sortDirection := d\<rparr>)
    (map fst (range_over ord ''FindRecord.projection'' (pDH_projection pDH))) ph"
  define pDH2 where "pDH2 = pDH\<lparr>pDH_sortDirection := d, pDH_dmlArguments := dargs, pDH_dmlStatement := stmt\<rparr>"
  from FindRecord_runs [OF assms(1) staged f pk crit, of db w] assms(4)
  obtain rows where q: "db_Query db h stmt dargs w = (Inr rows, w')" and p: "pDH' = read_found rows pDH2"
    by (cases "db_Query db h stmt dargs w")
      (auto simp: Let_def stmt_def pDH2_def find_result_def split: sum.splits)
  have keep: "pDH_dmlStatement pDH' = stmt" "pDH_dmlArguments pDH' = dargs"
    by (auto simp: p pDH2_def read_found_def finish_rows_def Let_def split: prod.splits)
  show ?thesis
    using q keep assms(2,3,5,6) read_found_batch [of pDH2 rows]
    by (intro exI [of _ rows]) (auto simp: p pDH2_def Let_def next_index_get comp_def)
qed

text \<open>
  With the largest batch size the limit of the query wraps around to the smallest
  int64.
\<close>

theorem batch_overflow:
  "pDH_EnforceBatch pDH \<Longrightarrow>
   \<exists>s. find_statement (SetBatchSize 9223372036854775807 pDH) proj ph = s @ '' limit -9223372036854775808''"
  by (simp add: find_statement_def SetBatchSize_def FormatInt_def dec_nat.simps)

section \<open>Inserting\<close>

definition insert_text :: "string \<Rightarrow> dict \<Rightarrow> string" where
  "insert_text table es = ''insert into '' @ table @ '' ('' @ join '','' (map fst es) @ '') values ('' @
     join '','' (numbered (\<lambda>_ p. p) 1 es) @ '')''"

text \<open>
  C34. InsertRecord sends one statement with the columns, placeholders and arguments in the
  same order, and stages the handler: a second insert is refused without reaching the
  database.
\<close>

theorem insert_sends:
  assumes "pDH_dbh pDH = Some h" and "pDH_dmlType pDH = []" and "map_len record \<noteq> 0"
    and "''return_modified'' \<notin> set args"
  shows "let es = range_over ord ''InsertRecord'' record;
             pDH' = pDH\<lparr>pDH_dmlType := ''insert'', pDH_dmlArguments := map snd es,
                        pDH_dmlStatement := insert_text (pDH_tableName pDH) es\<rparr>;
             (res, w') = db_Exec db h (insert_text (pDH_tableName pDH) es) (map snd es) w
         in InsertRecord db ord pDH record args w =
              (Val (case res of Inl e \<Rightarrow> Some e | Inr _ \<Rightarrow> None, pDH'), w') \<and>
            mset es = mset (entries record) \<and>
            InsertRecord db ord pDH' record args w' =
              (Val (Some (ErrorString ''Record is already stageed for insert''), pDH'), w')"
proof -
  have "\<not> list_ex (\<lambda>flag. flag = ''return_modified'') args"
    using assms(4) by (auto simp: list_ex_iff)
  with assms(1-3) show ?thesis
    by (simp add: InsertRecord_def insert_columns_Val Let_def Exec_def pbind_apply insert_text_def
        split: prod.split sum.split)
qed

section \<open>Stored functions\<close>

lemma numbered_same: "length xs = length ys \<Longrightarrow> numbered (\<lambda>_ p. p) pc xs = numbered (\<lambda>_ p. p) pc ys"
  by (induction xs ys arbitrary: pc rule: list_induct2) auto

lemma executor_statement_names:
  "n < 2 ^ 63 - 1 \<Longrightarrow> executor_statement name (1 + of_nat n) ph = ''select * from '' @ name @ ''('' @ join '','' ph @ '')''"
  using sint_of_nat [of "Suc n"] by (simp add: executor_statement_def)

definition call_text :: "string \<Rightarrow> string list \<Rightarrow> string" where
  "call_text name names = ''select * from '' @ name @ ''('' @ join '','' (numbered (\<lambda>_ p. p) 1 names) @ '')''"

text \<open>The executor after its first call, on the rows the database gave back.\<close>

definition fresh_pFE :: "sql_db \<Rightarrow> string \<Rightarrow> string list \<Rightarrow> postgresFunctionExecutor" where
  "fresh_pFE h name names = zero_pFE\<lparr>pFE_dbh := Some h, pFE_functionName := name,
     pFE_functionArguments := map GString names\<rparr>"

definition read_pFE :: "result_set \<Rightarrow> postgresFunctionExecutor \<Rightarrow> postgresFunctionExecutor" where
  "read_pFE rows pFE = pFE\<lparr>
     pFE_Record := map (\<lambda>vals. GMap (read_row (rs_columns rows) vals)) (rs_rows rows),
     pFE_NumAffectedLastOp := of_nat (length (rs_rows rows))\<rparr>"

lemma read_pFE_simps [simp]:
  "pFE_Record (read_pFE rows pFE) = map (\<lambda>vals. GMap (read_row (rs_columns rows) vals)) (rs_rows rows)"
  "pFE_NumAffectedLastOp (read_pFE rows pFE) = of_nat (length (rs_rows rows))"
  by (simp_all add: read_pFE_def)

lemma NewPostgresFunctionExecutor_Some:
  "NewPostgresFunctionExecutor (Some h) name (map GString names) = (fresh_pFE h name names, None)"
  by (simp add: NewPostgresFunctionExecutor_def fresh_pFE_def)

lemma fresh_call:
  assumes "length names < 2 ^ 63 - 1"
  shows "ExecuteProc db (fresh_pFE h name names) procArgs w =
    (case db_Query db h (call_text name names) (map (map_index procArgs) names) w of
       (r, w') \<Rightarrow> (Val (case r of
          Inl err \<Rightarrow> (Some err, called (fresh_pFE h name names) procArgs)
        | Inr rows \<Rightarrow> (None, read_pFE rows (called (fresh_pFE h name names) procArgs))), w'))"
proof -
  let ?pFE = "fresh_pFE h name names"
  have same: "numbered (\<lambda>_ p. p) 1 (map GString names) = numbered (\<lambda>_ p. p) 1 names"
    by (rule numbered_same) simp
  have args: "map (argument procArgs \<circ> GString) names = map (map_index procArgs) names"
    by (simp add: argument_def comp_def)
  have stmt: "pFE_dmlStatement (called ?pFE procArgs) = call_text name names"
    using executor_statement_names [OF assms] by (simp add: called_def fresh_pFE_def same call_text_def)
  have dargs: "pFE_dmlArguments (called ?pFE procArgs) = map (map_index procArgs) names"
    by (simp add: called_def fresh_pFE_def zero_pFE_def args)
  have "pFE_dbh ?pFE = Some h" "\<forall>a \<in> set (pFE_functionArguments ?pFE). \<exists>s. a = GString s" "pFE_Record ?pFE = []"
    by (auto simp: fresh_pFE_def zero_pFE_def)
  with ExecuteProc_runs [of ?pFE h db procArgs w, unfolded stmt dargs Let_def] show ?thesis
    by (simp add: read_pFE_def split: prod.split sum.split)
qed

text \<open>
  C21. A new executor calls its function with the named arguments in order, null for a
  missing one, under the placeholders $1 to $n, and keeps every row and their number.
\<close>

theorem executor_call:
  assumes "NewPostgresFunctionExecutor dbh name (map GString names) = (pFE, None)"
    and "length names < 2 ^ 63 - 1"
  shows "\<exists>h. dbh = Some h \<and>
    (let (r, w') = db_Query db h (call_text name names) (map (map_index procArgs) names) w
     in \<exists>pFE'. ExecuteProc db pFE procArgs w =
          (Val (case r of Inl err \<Rightarrow> Some err | Inr _ \<Rightarrow> None, pFE'), w') \<and>
        (\<forall>rows. r = Inr rows \<longrightarrow>
           pFE_Record pFE' = map (\<lambda>vals. GMap (read_row (rs_columns rows) vals)) (rs_rows rows) \<and>
           pFE_NumAffectedLastOp pFE' = of_nat (length (rs_rows rows))))"
proof -
  from assms(1) obtain h where h: "dbh = Some h" by (cases dbh) (auto simp: NewPostgresFunctionExecutor_def)
  with assms(1) have "pFE = fresh_pFE h name names" by (simp add: NewPostgresFunctionExecutor_Some)
  with h fresh_call [OF assms(2), of db h name procArgs w] show ?thesis
    by (auto split: prod.split sum.split)
qed

text \<open>
  An executor that is called twice sends the same statement with the arguments of both
  calls: more arguments than placeholders.
\<close>

theorem executor_reuse:
  assumes "pFE_dbh pFE = Some h" and "\<forall>a \<in> set (pFE_functionArguments pFE). \<exists>s. a = GString s"
    and "ExecuteProc db pFE procArgs w = (Val (err, pFE'), w')"
    and "ExecuteProc db pFE' procArgs' w' = (Val (err', pFE''), w'')"
  shows "pFE_dmlStatement pFE'' = pFE_dmlStatement pFE' \<and>
    pFE_dmlArguments pFE'' = pFE_dmlArguments pFE' @ map (argument procArgs') (pFE_functionArguments pFE)"
proof -
  have keeps: "pFE_dbh pFE2 = pFE_dbh pFE1 \<and> pFE_functionName pFE2 = pFE_functionName pFE1 \<and>
      pFE_functionArguments pFE2 = pFE_functionArguments pFE1 \<and>
      pFE_dmlStatement pFE2 = pFE_dmlStatement (called pFE1 m) \<and>
      pFE_dmlArguments pFE2 = pFE_dmlArguments (called pFE1 m)"
    if "pFE_dbh pFE1 = Some h" "\<forall>a \<in> set (pFE_functionArguments pFE1). \<exists>s. a = GString s"
      "ExecuteProc db pFE1 m u = (Val (e, pFE2), u')" for pFE1 pFE2 m u u' e
    using ExecuteProc_runs [OF that(1,2), of db m u] that(3)
    by (auto simp: Let_def called_def split: prod.splits sum.splits)
  note one = keeps [OF assms(1-3)]
  with assms(1,2) have "pFE_dbh pFE' = Some h" "\<forall>a \<in> set (pFE_functionArguments pFE'). \<exists>s. a = GString s"
    by auto
  from keeps [OF this assms(4)] one show ?thesis by (simp add: called_def)
qed

section \<open>A handler that is used twice\<close>

lemma read_found_keeps [simp]:
  "pDH_dbh (read_found rows pDH) = pDH_dbh pDH" "pDH_primaryKey (read_found rows pDH) = pDH_primaryKey pDH"
  "pDH_searchCriteria (read_found rows pDH) = pDH_searchCriteria pDH"
  "pDH_tableName (read_found rows pDH) = pDH_tableName pDH"
  "pDH_dmlArguments (read_found rows pDH) = pDH_dmlArguments pDH"
  by (simp_all add: read_found_def finish_rows_def Let_def split: prod.splits)

text \<open>
  C27. A handler that is used twice is out of step: after FindRecord has succeeded,
  DeleteRecord sends its statement with the values of the search in front of its own, so
  that there are twice as many arguments as placeholders and the placeholders stand for the
  old ones.
\<close>

theorem reuse_out_of_step:
  assumes "pDH_dbh pDH = Some h" and "pDH_dmlArguments pDH = []" and "checkPrimaryKey ord pDH = None"
    and "\<forall>e \<in> set (entries (pDH_searchCriteria pDH)). passable e"
    and "FindRecord db ord pDH args w = (Val (None, pDH1), w1)"
  shows "let es = equalities_of ord ''DeleteRecord.searchCriteria'' (pDH_searchCriteria pDH);
             old = map snd (equalities_of ord ''FindRecord.searchCriteria'' (pDH_searchCriteria pDH));
             (res, w2) = db_Exec db h (delete_text (pDH_tableName pDH) es) (old @ map snd es) w1
         in (\<exists>r. DeleteRecord db ord pDH1 w1 = (Val r, w2) \<and> fst r = fst (dml_result res pDH1)) \<and>
            mset old = mset (map snd es) \<and> length (old @ map snd es) = 2 * length es"
proof -
  let ?es = "equalities_of ord ''DeleteRecord.searchCriteria'' (pDH_searchCriteria pDH)"
    and ?found = "equalities_of ord ''FindRecord.searchCriteria'' (pDH_searchCriteria pDH)"
  from assms(5) have "pDH_dmlType pDH = []" by (auto simp: FindRecord_def split: if_splits)
  from FindRecord_query [OF assms(1) this _ assms(4), of args ord db w] assms(3,5)
  obtain rows where p: "pDH1 = read_found rows (find_query ord pDH args ?found)"
    by (auto simp: Let_def find_result_def split: sum.splits)
  have "checkPrimaryKey ord pDH1 = None"
    using assms(3) by (simp add: p checkPrimaryKey_None)
  moreover have "pDH_dbh pDH1 = Some h" "\<forall>e \<in> set (entries (pDH_searchCriteria pDH1)). snd e \<noteq> GNil"
    using assms(1,4) by (simp_all add: p passable_def)
  ultimately have run: "let pDH' = pDH1\<lparr>pDH_dmlArguments := map snd ?found @ map snd ?es,
        pDH_dmlStatement := delete_text (pDH_tableName pDH) ?es\<rparr>;
      (res, w') = db_Exec db h (pDH_dmlStatement pDH') (pDH_dmlArguments pDH') w1
    in DeleteRecord db ord pDH1 w1 = (Val (dml_result res pDH'), w')"
    using DeleteRecord_runs [of pDH1 h ord db w1] assms(2) by (simp add: p Let_def)
  have same: "mset ?found = mset ?es" by (simp add: equalities_of_mset)
  have "mset (map snd ?found) = mset (map snd ?es)" unfolding mset_map same ..
  then show ?thesis
    using run mset_eq_length [OF same] by (auto simp: Let_def dml_result_def split: prod.splits sum.splits)
qed

section \<open>Null values\<close>

text \<open>
  An update that sets a field to null panics before anything is sent.
\<close>

theorem null_update_panics:
  assumes "checkPrimaryKey ord pDH = None" and "(k, GNil) \<in> set (entries replacement)"
  shows "UpdateRecord db ord pDH replacement w = (Panic NilDereference, w)"
proof -
  have "equalities (range_over ord ''UpdateRecord.replacement'' replacement) 1 [] (pDH_dmlArguments pDH) =
      Panic NilDereference"
    by (rule equalities_nil) (use assms(2) in force)
  moreover have "replacement \<noteq> None" "map_len replacement \<noteq> 0"
    using assms(2) by (cases replacement; auto simp: map_len_def)+
  ultimately show ?thesis using assms(1) by (simp add: UpdateRecord_def)
qed

end
