(* ===== verification/Dal_Config_Correct.thy ===== *)
theory Dal_Config_Correct
  imports Dal_Config
begin

text \<open>
  The connection settings: \<open>NewPostgresCfg\<close> is its declarative reading \<open>cfg_of\<close>, in whatever
  order Go visits the map, and it panics exactly on a string setting or a port of another type and
  on a null ssl (another ssl is ignored); what \<open>GetURI\<close> prints,
  and that it escapes nothing.
\<close>

section \<open>Reading the settings\<close>

definition cfg_typed :: "string \<times> gval \<Rightarrow> bool" where
  "cfg_typed = (\<lambda>(k, v).
     (k \<in> {''hostname'', ''username'', ''password'', ''database''} \<longrightarrow> (\<exists>s. v = GString s)) \<and>
     (k = ''port'' \<longrightarrow> (\<exists>x. v = GFloat x)) \<and> (k = ''ssl'' \<longrightarrow> v \<noteq> GNil))"

definition string_setting :: "(string \<rightharpoonup> gval) \<Rightarrow> string \<Rightarrow> string \<Rightarrow> string" where
  "string_setting m k d = (case m k of Some (GString s) \<Rightarrow> s | _ \<Rightarrow> d)"

definition ssl_setting :: "(string \<rightharpoonup> gval) \<Rightarrow> string \<Rightarrow> string" where
  "ssl_setting m d = (case m ''ssl'' of
     Some (GBool b) \<Rightarrow> if b then ''require'' else ''disable''
   | Some (GString s) \<Rightarrow> if s \<in> {''require'', ''disable''} then s else ''verify-full''
   | _ \<Rightarrow> d)"

definition port_setting :: "(rat \<Rightarrow> 16 word) \<Rightarrow> (string \<rightharpoonup> gval) \<Rightarrow> 16 word \<Rightarrow> 16 word" where
  "port_setting conv m d = (case m ''port'' of Some (GFloat x) \<Rightarrow> to_uint16 conv x | _ \<Rightarrow> d)"

lemma setting_update:
  "string_setting (m(k \<mapsto> v)) k' d =
     (if k = k' then (case v of GString s \<Rightarrow> s | _ \<Rightarrow> d) else string_setting m k' d)"
  "port_setting conv (m(k \<mapsto> v)) p =
     (if k = ''port'' then (case v of GFloat x \<Rightarrow> to_uint16 conv x | _ \<Rightarrow> p) else port_setting conv m p)"
  "k \<noteq> ''ssl'' \<Longrightarrow> ssl_setting (m(k \<mapsto> v)) d = ssl_setting m d"
  by (simp_all add: string_setting_def port_setting_def ssl_setting_def)

lemma setting_absent:
  "m k = None \<Longrightarrow> string_setting m k d = d" "m ''port'' = None \<Longrightarrow> port_setting conv m p = p"
  "m ''ssl'' = None \<Longrightarrow> ssl_setting m d = d"
  by (simp_all add: string_setting_def port_setting_def ssl_setting_def)

definition cfg_over :: "(rat \<Rightarrow> 16 word) \<Rightarrow> (string \<rightharpoonup> gval) \<Rightarrow> PostgresCfg \<Rightarrow> PostgresCfg" where
  "cfg_over conv m c = \<lparr>
     hostname = string_setting m ''hostname'' (hostname c),
     username = string_setting m ''username'' (username c),
     password = string_setting m ''password'' (password c),
     port = port_setting conv m (port c),
     database_name = string_setting m ''database'' (database_name c),
     sslmode = ssl_setting m (sslmode c)\<rparr>"

lemma cfg_over_empty: "cfg_over conv Map.empty c = c"
  by (simp add: cfg_over_def setting_absent)

lemma ssl_mode_Val:
  "ssl_mode v = Val mode \<Longrightarrow>
     v \<noteq> GNil \<and> (case v of GBool b \<Rightarrow> mode = (if b then ''require'' else ''disable'')
      | GString s \<Rightarrow> mode = (if s \<in> {''require'', ''disable''} then s else ''verify-full'')
      | _ \<Rightarrow> mode = [])"
  by (cases v) (auto simp: ssl_mode_def)

lemma ssl_mode_total: "(\<exists>mode. ssl_mode v = Val mode) \<longleftrightarrow> v \<noteq> GNil"
  by (cases v) (auto simp: ssl_mode_def)

lemma cfg_setting_total: "(\<exists>c'. cfg_setting conv e c = Val c') \<longleftrightarrow> cfg_typed e"
proof (cases e)
  case (Pair k v)
  show ?thesis
  proof (cases "k = ''ssl''")
    case True
    then show ?thesis using ssl_mode_total [of v]
      by (auto simp: Pair cfg_setting_def cfg_typed_def obind_eq_Val)
  next
    case False
    then show ?thesis
      by (auto simp: Pair cfg_setting_def cfg_typed_def obind_eq_Val assertion_Val)
  qed
qed

lemma cfg_setting_string:
  assumes "cfg_setting conv (k, v) c = Val c'" "k \<in> {''hostname'', ''username'', ''password'', ''database''}"
  shows "\<exists>s. v = GString s \<and> c' = (if k = ''hostname'' then c\<lparr>hostname := s\<rparr>
    else if k = ''username'' then c\<lparr>username := s\<rparr> else if k = ''password'' then c\<lparr>password := s\<rparr>
    else c\<lparr>database_name := s\<rparr>)"
proof -
  have eq: "cfg_setting conv (k, v) c = obind (as_string v) (\<lambda>s. Val (if k = ''hostname'' then c\<lparr>hostname := s\<rparr>
    else if k = ''username'' then c\<lparr>username := s\<rparr> else if k = ''password'' then c\<lparr>password := s\<rparr>
    else c\<lparr>database_name := s\<rparr>))"
    using assms(2) unfolding insert_iff empty_iff
    by (elim disjE FalseE; simp only:; simp add: cfg_setting_def)
  from assms(1) show ?thesis
    unfolding eq obind_eq_Val as_string_Val outcome.inject by (elim exE conjE) (intro exI conjI, assumption, erule sym)
qed

lemma cfg_setting_over:
  assumes "cfg_setting conv (k, v) c = Val c'" and "m k = None"
  shows "cfg_over conv m c' = cfg_over conv (m(k \<mapsto> v)) c"
proof -
  note over = cfg_over_def setting_update setting_absent
  consider "k \<in> {''hostname'', ''username'', ''password'', ''database''}" | "k = ''port''" | "k = ''ssl''"
    | "k \<notin> {''hostname'', ''username'', ''password'', ''database'', ''port'', ''ssl''}"
    unfolding insert_iff empty_iff by satx
  then show ?thesis
  proof cases
    case 1
    from cfg_setting_string [OF assms(1) 1] obtain s where v: "v = GString s"
      and "c' = (if k = ''hostname'' then c\<lparr>hostname := s\<rparr> else if k = ''username'' then c\<lparr>username := s\<rparr>
        else if k = ''password'' then c\<lparr>password := s\<rparr> else c\<lparr>database_name := s\<rparr>)" by blast
    then show ?thesis using 1 assms(2) unfolding insert_iff empty_iff
      by (elim disjE FalseE; simp only:; simp add: over)
  next
    case 2
    then obtain x where "v = GFloat x" "c' = c\<lparr>port := to_uint16 conv x\<rparr>"
      using assms(1) by (cases v) (simp_all add: cfg_setting_def)
    with 2 assms(2) show ?thesis by (simp add: over)
  next
    case 3
    then obtain mode where mode: "ssl_mode v = Val mode" and c': "c' = (if mode \<noteq> [] then c\<lparr>sslmode := mode\<rparr> else c)"
      using assms(1) by (auto simp: cfg_setting_def obind_eq_Val)
    from 3 assms(2) ssl_mode_Val [OF mode] show ?thesis
      by (cases v) (simp_all add: c' over ssl_setting_def)
  next
    case 4
    then have "cfg_setting conv (k, v) c = Val c" by (simp add: cfg_setting_def)
    then have "c' = c" using assms(1) by simp
    with 4 show ?thesis by (simp add: over)
  qed
qed

lemma cfg_settings_Val:
  "distinct (map fst es) \<Longrightarrow> cfg_settings conv es c = Val c' \<longleftrightarrow>
     (\<forall>e \<in> set es. cfg_typed e) \<and> c' = cfg_over conv (map_of es) c"
proof (induction es arbitrary: c)
  case Nil
  then show ?case by (auto simp: cfg_over_empty)
next
  case (Cons e es)
  obtain k v where e: "e = (k, v)" by (cases e)
  with Cons.prems have k: "map_of es k = None" and d: "distinct (map fst es)" by (auto simp: map_of_eq_None_iff)
  show ?case
  proof (cases "cfg_typed e")
    case True
    then obtain c1 where c1: "cfg_setting conv (k, v) c = Val c1"
      using cfg_setting_total e by blast
    show ?thesis using True c1 Cons.IH [OF d, of c1] cfg_setting_over [of conv k v c c1 "map_of es", OF c1 k] by (simp add: e fun_upd_def)
  next
    case False
    then have "\<nexists>c1. cfg_setting conv (k, v) c = Val c1" using cfg_setting_total e by blast
    with False show ?thesis by (auto simp: e obind_eq_Val)
  qed
qed

definition cfg_of :: "(rat \<Rightarrow> 16 word) \<Rightarrow> gmap \<Rightarrow> PostgresCfg" where
  "cfg_of conv m = cfg_over conv (map_get m) default_cfg"

text \<open>
  C33. NewPostgresCfg computes the declarative reading of the settings (cfg_of) in every map
  order, and panics exactly when the host, the user, the password or the database is not a
  string, the port is not a number, or ssl is null; an ssl that is neither a boolean nor a
  string is ignored.
\<close>

theorem NewPostgresCfg_reads:
  assumes "wf_map m"
  shows "(NewPostgresCfg conv ord m = Val c \<longleftrightarrow> (\<forall>e \<in> set (entries m). cfg_typed e) \<and> c = cfg_of conv m) \<and>
    (panics (NewPostgresCfg conv ord m) \<longleftrightarrow> (\<exists>(k, v) \<in> set (entries m).
       k \<in> {''hostname'', ''username'', ''password'', ''database''} \<and> (\<nexists>s. v = GString s) \<or>
       k = ''port'' \<and> (\<nexists>x. v = GFloat x) \<or> k = ''ssl'' \<and> v = GNil))"
proof -
  have val: "NewPostgresCfg conv ord m = Val c' \<longleftrightarrow> (\<forall>e \<in> set (entries m). cfg_typed e) \<and> c' = cfg_of conv m" for c'
    using assms cfg_settings_Val [of "range_over ord ''NewPostgresCfg'' m" conv default_cfg c']
      map_of_range_over [OF assms, of ord "''NewPostgresCfg''"]
    by (simp add: NewPostgresCfg_def cfg_of_def distinct_range_over wf_map_def)
  then have "panics (NewPostgresCfg conv ord m) \<longleftrightarrow> \<not> (\<forall>e \<in> set (entries m). cfg_typed e)"
    using not_panics by blast
  moreover have "\<not> cfg_typed e \<longleftrightarrow>
      fst e \<in> {''hostname'', ''username'', ''password'', ''database''} \<and> (\<nexists>s. snd e = GString s) \<or>
      fst e = ''port'' \<and> (\<nexists>x. snd e = GFloat x) \<or> fst e = ''ssl'' \<and> snd e = GNil" for e
    unfolding cfg_typed_def by (cases e) auto
  ultimately show ?thesis using val by (simp only: ball_simps case_prod_unfold simp_thms)
qed

section \<open>The URI\<close>

theorem GetURI_format:
  "GetURI c = ''postgres://'' @
     (if username c = [] then [] else username c @ (if password c = [] then [] else '':'' @ password c) @ ''@'') @
     hostname c @ (if port c = 0 then [] else '':'' @ FormatInt (uint (port c))) @
     (if database_name c = [] then [] else ''/'' @ database_name c) @
     (if sslmode c = [] then [] else ''?sslmode='' @ sslmode c)"
  by (auto simp: GetURI_def Let_def word_gt_0)

text \<open>
  GetURI escapes nothing: a password with an at sign and a hostname with one give the
  same URI, that is, two different configurations cannot be told apart.
\<close>

theorem GetURI_unescaped:
  "GetURI (c\<lparr>username := u # us, password := p # ps @ ''@'' @ hs, hostname := h\<rparr>) =
   GetURI (c\<lparr>username := u # us, password := p # ps, hostname := hs @ ''@'' @ h\<rparr>)"
  by (simp add: GetURI_def Let_def)

section \<open>Opening\<close>

definition opened :: "'w database \<Rightarrow> string \<Rightarrow> ('w, handle \<times> goerror option) proc" where
  "opened db name w = (case sql_Open db ''postgres'' name w of (err, w') \<Rightarrow>
     (Val (case err of
        Some e \<Rightarrow> (None, Some e)
      | None \<Rightarrow> (Some \<lparr>dsn = name, max_idle = 50, max_open = 200\<rparr>, None)), w'))"

lemma open_pool_sized:
  "pbind (open_pool db name) (\<lambda>(dbh, err). case err of
      Some e \<Rightarrow> preturn (dbh, Some e)
    | None \<Rightarrow> preturn (map_option (SetMaxOpenConns 200) (map_option (SetMaxIdleConns 50) dbh), None)) = opened db name"
  by (rule ext, simp add: opened_def open_pool_def pbind_apply SetMaxIdleConns_def SetMaxOpenConns_def Let_def
      split: option.split prod.split)

lemma GetDatabaseHandleFromCfg_opened: "GetDatabaseHandleFromCfg db c = opened db (GetURI c)"
  unfolding GetDatabaseHandleFromCfg_def by (rule open_pool_sized)

text \<open>
  GetDatabaseHandle opens the hostname itself when it is a postgresql URI and the URI
  of the settings otherwise, and bounds the pool to 50 idle and 200 open connections.
\<close>

theorem GetDatabaseHandle_opens:
  assumes "wf_map m" and "\<forall>e \<in> set (entries m). cfg_typed e"
  shows "GetDatabaseHandle db conv ord m =
    opened db (if HasPrefix (string_setting (map_get m) ''hostname'' []) ''postgresql://''
               then string_setting (map_get m) ''hostname'' [] else GetURI (cfg_of conv m))"
proof -
  have cfg: "NewPostgresCfg conv ord m = Val (cfg_of conv m)"
    using cfg_settings_Val [of "range_over ord ''NewPostgresCfg'' m" conv default_cfg "cfg_of conv m"]
      map_of_range_over [OF assms(1), of ord "''NewPostgresCfg''"] assms
    by (simp add: NewPostgresCfg_def cfg_of_def distinct_range_over wf_map_def)
  show ?thesis
  proof (cases "map_get m ''hostname''")
    case None
    then show ?thesis
      by (simp add: GetDatabaseHandle_def cfg GetDatabaseHandleFromCfg_opened string_setting_def HasPrefix_def)
  next
    case (Some v)
    then have "cfg_typed (''hostname'', v)" using assms(2) by (auto simp: map_get_def dest: map_of_SomeD)
    then obtain s where "v = GString s" by (auto simp: cfg_typed_def)
    with Some show ?thesis
      by (simp add: GetDatabaseHandle_def cfg GetDatabaseHandleFromCfg_opened string_setting_def open_pool_sized)
  qed
qed

end
