(* ===== verification/Handlers_Correct.thy ===== *)
theory Handlers_Correct
  imports Service Dal_Pages Dal_Config_Correct
begin

text \<open>
  What the handlers promise: which input reaches the database, what is sent to it and to the
  queue, and which status answers. The contract of a handler that refuses a method is the locale
  \<open>method_guard\<close>, interpreted on the six handlers that have no configuration to read first.
\<close>

section \<open>Answers\<close>

lemma answered_status: "answered c w w' \<Longrightarrow> rw_status (writer w) = None \<Longrightarrow> rw_status (writer w') \<in> {Some c, None}"
  by (auto simp: answered_def)

lemma answered_outside: "answered c w w' \<Longrightarrow> outside w' = outside w"
  by (simp add: answered_def)

text \<open>The world once the handle is opened.\<close>

definition opened_world :: "'s environment \<Rightarrow> ProcessConfiguration \<Rightarrow> 's world \<Rightarrow> 's world" where
  "opened_world env cfg w = w\<lparr>outside := snd (sql_Open (env_db env) ''postgres'' (GetURI (DbCfg cfg)) (outside w))\<rparr>"

definition connects :: "'s environment \<Rightarrow> ProcessConfiguration \<Rightarrow> 's world \<Rightarrow> bool" where
  "connects env cfg w \<longleftrightarrow> fst (sql_Open (env_db env) ''postgres'' (GetURI (DbCfg cfg)) (outside w)) = None"

definition pool :: "ProcessConfiguration \<Rightarrow> sql_db" where
  "pool cfg = \<lparr>dsn = GetURI (DbCfg cfg), max_idle = 50, max_open = 200\<rparr>"

lemma opened_world_writer [simp]: "writer (opened_world env cfg w) = writer w"
  by (simp add: opened_world_def)

lemma with_connection_run:
  "with_connection env cfg k w =
     (case fst (sql_Open (env_db env) ''postgres'' (GetURI (DbCfg cfg)) (outside w)) of
        Some e \<Rightarrow> reply_error env MakeInternalErrorResponse e (opened_world env cfg w)
      | None \<Rightarrow> k (Some (pool cfg)) (opened_world env cfg w))"
  by (simp add: with_connection_def pbind_apply GetDatabaseHandleFromCfg_opened opened_def opened_world_def
      pool_def split: prod.split option.split)

lemma with_input_run:
  "with_input env r k w = (case combineInput (env_ext env) (env_ord env) r of
     (_, Some err) \<Rightarrow> reply_error env MakeInvalidInputResponse err w
   | (inputDoc, None) \<Rightarrow> k inputDoc w)"
  by (simp add: with_input_def split: prod.split option.split)

section \<open>Refused methods\<close>

text \<open>Nothing has happened outside but the opening of a handle.\<close>

definition untouched :: "'s environment \<Rightarrow> ProcessConfiguration \<Rightarrow> 's world \<Rightarrow> 's world \<Rightarrow> bool" where
  "untouched env cfg w w' \<longleftrightarrow> outside w' \<in> {outside w, outside (opened_world env cfg w)}"

definition refused :: "'s environment \<Rightarrow> ProcessConfiguration \<Rightarrow> 's world \<Rightarrow> 's world \<Rightarrow> bool" where
  "refused env cfg w w' \<longleftrightarrow> untouched env cfg w w' \<and>
     (rw_status (writer w') \<in> Some ` {400, 405, 500} \<or> writer w' = writer w)"

lemma refused_reply_error:
  assumes "responder f c" "c \<in> {400, 405, 500}" "rw_status (writer w) = None"
    and "u \<in> {w, opened_world env cfg w}"
  shows "\<exists>w'. reply_error env f e u = (Val (), w') \<and> refused env cfg w w'"
proof -
  have "rw_status (writer u) = None" using assms(3,4) by auto
  from reply_error_answered [OF assms(1) this, of env e] show ?thesis
    using assms(2,4) by (auto simp: refused_def untouched_def answered_def)
qed

lemma refused_method:
  assumes "rw_status (writer w) = None" and "u \<in> {w, opened_world env cfg w}"
  shows "\<exists>w'. invalid_method env u = (Val (), w') \<and> refused env cfg w w'"
proof -
  have "rw_status (writer u) = None" using assms by auto
  from invalid_method_answered [OF this, of env] show ?thesis
    using assms(2) by (auto simp: refused_def untouched_def answered_def)
qed

locale method_guard =
  fixes handler :: "'s environment \<Rightarrow> ProcessConfiguration \<Rightarrow> request \<Rightarrow> ('s world, unit) proc"
    and allowed :: "string set"
  assumes guard: "Method r \<notin> allowed \<Longrightarrow> rw_status (writer w) = None \<Longrightarrow>
    \<exists>w'. handler env cfg r w = (Val (), w') \<and> refused env cfg w w'"
begin

lemma no_panic: "Method r \<notin> allowed \<Longrightarrow> rw_status (writer w) = None \<Longrightarrow> \<not> panics (fst (handler env cfg r w))"
  using guard [of r w env cfg] by auto

lemma no_access:
  "Method r \<notin> allowed \<Longrightarrow> rw_status (writer w) = None \<Longrightarrow> untouched env cfg w (snd (handler env cfg r w))"
  using guard [of r w env cfg] by (auto simp: refused_def)

end

lemma refused_connection:
  assumes "rw_status (writer w) = None"
    and "\<And>conn. \<exists>w'. k conn (opened_world env cfg w) = (Val (), w') \<and> refused env cfg w w'"
  shows "\<exists>w'. with_connection env cfg k w = (Val (), w') \<and> refused env cfg w w'"
  using refused_reply_error [OF internal_error.responder_axioms, of w "opened_world env cfg w" env cfg] assms
  by (auto simp: with_connection_run split: option.split)

lemma refused_input:
  assumes "rw_status (writer w) = None"
    and "\<And>doc. \<exists>w'. k doc w = (Val (), w') \<and> refused env cfg w w'"
  shows "\<exists>w'. with_input env r k w = (Val (), w') \<and> refused env cfg w w'"
  using refused_reply_error [OF invalid_input.responder_axioms, of w w env cfg] assms
  by (auto simp: with_input_run split: prod.split option.split)

interpretation insert_client: method_guard InsertClientHandler "{''GET'', ''POST''}"
  by unfold_locales
    (auto simp: InsertClientHandler_def intro!: refused_input refused_connection refused_method)

interpretation update_client: method_guard UpdateClientHandler "{''GET'', ''POST'', ''PATCH'', ''DELETE''}"
  by unfold_locales
    (auto simp: UpdateClientHandler_def intro!: refused_input refused_connection refused_method)

interpretation find_client: method_guard FindOneClientHandler "{''GET''}"
  by unfold_locales
    (auto simp: FindOneClientHandler_def intro!: refused_connection refused_method)

interpretation pageview: method_guard ProcessPageviewHandler "{''GET''}"
  by unfold_locales (auto simp: ProcessPageviewHandler_def intro!: refused_method)

text \<open>A handler whose table description is empty stops there, whatever the method.\<close>

lemma empty_table_refused:
  "rw_status (writer w) = None \<Longrightarrow>
   \<exists>w'. with_handler env conn (Some []) k (opened_world env cfg w) = (Val (), w') \<and> refused env cfg w w'"
  using refused_reply_error [OF internal_error.responder_axioms, of w "opened_world env cfg w" env cfg]
  by (auto simp: with_handler_def NewPostgresDataHandler_def pbind_apply)

interpretation insert_content: method_guard InsertContentHandler "{}"
  by unfold_locales
    (auto simp: InsertContentHandler_def intro!: refused_connection empty_table_refused)

interpretation update_content: method_guard UpdateContentHandler "{}"
  by unfold_locales
    (auto simp: UpdateContentHandler_def intro!: refused_connection empty_table_refused)

text \<open>
  A request with another method than GET, POST, PATCH or DELETE to one of the six
  handlers that read no table configuration ends without a panic, has sent nothing to the
  database or the queue, and is answered 400, 405 or 500, if its answer can be encoded.
\<close>

theorem bad_method_refused:
  assumes "h \<notin> {RFindManyClient, RFindManyContent}"
    and "Method r \<notin> {''GET'', ''POST'', ''PATCH'', ''DELETE''}" and "rw_status (writer w) = None"
  shows "\<exists>w'. run_handler h env cfg r w = (Val (), w') \<and> refused env cfg w w'"
  using assms insert_client.guard [of r w env cfg] update_client.guard [of r w env cfg]
    find_client.guard [of r w env cfg] pageview.guard [of r w env cfg]
    insert_content.guard [of r w env cfg] update_content.guard [of r w env cfg]
  by (cases h) (simp_all add: run_handler_def)

text \<open>
  C35. Every request to the handlers that insert or change a content ends in an error 500
  (if it can be encoded) and sends nothing to the database: their table description is
  empty.
\<close>

theorem content_writes_dead:
  assumes "h \<in> {RInsertContent, RUpdateContent}" and "rw_status (writer w) = None"
  shows "\<exists>w'. run_handler h env cfg r w = (Val (), w') \<and> untouched env cfg w w' \<and>
    (rw_status (writer w') = Some 500 \<or> writer w' = writer w)"
proof -
  let ?u = "opened_world env cfg w"
  have status: "rw_status (writer ?u) = None" using assms(2) by simp
  have err: "\<exists>w'. reply_error env MakeInternalErrorResponse e ?u = (Val (), w') \<and> untouched env cfg w w' \<and>
      (rw_status (writer w') = Some 500 \<or> writer w' = writer w)" for e
    using reply_error_answered [OF internal_error.responder_axioms status, of env e]
    by (auto simp: answered_def untouched_def)
  have "\<exists>w'. with_handler env conn (Some []) k ?u = (Val (), w') \<and> untouched env cfg w w' \<and>
      (rw_status (writer w') = Some 500 \<or> writer w' = writer w)" for conn k
    using err by (auto simp: with_handler_def NewPostgresDataHandler_def pbind_apply)
  then show ?thesis
    using assms(1) err
    by (auto simp: run_handler_def InsertContentHandler_def UpdateContentHandler_def with_connection_run
        split: option.split)
qed

section \<open>The input document\<close>

lemma add_vars_Some:
  "add_vars es (Some d) = (Some (fold (\<lambda>(k, v). AList.update k v) es d), None)"
  by (induction es arbitrary: d) (auto simp: SetKey_Some)

lemma fold_update_get:
  "distinct (map fst es) \<Longrightarrow> map_of (fold (\<lambda>(k, v). AList.update k v) es d) k =
     (case map_of es k of Some v \<Rightarrow> Some v | None \<Rightarrow> map_of d k)"
proof (induction es arbitrary: d)
  case (Cons e es)
  obtain l v where e: "e = (l, v)" by (cases e)
  with Cons.prems have "map_of es l = None" by (auto simp: map_of_eq_None_iff)
  with Cons e show ?case by (auto split: option.split)
qed simp

definition vars_map :: "request \<Rightarrow> gmap" where
  "vars_map r = Some (map (\<lambda>(k, v). (k, GString v)) (Vars r))"

lemma vars_map_get: "map_get (vars_map r) k = map_option GString (map_of (Vars r) k)"
  by (simp add: vars_map_def map_of_map)

lemma vars_map_wf: "distinct (map fst (Vars r)) \<Longrightarrow> wf_map (vars_map r)"
  by (simp add: vars_map_def comp_def case_prod_unfold)

text \<open>
  C28. The input document is the JSON body with the variables of the URL put over it: a
  variable of the URL wins over a field of the body.
\<close>

theorem combineInput_merges:
  assumes "distinct (map fst (Vars r))" and "Body r = Inr b"
    and "(if b = [] then Inr (Some []) else json_Unmarshal ext b) = Inr (Some d)"
  shows "\<exists>doc. combineInput ext ord r = (Some doc, None) \<and>
    (\<forall>k. map_of doc k = (case map_of (Vars r) k of Some s \<Rightarrow> Some (GString s) | None \<Rightarrow> map_of d k))"
proof -
  let ?es = "range_over ord ''combineInput'' (vars_map r)"
  have "combineInput ext ord r = add_vars ?es (Some d)"
    using assms(2,3) by (auto simp: combineInput_def vars_map_def Let_def split: if_splits)
  moreover have "distinct (map fst ?es)"
    using vars_map_wf [OF assms(1)] by (simp add: distinct_range_over wf_map_def)
  moreover have "map_of ?es = map_get (vars_map r)" by (rule map_of_range_over [OF vars_map_wf [OF assms(1)]])
  ultimately show ?thesis
    by (auto simp: add_vars_Some fold_update_get vars_map_get split: option.split)
qed

text \<open>
  The JSON body null leaves no map to put the variables of the URL into: a request with
  variables is refused.
\<close>

theorem combineInput_null:
  assumes "Body r = Inr b" and "b \<noteq> []" and "json_Unmarshal ext b = Inr None" and "Vars r \<noteq> []"
  shows "combineInput ext ord r =
    (None, Some (ErrorString ''Could not add/append arguments to input: Uninitialized map passed''))"
proof -
  let ?es = "range_over ord ''combineInput'' (vars_map r)"
  have "length ?es = length (Vars r)" by (simp add: vars_map_def)
  then obtain k v es where "?es = (k, v) # es" using assms(4) by (cases ?es) auto
  then show ?thesis
    using assms(1-3) by (simp add: combineInput_def vars_map_def [symmetric] Let_def SetKey_nil)
qed

end
