(* ===== verification/Rewrite_Loop.thy ===== *)
theory Rewrite_Loop
  imports Go_Values
begin

text \<open>
  The loop shape that package validation uses three times: a \<open>range\<close> over a map whose body
  rewrites or deletes the entry it visits, and stops at the first error. The locale
  \<open>rewrite_loop\<close> is its contract; its lemmas say that a run that ends without error changes every
  entry independently of the others, so that the order of the visits does not show.
\<close>

section \<open>What a visit does to its entry\<close>

text \<open>\<open>None\<close>: left as it is; \<open>Some None\<close>: deleted; \<open>Some (Some v)\<close>: set to \<open>v\<close>.\<close>

type_synonym entry_change = "gval option option"

definition apply_change :: "entry_change \<Rightarrow> string \<Rightarrow> gmap \<Rightarrow> gmap outcome" where
  "apply_change c k m = (case c of
     None \<Rightarrow> Val m
   | Some None \<Rightarrow> Val (map_delete m k)
   | Some (Some v) \<Rightarrow> map_store m k v)"

fun changed_entry :: "string \<times> gval \<Rightarrow> entry_change \<Rightarrow> (string \<times> gval) option" where
  "changed_entry e None = Some e"
| "changed_entry e (Some None) = None"
| "changed_entry e (Some (Some v)) = Some (fst e, v)"

definition rewrite_some :: "('a \<Rightarrow> 'a option) \<Rightarrow> 'a list \<Rightarrow> 'a list \<Rightarrow> 'a list" where
  "rewrite_some f es d = List.map_filter (\<lambda>e. if e \<in> set es then f e else Some e) d"

lemma rewrite_some_Nil [simp]: "rewrite_some f [] d = d"
  by (simp add: rewrite_some_def)

lemma rewrite_some_full: "set es = set d \<Longrightarrow> rewrite_some f es d = List.map_filter f d"
  unfolding rewrite_some_def by (rule map_filter_cong) simp

lemma rewrite_some_step:
  assumes "distinct (map fst d)" "(k, v) \<in> set d" "k \<notin> fst ` set rest"
    and "apply_change c k (Some d) = Val (Some d')" "f (k, v) = changed_entry (k, v) c"
  shows "rewrite_some f rest d' = rewrite_some f ((k, v) # rest) d"
proof (cases c)
  case None
  with assms(4,5) have "d' = d" and "f (k, v) = Some (k, v)" by (simp_all add: apply_change_def)
  then show ?thesis
    unfolding rewrite_some_def by (auto intro: map_filter_cong)
next
  case (Some c')
  show ?thesis
  proof (cases c')
    case None
    with Some assms(4) have "d' = filter (\<lambda>e. e \<noteq> (k, v)) d"
      by (simp add: apply_change_def delete_as_filter [OF assms(1,2)])
    then show ?thesis
      using Some None assms(5) unfolding rewrite_some_def
      by (simp add: map_filter_filter) (rule map_filter_cong, auto)
  next
    case (Some v')
    with \<open>c = Some c'\<close> assms(4) have "d' = map (\<lambda>e. if e = (k, v) then (k, v') else e) d"
      by (simp add: apply_change_def update_as_map [OF assms(1,2)])
    then show ?thesis
      using \<open>c = Some c'\<close> Some assms(3,5) unfolding rewrite_some_def
      by (simp add: map_filter_map) (rule map_filter_cong, auto simp: image_iff)
  qed
qed

lemma apply_change_Some: "\<exists>d'. apply_change c k (Some d) = Val (Some d')"
  by (auto simp: apply_change_def split: option.split)

lemma apply_change_keeps:
  assumes "distinct (map fst d)" "(k, v) \<in> set d" "set rest \<subseteq> set d" "k \<notin> fst ` set rest"
    and "apply_change c k (Some d) = Val (Some d')"
  shows "distinct (map fst d')" and "set rest \<subseteq> set d'"
proof -
  show "distinct (map fst d')"
    using assms(1,5) by (auto simp: apply_change_def split: option.splits)
  have "set rest \<subseteq> set (AList.delete k d)" and "set rest \<subseteq> set (AList.update k v' d)" for v'
  proof -
    have e: "e \<in> set d \<and> e \<noteq> (k, v)" if "e \<in> set rest" for e
      using that assms(3,4) by force
    then show "set rest \<subseteq> set (AList.delete k d)"
      unfolding delete_as_filter [OF assms(1,2)] by auto
    show "set rest \<subseteq> set (AList.update k v' d)"
      unfolding update_as_map [OF assms(1,2)] using e by (fastforce simp: image_iff)
  qed
  then show "set rest \<subseteq> set d'"
    using assms(3,5) by (auto simp: apply_change_def split: option.splits)
qed

section \<open>The loop\<close>

locale rewrite_loop =
  fixes step :: "string \<times> gval \<Rightarrow> (goerror option \<times> entry_change) outcome"
    and loop :: "dict \<Rightarrow> gmap \<Rightarrow> (goerror option \<times> gmap) outcome"
  assumes loop_Nil: "loop [] m = Val (None, m)"
    and loop_Cons: "loop ((k, v) # es) (Some d) =
      obind (step (k, v)) (\<lambda>r. obind (apply_change (snd r) k (Some d)) (\<lambda>m'.
        case fst r of Some e \<Rightarrow> Val (Some e, m') | None \<Rightarrow> loop es m'))"
begin

definition ok :: "string \<times> gval \<Rightarrow> bool" where
  "ok e \<longleftrightarrow> (case step e of Val (None, _) \<Rightarrow> True | _ \<Rightarrow> False)"

definition after :: "string \<times> gval \<Rightarrow> (string \<times> gval) option" where
  "after e = (case step e of Val (_, c) \<Rightarrow> changed_entry e c | Panic _ \<Rightarrow> Some e)"

lemma ok_iff: "ok e \<longleftrightarrow> (\<exists>c. step e = Val (None, c))"
  by (auto simp: ok_def split: outcome.splits option.splits prod.splits)

lemma after_Val: "step e = Val (err, c) \<Longrightarrow> after e = changed_entry e c"
  by (simp add: after_def)

lemma after_key: "after (k, v) = Some (k', v') \<Longrightarrow> k' = k"
  unfolding after_def
  by (auto split: outcome.splits elim!: changed_entry.elims)

theorem loop_ok:
  assumes "distinct (map fst es)" "distinct (map fst d)" "set es \<subseteq> set d"
  shows "loop es (Some d) = Val (None, out) \<longleftrightarrow>
    (\<forall>e \<in> set es. ok e) \<and> out = Some (rewrite_some after es d)"
  using assms
proof (induction es arbitrary: d)
  case Nil
  then show ?case by (auto simp: loop_Nil)
next
  case (Cons e rest)
  obtain k v where e: "e = (k, v)" by (cases e)
  from Cons.prems e have kv: "(k, v) \<in> set d" "k \<notin> fst ` set rest" "set rest \<subseteq> set d"
    "distinct (map fst rest)" by auto
  show ?case
  proof (cases "step (k, v)")
    case (Panic p)
    then show ?thesis by (simp add: e loop_Cons ok_iff)
  next
    case (Val r)
    obtain err c where r: "r = (err, c)" by (cases r)
    obtain d' where d': "apply_change c k (Some d) = Val (Some d')" using apply_change_Some by blast
    have after: "after (k, v) = changed_entry (k, v) c" using Val r by (simp add: after_Val)
    note keep = apply_change_keeps [OF Cons.prems(2) kv(1,3,2) d']
    have "rewrite_some after rest d' = rewrite_some after (e # rest) d"
      unfolding e by (rule rewrite_some_step [where f = after, OF Cons.prems(2) kv(1,2) d' after])
    then show ?thesis
      using Cons.IH [OF kv(4) keep] Val r d'
      by (cases err) (auto simp: e loop_Cons ok_iff)
  qed
qed

theorem loop_over_map:
  assumes "wf_map m"
  shows "loop (range_over ord site m) m = Val (None, out) \<longleftrightarrow>
    (\<forall>e \<in> set (entries m). ok e) \<and> out = map_option (List.map_filter after) m"
proof (cases m)
  case None
  then show ?thesis by (auto simp: loop_Nil)
next
  case (Some d)
  with assms show ?thesis
    by (simp add: loop_ok distinct_range_over rewrite_some_full)
qed

theorem loop_total:
  assumes "\<forall>e \<in> set es. \<exists>r. step e = Val r"
  shows "\<exists>r. loop es (Some d) = Val r"
  using assms
proof (induction es arbitrary: d)
  case (Cons e rest)
  obtain k v where e: "e = (k, v)" by (cases e)
  with Cons.prems obtain err c where s: "step (k, v) = Val (err, c)" by auto
  obtain d' where "apply_change c k (Some d) = Val (Some d')" using apply_change_Some by blast
  with s Cons show ?case by (cases err) (auto simp: e loop_Cons)
qed (simp add: loop_Nil)

theorem lookup_after:
  assumes "wf_map m" and "loop (range_over ord site m) m = Val (None, out)"
  shows "map_get out k = (case map_get m k of None \<Rightarrow> None | Some v \<Rightarrow> map_option snd (after (k, v)))"
    and "wf_map out"
proof -
  have out: "out = map_option (List.map_filter after) m" using loop_over_map assms by blast
  then show "map_get out k = (case map_get m k of None \<Rightarrow> None | Some v \<Rightarrow> map_option snd (after (k, v)))"
    using assms(1) map_of_map_filter [of after] after_key by (cases m) auto
  have "distinct (map fst (List.map_filter after d))" if "distinct (map fst d)" for d
  proof -
    have "fst e' = fst e" if "after e = Some e'" for e e'
      using that after_key [of "fst e" "snd e" "fst e'" "snd e'"] by simp
    then show ?thesis by (simp add: keys_map_filter distinct_map_filter that)
  qed
  with out assms(1) show "wf_map out" by (cases m) auto
qed

text \<open>Whatever a run ends in, also an error, is a Go map at every depth.\<close>

lemma loop_keeps_wf:
  assumes "\<And>k v r w. (k, v) \<in> set es \<Longrightarrow> step (k, v) = Val (r, Some (Some w)) \<Longrightarrow> wf_val w"
    and "wf_val (GMap (Some d))" and "loop es (Some d) = Val (err, out)"
  shows "wf_val (GMap out)"
  using assms
proof (induction es arbitrary: d)
  case Nil
  then show ?case by (auto simp: loop_Nil)
next
  case (Cons e rest)
  obtain k v where e: "e = (k, v)" by (cases e)
  with Cons.prems(3) obtain r c where s: "step (k, v) = Val (r, c)"
    by (auto simp: loop_Cons obind_eq_Val)
  obtain d' where d': "apply_change c k (Some d) = Val (Some d')" using apply_change_Some by blast
  have "wf_val (GMap (Some d'))"
  proof (cases c)
    case None
    with d' Cons.prems(2) show ?thesis by (simp add: apply_change_def)
  next
    case (Some c')
    show ?thesis
    proof (cases c')
      case None
      with Some d' wf_val_delete [OF Cons.prems(2), of k] show ?thesis by (simp add: apply_change_def)
    next
      case (Some w)
      with \<open>c = Some c'\<close> s e have "wf_val w" by (intro Cons.prems(1)) auto
      from wf_val_store [OF Cons.prems(2) this, of k] d' \<open>c = Some c'\<close> Some
      show ?thesis by (simp add: apply_change_def)
    qed
  qed
  then show ?case
    using Cons.IH [of d'] Cons.prems(1,3) s d' e by (cases r) (auto simp: loop_Cons)
qed

lemma range_keeps_wf:
  assumes "\<And>k v r w. (k, v) \<in> set (entries m) \<Longrightarrow> step (k, v) = Val (r, Some (Some w)) \<Longrightarrow> wf_val w"
    and "wf_val (GMap m)" and "loop (range_over ord site m) m = Val (err, out)"
  shows "wf_val (GMap out)"
proof (cases m)
  case None
  with assms show ?thesis by (simp add: loop_Nil)
next
  case (Some d)
  with assms show ?thesis
    by (intro loop_keeps_wf [of "range_over ord site m" d err out]) auto
qed

end

end
