(* ===== verification/Validation_Correct.thy ===== *)
theory Validation_Correct
  imports Validation Rewrite_Loop
begin

text \<open>
  What a successful check promises. The loop over the document is characterised entry by entry
  (\<open>legend.ok\<close>, \<open>legend.after\<close>), independent of the order in which Go visits the map; the other
  properties follow from that form by induction over nested schemas (\<open>schema_induct\<close>).
\<close>

section \<open>Nested schemas\<close>

definition subschema :: "gmap \<Rightarrow> gmap \<Rightarrow> bool" where
  "subschema sub schema = (\<exists>legend k vm. map_index schema ''legend'' = GMap legend \<and>
     map_index legend k = GMap vm \<and> map_index vm ''sub_type'' = GMap sub)"

lemma subschema_size:
  assumes "subschema sub schema"
  shows "dsize (entries sub) < dsize (entries schema)"
proof -
  from assms obtain legend k vm where "map_index schema ''legend'' = GMap legend"
    "map_index legend k = GMap vm" "map_index vm ''sub_type'' = GMap sub"
    unfolding subschema_def by blast
  then have "dsize (entries legend) < dsize (entries schema)"
    "dsize (entries vm) < dsize (entries legend)" "dsize (entries sub) < dsize (entries vm)"
    by (auto intro: GMap_index_size)
  then show ?thesis by simp
qed

lemma schema_induct [case_names schema]:
  assumes "\<And>schema. (\<And>sub. subschema sub schema \<Longrightarrow> P sub) \<Longrightarrow> P schema"
  shows "P schema"
proof (induction "dsize (entries schema)" arbitrary: schema rule: less_induct)
  case less
  show ?case
  proof (rule assms)
    fix sub assume "subschema sub schema"
    then show "P sub" by (intro less.hyps subschema_size)
  qed
qed

section \<open>The loop over the document\<close>

definition legend_step ::
    "externals \<Rightarrow> range_order \<Rightarrow> gmap \<Rightarrow> string \<Rightarrow> string \<times> gval \<Rightarrow> (goerror option \<times> entry_change) outcome" where
  "legend_step ext ord legend action = (\<lambda>(k, v). case map_index legend k of
     GMap vm \<Rightarrow> obind (validate_field ext ord action k v vm) (\<lambda>r. Val (fst r, map_option Some (snd r)))
   | _ \<Rightarrow> Val (None, Some None))"

lemma legend_step_apply:
  "legend_step ext ord legend action (k, v) = (case map_index legend k of
     GMap vm \<Rightarrow> obind (validate_field ext ord action k v vm) (\<lambda>r. Val (fst r, map_option Some (snd r)))
   | _ \<Rightarrow> Val (None, Some None))"
  by (simp add: legend_step_def)

interpretation legend: rewrite_loop "legend_step ext ord legend action" "legend_loop ext ord legend action"
  for ext ord legend action
proof (unfold_locales, goal_cases)
  case (2 k v es d)
  show ?case
  proof (cases "map_index legend k")
    case (GMap vm)
    then show ?thesis
      by (cases "validate_field ext ord action k v vm")
        (auto simp: legend_step_def apply_change_def split: option.split)
  qed (simp_all add: legend_step_def apply_change_def)
qed simp

lemma ValidateWithLegend_ok:
  assumes "wf_map input"
  shows "ValidateWithLegend ext ord input legend action = Val (None, out) \<longleftrightarrow>
    (\<forall>e \<in> set (entries input). legend.ok ext ord legend action e) \<and>
    out = map_option (List.map_filter (legend.after ext ord legend action)) input"
  unfolding ValidateWithLegend.simps by (rule legend.loop_over_map [OF assms])

lemma legend_ok_iff:
  "legend.ok ext ord legend action (k, v) \<longleftrightarrow>
     (\<forall>vm. map_index legend k = GMap vm \<longrightarrow> (\<exists>w. validate_field ext ord action k v vm = Val (None, w)))"
  by (auto simp: legend.ok_iff legend_step_apply obind_eq_Val split: gval.split)

lemma legend_after_field:
  "map_index legend k = GMap vm \<Longrightarrow> validate_field ext ord action k v vm = Val (None, w) \<Longrightarrow>
   legend.after ext ord legend action (k, v) = Some (k, case w of None \<Rightarrow> v | Some v' \<Rightarrow> v')"
  by (cases w) (simp_all add: legend.after_def legend_step_apply)

lemma legend_after_unknown:
  "\<nexists>vm. map_index legend k = GMap vm \<Longrightarrow> legend.after ext ord legend action (k, v) = None"
  by (cases "map_index legend k") (simp_all add: legend.after_def legend_step_apply)

section \<open>What an accepted field is\<close>

definition field_accepts ::
    "externals \<Rightarrow> range_order \<Rightarrow> string \<Rightarrow> string \<Rightarrow> gval \<Rightarrow> gmap \<Rightarrow> gval option \<Rightarrow> bool" where
  "field_accepts ext ord action k v vm w \<longleftrightarrow>
     (case map_get vm ''type'' of
        Some (GKind KString) \<Rightarrow>
          (\<exists>s v'. v = GString s \<and> check_string ext k s vm = Val (None, v') \<and> w = Some v')
      | Some (GKind KInt64) \<Rightarrow>
          (\<exists>s i. v = GString s \<and> ParseInt s = Inr i \<and> w = Some (GInt64 i)) \<or>
          (\<exists>i. v = GInt64 i \<and> w = Some v)
      | Some (GKind KBool) \<Rightarrow> (\<exists>b. v = GBool b) \<and> w = None
      | Some (GKind KMap) \<Rightarrow>
          (\<exists>m sub m'. v = GMap m \<and> map_index vm ''sub_type'' = GMap sub \<and>
             ValidateWithSchema ext ord m sub action = Val (None, m') \<and> w = Some (GMap m'))
      | Some (GKind KSlice) \<Rightarrow> kind_of v = Val KSlice \<and> map_get vm ''sub_type'' = None \<and> w = None
      | _ \<Rightarrow> False)"

lemma validate_string_ok:
  assumes "map_get vm ''type'' = Some (GKind KString)" "null_ok vm = Val n" "v \<noteq> GNil"
  shows "validate_field ext ord action k v vm = Val (None, w) \<longleftrightarrow> field_accepts ext ord action k v vm w"
  using assms
  by (cases v) (auto simp: validate_field.simps field_accepts_def obind_eq_Val split: option.splits)

lemma validate_int_ok:
  assumes "map_get vm ''type'' = Some (GKind KInt64)" "null_ok vm = Val n" "v \<noteq> GNil"
  shows "validate_field ext ord action k v vm = Val (None, w) \<longleftrightarrow> field_accepts ext ord action k v vm w"
proof (cases v)
  case (GString s)
  then show ?thesis using assms
    by (cases "ParseInt s") (auto simp: validate_field.simps field_accepts_def)
qed (use assms in \<open>auto simp: validate_field.simps field_accepts_def\<close>)

lemma validate_bool_ok:
  assumes "map_get vm ''type'' = Some (GKind KBool)" "null_ok vm = Val n" "v \<noteq> GNil"
  shows "validate_field ext ord action k v vm = Val (None, w) \<longleftrightarrow> field_accepts ext ord action k v vm w"
  using assms by (cases v) (auto simp: validate_field.simps field_accepts_def)

lemma validate_map_ok:
  assumes "map_get vm ''type'' = Some (GKind KMap)" "null_ok vm = Val n" "v \<noteq> GNil"
  shows "validate_field ext ord action k v vm = Val (None, w) \<longleftrightarrow> field_accepts ext ord action k v vm w"
  using assms
  by (cases v) (auto simp: validate_field.simps field_accepts_def obind_eq_Val as_map_Val)

lemma validate_slice_ok:
  assumes "map_get vm ''type'' = Some (GKind KSlice)" "null_ok vm = Val n" "v \<noteq> GNil"
  shows "validate_field ext ord action k v vm = Val (None, w) \<longleftrightarrow> field_accepts ext ord action k v vm w"
  using assms
  by (cases v) (auto simp: validate_field.simps field_accepts_def split: option.splits)

lemma validate_field_ok:
  "validate_field ext ord action k v vm = Val (None, w) \<longleftrightarrow>
     map_get vm ''type'' \<noteq> None \<and>
     (\<exists>n. null_ok vm = Val n \<and>
        (if v = GNil then n \<and> w = None else field_accepts ext ord action k v vm w))"
proof (cases "map_get vm ''type''")
  case None
  then show ?thesis by (simp add: validate_field.simps)
next
  case (Some ty)
  show ?thesis
  proof (cases "null_ok vm")
    case (Panic p)
    with Some show ?thesis by (simp add: validate_field.simps)
  next
    case (Val n)
    show ?thesis
    proof (cases "v = GNil")
      case True
      with Some Val show ?thesis by (auto simp: validate_field.simps)
    next
      case False
      note typed = validate_string_ok validate_int_ok validate_bool_ok validate_map_ok validate_slice_ok
      consider "ty \<in> GKind ` {KString, KInt64, KBool, KMap, KSlice}" | "ty \<notin> GKind ` {KString, KInt64, KBool, KMap, KSlice}"
        by blast
      then show ?thesis
      proof cases
        case 1
        with Some Val False typed [of vm n v ext ord action k w] show ?thesis by auto
      next
        case 2
        then have "\<not> field_accepts ext ord action k v vm w"
          using Some by (auto simp: field_accepts_def split: gval.split kind.split)
        moreover have "validate_field ext ord action k v vm \<noteq> Val (None, w)"
          using 2 Some Val False by (cases "as_kind ty") (auto simp: validate_field.simps)
        ultimately show ?thesis using False by simp
      qed
    qed
  qed
qed

section \<open>When a document is accepted\<close>

text \<open>The settings that apply to an action: its own or the default ones.\<close>

definition requirements :: "gmap \<Rightarrow> string \<Rightarrow> (string list \<times> bool) outcome" where
  "requirements schema action =
     obind (as_map (map_index schema ''required_fields'')) (\<lambda>reqFields.
     obind (as_map (case map_get reqFields action of
                      Some rf \<Rightarrow> rf
                    | None \<Rightarrow> map_index reqFields ''default'')) (\<lambda>r.
     obind (as_strings (map_index r ''fields'')) (\<lambda>requiredFields.
     obind (as_bool (map_index r ''require_an_optional'')) (\<lambda>requireOptional.
       Val (requiredFields, requireOptional)))))"

lemma ValidateRequiredFields_None:
  "ValidateRequiredFields input reqfields = None \<longleftrightarrow> (\<forall>f \<in> set reqfields. map_get input f \<noteq> None)"
  by (induction reqfields) (auto split: option.split)

lemma is_optional_iff: "is_optional rf k \<longleftrightarrow> k \<notin> set rf"
proof -
  have "fold (\<lambda>rk b. if k = rk then False else b) xs b \<longleftrightarrow> b \<and> k \<notin> set xs" for xs b
    by (induction xs arbitrary: b) auto
  then show ?thesis by (simp add: is_optional_def)
qed

lemma key_found:
  "fold (\<lambda>(ik, v) h. if k = ik then True else h) es b \<longleftrightarrow> b \<or> k \<in> fst ` set es"
  by (induction es arbitrary: b) auto

lemma ValidatieAnOptionalField_None:
  "ValidatieAnOptionalField ord input fieldDefs rf = None \<longleftrightarrow>
     (\<exists>k. map_get fieldDefs k \<noteq> None \<and> k \<notin> set rf \<and> map_get input k \<noteq> None)"
proof -
  have "fold (\<lambda>(k, v) has. if is_optional rf k then
            fold (\<lambda>(ik, v) h. if k = ik then True else h) is has else has) es c \<longleftrightarrow>
        c \<or> (\<exists>k \<in> fst ` set es. k \<notin> set rf \<and> k \<in> fst ` set is)" for es "is" :: dict and c
  proof (induction es arbitrary: c)
    case (Cons e es)
    then show ?case by (cases e) (simp add: key_found is_optional_iff)
  qed simp
  then have "ValidatieAnOptionalField ord input fieldDefs rf = None \<longleftrightarrow>
      (\<exists>k \<in> fst ` set (entries fieldDefs). k \<notin> set rf \<and> k \<in> fst ` set (entries input))"
    by (simp add: ValidatieAnOptionalField_def Let_def)
  then show ?thesis unfolding map_get_key by blast
qed

lemma ValidateWithSchema_requirements:
  "ValidateWithSchema ext ord input schema action =
     obind (requirements schema action) (\<lambda>(rf, ro).
     case ValidateRequiredFields input rf of
       Some e \<Rightarrow> Val (Some e, input)
     | None \<Rightarrow>
     obind (if ro then
              obind (as_map (map_index schema ''legend'')) (\<lambda>legend.
                Val (ValidatieAnOptionalField ord input legend rf))
            else Val None) (\<lambda>err.
     case err of
       Some e \<Rightarrow> Val (Some e, input)
     | None \<Rightarrow>
     obind (as_map (map_index schema ''legend'')) (\<lambda>legend.
       ValidateWithLegend ext ord input legend action)))"
  by (simp add: ValidateWithSchema.simps requirements_def obind_assoc)

lemma ValidateWithSchema_ok:
  assumes "wf_map input"
  shows "ValidateWithSchema ext ord input schema action = Val (None, out) \<longleftrightarrow>
    (\<exists>rf ro legend. requirements schema action = Val (rf, ro) \<and>
       map_index schema ''legend'' = GMap legend \<and>
       (\<forall>f \<in> set rf. map_get input f \<noteq> None) \<and>
       (ro \<longrightarrow> (\<exists>k. map_get legend k \<noteq> None \<and> k \<notin> set rf \<and> map_get input k \<noteq> None)) \<and>
       (\<forall>e \<in> set (entries input). legend.ok ext ord legend action e) \<and>
       out = map_option (List.map_filter (legend.after ext ord legend action)) input)"
  (is "?l \<longleftrightarrow> (\<exists>rf ro legend. ?r rf ro legend)")
proof (cases "requirements schema action")
  case (Val q)
  obtain rf ro where q: "q = (rf, ro)" by (cases q)
  have "?l \<longleftrightarrow> ValidateRequiredFields input rf = None \<and>
     (\<exists>legend. map_index schema ''legend'' = GMap legend \<and>
       (ro \<longrightarrow> ValidatieAnOptionalField ord input legend rf = None) \<and>
       ValidateWithLegend ext ord input legend action = Val (None, out))"
    unfolding ValidateWithSchema_requirements Val q
    by (auto simp: obind_eq_Val as_map_Val split: option.splits)
  then show ?thesis
    unfolding Val q ValidateRequiredFields_None ValidatieAnOptionalField_None
      ValidateWithLegend_ok [OF assms] by auto
next
  case (Panic p)
  then show ?thesis by (simp add: ValidateWithSchema_requirements)
qed

end
