(* ===== verification/Validation_Safety.thy ===== *)
theory Validation_Safety
  imports Validation_Correct
begin

text \<open>
  The promises of \<open>ValidateWithSchema\<close> to its callers: the document it accepts has the shape
  the schema describes (\<open>conforms\<close>), whatever order Go visits the maps in, and a schema that is
  \<open>safe_schema\<close> is checked without a panic on every document.
\<close>

section \<open>The shape of an accepted document\<close>

definition enum_conforms :: "gmap \<Rightarrow> string \<Rightarrow> bool" where
  "enum_conforms a s \<longleftrightarrow> (case map_get a ''enum'' of None \<Rightarrow> True | Some e \<Rightarrow> (\<exists>vs. e = GSlice vs \<and> GString s \<in> set vs))"

definition length_conforms :: "gmap \<Rightarrow> string \<Rightarrow> bool" where
  "length_conforms a s \<longleftrightarrow> (\<forall>spec. map_index a ''length'' = GSlice spec \<longrightarrow>
     spec = [GFloat (of_nat (rune_count s))] \<or>
     (\<exists>lo hi. spec = [lo, hi] \<and> (\<forall>l. lo = GFloat l \<longrightarrow> l \<le> of_nat (rune_count s)) \<and>
        (\<forall>u. hi = GFloat u \<longrightarrow> of_nat (rune_count s) \<le> u)))"

definition string_conforms :: "gmap \<Rightarrow> gval \<Rightarrow> bool" where
  "string_conforms vm v \<longleftrightarrow> (case map_get vm ''additional_validation'' of
     Some (GString t) \<Rightarrow> if t = ''UUID'' then \<exists>u. v = GUUID u else \<exists>s. v = GString s
   | Some (GMap a) \<Rightarrow> \<exists>s. v = GString s \<and> enum_conforms a s \<and> length_conforms a s
   | _ \<Rightarrow> \<exists>s. v = GString s)"

inductive conforms :: "string \<Rightarrow> gmap \<Rightarrow> gmap \<Rightarrow> bool"
  and value_conforms :: "string \<Rightarrow> gmap \<Rightarrow> gval \<Rightarrow> bool" where
  document: "requirements schema action = Val (rf, ro) \<Longrightarrow>
    map_index schema ''legend'' = GMap legend \<Longrightarrow>
    (\<And>k v. map_get doc k = Some v \<Longrightarrow> \<exists>vm. map_index legend k = GMap vm \<and> value_conforms action vm v) \<Longrightarrow>
    (\<And>f vm. f \<in> set rf \<Longrightarrow> map_index legend f = GMap vm \<Longrightarrow> map_get doc f \<noteq> None) \<Longrightarrow>
    conforms action schema doc"
| null: "null_ok vm = Val True \<Longrightarrow> value_conforms action vm GNil"
| "string": "map_get vm ''type'' = Some (GKind KString) \<Longrightarrow> string_conforms vm v \<Longrightarrow> value_conforms action vm v"
| "int": "map_get vm ''type'' = Some (GKind KInt64) \<Longrightarrow> value_conforms action vm (GInt64 i)"
| "bool": "map_get vm ''type'' = Some (GKind KBool) \<Longrightarrow> value_conforms action vm (GBool b)"
| hashmap: "map_get vm ''type'' = Some (GKind KMap) \<Longrightarrow> map_index vm ''sub_type'' = GMap sub \<Longrightarrow>
    conforms action sub m \<Longrightarrow> value_conforms action vm (GMap m)"
| "array": "map_get vm ''type'' = Some (GKind KSlice) \<Longrightarrow> map_get vm ''sub_type'' = None \<Longrightarrow>
    kind_of v = Val KSlice \<Longrightarrow> value_conforms action vm v"

inductive_cases conforms_elim: "conforms action schema doc"

lemma check_enum_None:
  "check_enum k s a = Val None \<Longrightarrow> enum_conforms a s"
  by (auto simp: check_enum_def enum_conforms_def obind_eq_Val as_slice_Val string_elements_Val
      split: option.splits if_splits)

lemma check_bounds_None:
  assumes "check_bounds k s lo hi = Val None"
  shows "(\<forall>l. lo = GFloat l \<longrightarrow> l \<le> of_nat (rune_count s)) \<and> (\<forall>u. hi = GFloat u \<longrightarrow> of_nat (rune_count s) \<le> u)"
  using assms by (auto simp: check_bounds_def obind_eq_Val Let_def split: if_splits)

lemma check_length_None: "check_length k s a = Val None \<Longrightarrow> length_conforms a s"
  unfolding length_conforms_def
proof (intro allI impI)
  fix spec
  assume ok: "check_length k s a = Val None" and spec: "map_index a ''length'' = GSlice spec"
  consider "spec = []" | x where "spec = [x]" | lo hi where "spec = [lo, hi]"
    | x y z zs where "spec = x # y # z # zs" by (metis neq_Nil_conv)
  then show "spec = [GFloat (of_nat (rune_count s))] \<or>
     (\<exists>lo hi. spec = [lo, hi] \<and> (\<forall>l. lo = GFloat l \<longrightarrow> l \<le> of_nat (rune_count s)) \<and>
        (\<forall>u. hi = GFloat u \<longrightarrow> of_nat (rune_count s) \<le> u))"
  proof cases
    case (2 x)
    with ok spec show ?thesis
      by (cases x) (auto simp: check_length_def split: if_splits)
  next
    case (3 lo hi)
    with ok spec have "check_bounds k s lo hi = Val None" by (simp add: check_length_def)
    with 3 show ?thesis using check_bounds_None by blast
  qed (use ok spec in \<open>auto simp: check_length_def\<close>)
qed

lemma check_string_conforms: "check_string ext k s vm = Val (None, v) \<Longrightarrow> string_conforms vm v"
  unfolding check_string_def string_conforms_def
  by (auto simp: obind_eq_Val as_map_Val kind_of_cases check_enum_None check_length_None
      split: option.splits if_splits sum.splits gval.splits)

lemma field_conforms:
  assumes "field_accepts ext ord action k v vm w"
    and "\<And>m sub m'. v = GMap m \<Longrightarrow> map_index vm ''sub_type'' = GMap sub \<Longrightarrow>
      ValidateWithSchema ext ord m sub action = Val (None, m') \<Longrightarrow> conforms action sub m'"
  shows "value_conforms action vm (case w of None \<Rightarrow> v | Some v' \<Rightarrow> v')"
  using assms unfolding field_accepts_def
  by (auto split: option.splits gval.splits kind.splits
      intro: conforms_value_conforms.intros check_string_conforms)

lemma after_conforms:
  assumes "legend.ok ext ord legend action (k, v)" and "map_index legend k = GMap vm"
    and "\<And>sub m m'. map_index vm ''sub_type'' = GMap sub \<Longrightarrow> v = GMap m \<Longrightarrow>
      ValidateWithSchema ext ord m sub action = Val (None, m') \<Longrightarrow> conforms action sub m'"
  shows "\<exists>v'. legend.after ext ord legend action (k, v) = Some (k, v') \<and> value_conforms action vm v'"
proof -
  from assms(1,2) obtain w where w: "validate_field ext ord action k v vm = Val (None, w)"
    by (auto simp: legend_ok_iff)
  then obtain n where "null_ok vm = Val n"
    and "if v = GNil then n \<and> w = None else field_accepts ext ord action k v vm w"
    by (auto simp: validate_field_ok)
  then have "value_conforms action vm (case w of None \<Rightarrow> v | Some v' \<Rightarrow> v')"
    using field_conforms [of ext ord action k v vm w] assms(3)
    by (auto split: if_splits intro: conforms_value_conforms.null)
  then show ?thesis using legend_after_field [OF assms(2) w] by simp
qed

text \<open>
  C7. Unknown fields are strained out and no others: a field is in the accepted document
  exactly when it was in the input and the legend defines it.
\<close>

theorem validate_strains:
  assumes "wf_map input" and "ValidateWithSchema ext ord input schema action = Val (None, out)"
    and "map_index schema ''legend'' = GMap legend"
  shows "map_get out k \<noteq> None \<longleftrightarrow> map_get input k \<noteq> None \<and> (\<exists>vm. map_index legend k = GMap vm)"
proof -
  from assms have ok: "\<forall>e \<in> set (entries input). legend.ok ext ord legend action e"
    and out: "ValidateWithLegend ext ord input legend action = Val (None, out)"
    by (auto simp: ValidateWithSchema_ok ValidateWithLegend_ok)
  have get: "map_get out k = (case map_get input k of None \<Rightarrow> None
      | Some v \<Rightarrow> map_option snd (legend.after ext ord legend action (k, v)))"
    using legend.lookup_after(1) [OF assms(1)] out unfolding ValidateWithLegend.simps by blast
  show ?thesis
  proof (cases "map_get input k")
    case (Some v)
    then have "legend.ok ext ord legend action (k, v)"
      using ok by (auto simp: map_get_def dest: map_of_SomeD)
    then show ?thesis
      using Some get legend_after_unknown [of legend k ext ord action v]
      by (cases "\<exists>vm. map_index legend k = GMap vm") (auto simp: legend_ok_iff legend_after_field)
  qed (simp add: get)
qed

lemma accepted_conforms:
  "wf_val (GMap input) \<Longrightarrow>
   ValidateWithSchema ext ord input schema action = Val (None, out) \<Longrightarrow> conforms action schema out"
proof (induction schema arbitrary: input out rule: schema_induct)
  case (schema schema)
  note wf = wf_val_map [OF schema.prems(1)]
  from schema.prems wf obtain rf ro legend where req: "requirements schema action = Val (rf, ro)"
    and leg: "map_index schema ''legend'' = GMap legend"
    and fields: "\<forall>f \<in> set rf. map_get input f \<noteq> None"
    and ok: "\<forall>e \<in> set (entries input). legend.ok ext ord legend action e"
    and out: "ValidateWithLegend ext ord input legend action = Val (None, out)"
    by (auto simp: ValidateWithSchema_ok ValidateWithLegend_ok)
  have get: "map_get out k = (case map_get input k of None \<Rightarrow> None
      | Some v \<Rightarrow> map_option snd (legend.after ext ord legend action (k, v)))" for k
    using legend.lookup_after(1) [OF wf] out unfolding ValidateWithLegend.simps by blast
  have after: "\<exists>v'. legend.after ext ord legend action (k, v) = Some (k, v') \<and> value_conforms action vm v'"
    if "map_get input k = Some v" "map_index legend k = GMap vm" for k v vm
  proof (rule after_conforms [OF _ that(2)])
    from that(1) have kv: "(k, v) \<in> set (entries input)" by (auto simp: map_get_def dest: map_of_SomeD)
    then show "legend.ok ext ord legend action (k, v)" using ok by blast
    fix sub m m'
    assume sub: "map_index vm ''sub_type'' = GMap sub" and v: "v = GMap m"
      and val: "ValidateWithSchema ext ord m sub action = Val (None, m')"
    have "subschema sub schema" using leg that(2) sub by (auto simp: subschema_def)
    moreover have "wf_val (GMap m)" using wf_val_entry [OF schema.prems(1) kv] v by simp
    ultimately show "conforms action sub m'" using schema.IH [of sub m m'] val by blast
  qed
  show ?case
  proof (rule conforms_value_conforms.document [OF req leg])
    fix k v' assume k: "map_get out k = Some v'"
    then obtain v where v: "map_get input k = Some v"
      and "legend.after ext ord legend action (k, v) \<noteq> None" by (auto simp: get split: option.splits)
    then obtain vm where "map_index legend k = GMap vm"
      using legend_after_unknown [of legend k ext ord action v]
      by (cases "\<exists>vm. map_index legend k = GMap vm") auto
    with after [OF v] k show "\<exists>vm. map_index legend k = GMap vm \<and> value_conforms action vm v'"
      by (auto simp: get v)
  next
    fix f vm assume f: "f \<in> set rf" and vm: "map_index legend f = GMap vm"
    then obtain v where v: "map_get input f = Some v" using fields by blast
    from after [OF v vm] show "map_get out f \<noteq> None" by (auto simp: get v)
  qed
qed

text \<open>
  C1. A document that ValidateWithSchema accepts has, afterwards, the shape the schema
  describes: every field that is left is one the legend knows and has the value its
  definition asks for (a parsed UUID, a string of the listed values and of the allowed
  length in characters, a 64-bit integer, a boolean, an array, a nested document that
  conforms in turn, or a null that is allowed), and every required field the legend knows is
  there.
\<close>

theorem validate_sound:
  assumes "wf_val (GMap input)" and "ValidateWithSchema ext ord input schema action = Val (None, out)"
  shows "conforms action schema out"
  using assms by (rule accepted_conforms)

section \<open>Iteration order\<close>

lemma field_accepts_order:
  assumes "field_accepts ext ord1 action k v vm w"
    and "\<And>m sub m'. v = GMap m \<Longrightarrow> map_index vm ''sub_type'' = GMap sub \<Longrightarrow>
      ValidateWithSchema ext ord1 m sub action = Val (None, m') \<Longrightarrow>
      ValidateWithSchema ext ord2 m sub action = Val (None, m')"
  shows "field_accepts ext ord2 action k v vm w"
  using assms unfolding field_accepts_def
  by (auto split: option.splits gval.splits kind.splits)

lemma accepted_any_order:
  "wf_val (GMap input) \<Longrightarrow>
   ValidateWithSchema ext ord1 input schema action = Val (None, out) \<Longrightarrow>
   ValidateWithSchema ext ord2 input schema action = Val (None, out)"
proof (induction schema arbitrary: input out rule: schema_induct)
  case (schema schema)
  note wf = wf_val_map [OF schema.prems(1)]
  have same: "validate_field ext ord2 action k v vm = Val (None, w)"
    if kv: "(k, v) \<in> set (entries input)" and leg: "map_index schema ''legend'' = GMap legend"
      and vm: "map_index legend k = GMap vm"
      and "validate_field ext ord1 action k v vm = Val (None, w)" for legend k v vm w
  proof -
    have nested: "ValidateWithSchema ext ord2 m sub action = Val (None, m')"
      if v: "v = GMap m" and sub: "map_index vm ''sub_type'' = GMap sub"
        and val: "ValidateWithSchema ext ord1 m sub action = Val (None, m')" for m sub m'
    proof -
      have "subschema sub schema" using leg vm sub by (auto simp: subschema_def)
      moreover have "wf_val (GMap m)" using wf_val_entry [OF schema.prems(1) kv] v by simp
      ultimately show ?thesis using schema.IH [of sub m m'] val by blast
    qed
    from that(4) show ?thesis
      using field_accepts_order [of ext ord1 action k v vm w ord2] nested
      by (auto simp: validate_field_ok split: if_splits)
  qed
  have step: "legend.ok ext ord2 legend action e \<and>
      legend.after ext ord2 legend action e = legend.after ext ord1 legend action e"
    if mem: "e \<in> set (entries input)" and leg: "map_index schema ''legend'' = GMap legend"
      and ok1: "legend.ok ext ord1 legend action e" for legend e
  proof -
    obtain k v where e: "e = (k, v)" by (cases e)
    show ?thesis
    proof (cases "\<exists>vm. map_index legend k = GMap vm")
      case True
      then obtain vm w where vm: "map_index legend k = GMap vm"
        and w: "validate_field ext ord1 action k v vm = Val (None, w)"
        using ok1 by (auto simp: e legend_ok_iff)
      from same [OF _ leg vm w] mem have "validate_field ext ord2 action k v vm = Val (None, w)"
        by (simp add: e)
      with vm w show ?thesis by (simp add: e legend_ok_iff legend_after_field [OF vm])
    next
      case False
      then show ?thesis by (simp add: e legend_ok_iff legend_after_unknown)
    qed
  qed
  from schema.prems(2) obtain rf ro legend where req: "requirements schema action = Val (rf, ro)"
    and leg: "map_index schema ''legend'' = GMap legend"
    and "\<forall>f \<in> set rf. map_get input f \<noteq> None"
    and "ro \<longrightarrow> (\<exists>k. map_get legend k \<noteq> None \<and> k \<notin> set rf \<and> map_get input k \<noteq> None)"
    and ok: "\<forall>e \<in> set (entries input). legend.ok ext ord1 legend action e"
    and out: "out = map_option (List.map_filter (legend.after ext ord1 legend action)) input"
    unfolding ValidateWithSchema_ok [OF wf] by blast
  moreover have "out = map_option (List.map_filter (legend.after ext ord2 legend action)) input"
    using out step leg ok by (cases input) (auto intro!: map_filter_cong)
  ultimately show ?case
    unfolding ValidateWithSchema_ok [OF wf] using step leg by blast
qed

text \<open>
  C19. Whether a document is accepted, and what it becomes, does not depend on the order in
  which Go visits the maps.
\<close>

theorem validate_order_independent:
  assumes "wf_val (GMap input)"
  shows "ValidateWithSchema ext ord1 input schema action = Val (None, out) \<longleftrightarrow>
         ValidateWithSchema ext ord2 input schema action = Val (None, out)"
  using accepted_any_order [OF assms] by blast

section \<open>Schemas that are checked without a panic\<close>

definition safe_string :: "gmap \<Rightarrow> bool" where
  "safe_string vm = (case map_get vm ''additional_validation'' of
     None \<Rightarrow> True
   | Some GNil \<Rightarrow> False
   | Some (GMap a) \<Rightarrow>
       (case map_get a ''enum'' of
          None \<Rightarrow> True
        | Some (GSlice vs) \<Rightarrow> list_all (\<lambda>v. case v of GString _ \<Rightarrow> True | _ \<Rightarrow> False) vs
        | Some _ \<Rightarrow> False) \<and>
       (case map_index a ''length'' of
          GSlice [x] \<Rightarrow> x \<noteq> GNil \<and> (case x of GFloat _ \<Rightarrow> False | _ \<Rightarrow> True)
        | GSlice [lo, hi] \<Rightarrow> lo \<noteq> GNil \<and> hi \<noteq> GNil
        | _ \<Rightarrow> True)
   | Some _ \<Rightarrow> True)"

definition safe_field :: "gmap \<Rightarrow> bool" where
  "safe_field vm = (map_get vm ''null_ok'' \<noteq> Some GNil \<and>
     (case map_get vm ''type'' of
        None \<Rightarrow> True
      | Some (GKind KString) \<Rightarrow> safe_string vm
      | Some (GKind KSlice) \<Rightarrow> map_get vm ''sub_type'' = None
      | Some (GKind k) \<Rightarrow> True
      | Some _ \<Rightarrow> False))"

definition safe_settings :: "gval \<Rightarrow> bool" where
  "safe_settings v = (case v of
     GMap r \<Rightarrow> (case map_index r ''fields'' of GStrings _ \<Rightarrow> True | _ \<Rightarrow> False) \<and>
               (case map_index r ''require_an_optional'' of GBool _ \<Rightarrow> True | _ \<Rightarrow> False)
   | _ \<Rightarrow> False)"

definition safe_required :: "gval \<Rightarrow> bool" where
  "safe_required v = (case v of
     GMap rf \<Rightarrow> map_get rf ''default'' \<noteq> None \<and> list_all (\<lambda>e. safe_settings (snd e)) (entries rf)
   | _ \<Rightarrow> False)"

text \<open>A nested section is safe as well wherever a field of type hashmap has one.\<close>

inductive safe_schema :: "gmap \<Rightarrow> bool" where
  "safe_required (map_index schema ''required_fields'') \<Longrightarrow>
   map_index schema ''legend'' = GMap legend \<Longrightarrow>
   (\<And>k vm. map_index legend k = GMap vm \<Longrightarrow> safe_field vm) \<Longrightarrow>
   (\<And>k vm. map_index legend k = GMap vm \<Longrightarrow> map_get vm ''type'' = Some (GKind KMap) \<Longrightarrow>
      \<exists>sub. map_index vm ''sub_type'' = GMap sub \<and> safe_schema sub) \<Longrightarrow>
   safe_schema schema"

lemma check_enum_total:
  assumes "safe_string vm" "map_get vm ''additional_validation'' = Some (GMap a)"
  shows "\<exists>e. check_enum k s a = Val e"
proof (cases "map_get a ''enum''")
  case (Some v)
  then obtain vs where v: "v = GSlice vs" and "list_all (\<lambda>v. case v of GString _ \<Rightarrow> True | _ \<Rightarrow> False) vs"
    using assms by (auto simp: safe_string_def split: gval.splits)
  then have "\<exists>ss. string_elements vs = Val ss"
  proof (induction vs arbitrary: v)
    case (Cons x vs)
    then obtain ss where "string_elements vs = Val ss" by auto
    with Cons.prems show ?case by (cases x) auto
  qed simp
  with Some v show ?thesis by (auto simp: check_enum_def Let_def)
qed (simp add: check_enum_def)

lemma kind_of_total: "v \<noteq> GNil \<Longrightarrow> \<exists>k. kind_of v = Val k"
  by (cases v) auto

lemma check_bounds_total:
  assumes "lo \<noteq> GNil" "hi \<noteq> GNil"
  shows "\<exists>e. check_bounds k s lo hi = Val e"
  using assms by (cases lo; cases hi) (auto simp: check_bounds_def Let_def)

lemma check_length_total:
  assumes "safe_string vm" "map_get vm ''additional_validation'' = Some (GMap a)"
  shows "\<exists>e. check_length k s a = Val e"
proof (cases "map_index a ''length''")
  case (GSlice spec)
  consider "spec = []" | x where "spec = [x]" | lo hi where "spec = [lo, hi]"
    | x y z zs where "spec = x # y # z # zs" by (metis neq_Nil_conv)
  then show ?thesis
  proof cases
    case (2 x)
    with GSlice assms have "x \<noteq> GNil" "\<nexists>n. x = GFloat n"
      by (auto simp: safe_string_def)
    with 2 GSlice show ?thesis by (cases x) (auto simp: check_length_def)
  next
    case (3 lo hi)
    with GSlice assms have "lo \<noteq> GNil" "hi \<noteq> GNil" by (auto simp: safe_string_def)
    with 3 GSlice check_bounds_total [of lo hi k s] show ?thesis by (simp add: check_length_def)
  qed (use GSlice in \<open>auto simp: check_length_def\<close>)
qed (auto simp: check_length_def)

lemma check_string_total:
  assumes "safe_string vm"
  shows "\<exists>r. check_string ext k s vm = Val r"
proof (cases "map_get vm ''additional_validation''")
  case (Some v)
  show ?thesis
  proof (cases v)
    case (GMap a)
    obtain e1 e2 where "check_enum k s a = Val e1" "check_length k s a = Val e2"
      using check_enum_total check_length_total assms Some GMap by blast
    then show ?thesis using Some GMap by (cases e1) (auto simp: check_string_def)
  qed (use assms Some in \<open>auto simp: check_string_def safe_string_def split: sum.split\<close>)
qed (simp add: check_string_def)

lemma null_ok_total: "map_get vm ''null_ok'' \<noteq> Some GNil \<Longrightarrow> \<exists>b. null_ok vm = Val b"
proof (cases "map_get vm ''null_ok''")
  case (Some v)
  assume "map_get vm ''null_ok'' \<noteq> Some GNil"
  with Some show ?thesis by (cases v) (auto simp: null_ok_def)
qed (auto simp: null_ok_def)

lemma validate_field_total:
  assumes "safe_field vm"
    and "\<And>m. map_get vm ''type'' = Some (GKind KMap) \<Longrightarrow> v = GMap m \<Longrightarrow>
      \<exists>sub r. map_index vm ''sub_type'' = GMap sub \<and> ValidateWithSchema ext ord m sub action = Val r"
  shows "\<exists>r. validate_field ext ord action k v vm = Val r"
proof (cases "map_get vm ''type''")
  case (Some ty)
  obtain n where n: "null_ok vm = Val n" using assms(1) null_ok_total by (auto simp: safe_field_def)
  show ?thesis
  proof (cases "v = GNil")
    case False
    obtain kd where ty: "ty = GKind kd"
      using assms(1) Some by (auto simp: safe_field_def split: gval.splits)
    show ?thesis
    proof (cases kd)
      case KString
      then have "safe_string vm" using assms(1) Some ty by (simp add: safe_field_def)
      then show ?thesis
      proof (cases v)
        case (GString s)
        obtain r where "check_string ext k s vm = Val r" using check_string_total \<open>safe_string vm\<close> by blast
        then show ?thesis using Some n ty KString GString
          by (cases "fst r") (auto simp: validate_field.simps)
      qed (use Some n ty KString False in \<open>auto simp: validate_field.simps\<close>)
    next
      case KInt64
      show ?thesis
      proof (cases v)
        case (GString s)
        with KInt64 Some n ty show ?thesis
          by (cases "ParseInt s") (auto simp: validate_field.simps)
      qed (use KInt64 Some n ty False in \<open>auto simp: validate_field.simps\<close>)
    next
      case KMap
      then show ?thesis
        using Some n ty False assms(2) by (cases v) (auto simp: validate_field.simps)
    next
      case KSlice
      then have "map_get vm ''sub_type'' = None" using assms(1) Some ty by (simp add: safe_field_def)
      then show ?thesis using Some n ty KSlice False by (cases v) (auto simp: validate_field.simps)
    next
      case KBool
      then show ?thesis using Some n ty False by (cases v) (auto simp: validate_field.simps)
    qed (use Some n ty False in \<open>auto simp: validate_field.simps\<close>)
  qed (use Some n in \<open>auto simp: validate_field.simps\<close>)
qed (simp add: validate_field.simps)

lemma requirements_total:
  assumes "safe_required (map_index schema ''required_fields'')"
  shows "\<exists>r. requirements schema action = Val r"
proof -
  from assms obtain rf where rf: "map_index schema ''required_fields'' = GMap rf"
    and d: "map_get rf ''default'' \<noteq> None" and all: "\<forall>e \<in> set (entries rf). safe_settings (snd e)"
    by (auto simp: safe_required_def list_all_iff split: gval.splits)
  have "safe_settings v" if "map_get rf a = Some v" for a v
    using all that by (auto simp: map_get_def dest!: map_of_SomeD)
  moreover have "\<exists>a. map_get rf a = Some (case map_get rf action of Some v \<Rightarrow> v | None \<Rightarrow> map_index rf ''default'')"
    using d by (cases "map_get rf action") (auto simp: map_index_def)
  ultimately have "safe_settings (case map_get rf action of Some v \<Rightarrow> v | None \<Rightarrow> map_index rf ''default'')"
    by blast
  then show ?thesis
    by (auto simp: requirements_def rf safe_settings_def split: gval.splits)
qed

lemma validate_total:
  "safe_schema schema \<Longrightarrow> \<exists>r. ValidateWithSchema ext ord input schema action = Val r"
proof (induction schema arbitrary: input rule: safe_schema.induct)
  case (1 schema legend)
  obtain rf ro where req: "requirements schema action = Val (rf, ro)"
    using requirements_total [OF 1(1)] by (metis prod.exhaust)
  have step: "\<exists>r. legend_step ext ord legend action e = Val r" for e
  proof (cases e)
    case (Pair k v)
    show ?thesis
    proof (cases "map_index legend k")
      case (GMap vm)
      have "\<exists>r. validate_field ext ord action k v vm = Val r"
      proof (rule validate_field_total)
        show "safe_field vm" using 1(3) GMap by blast
        show "\<exists>sub r. map_index vm ''sub_type'' = GMap sub \<and> ValidateWithSchema ext ord m sub action = Val r"
          if "map_get vm ''type'' = Some (GKind KMap)" for m
          using 1(4) [OF GMap that] by blast
      qed
      then show ?thesis using Pair GMap by (auto simp: legend_step_apply)
    qed (auto simp: Pair legend_step_apply)
  qed
  have loop: "\<exists>r. ValidateWithLegend ext ord input legend action = Val r"
    unfolding ValidateWithLegend.simps
    by (cases input) (simp, use legend.loop_total step in blast)
  show ?case
    unfolding ValidateWithSchema_requirements req
    using loop 1(2) by (auto split: option.split)
qed

theorem validate_no_panic:
  assumes "safe_schema schema"
  shows "\<not> panics (ValidateWithSchema ext ord input schema action)"
  using validate_total [OF assms] by (simp add: not_panics)

end
