(* ===== verification/Validation_Init.thy ===== *)
theory Validation_Init
  imports Validation_Safety
begin

text \<open>
  What \<open>InitSchema\<close> makes of a schema: every action's settings are the sections \<open>initial\<close>, the
  action's own and \<open>all\<close> together, every legend entry has its kind, and nested sections are
  prepared too (\<open>prepared\<close>). A prepared schema is refused when it is prepared again.
\<close>

section \<open>Merging the settings of an action\<close>

definition fields_of :: "gmap \<Rightarrow> string set" where
  "fields_of m = (case map_get m ''fields'' of Some (GSlice fs) \<Rightarrow> {s. GString s \<in> set fs} | _ \<Rightarrow> {})"

definition optional_of :: "gmap \<Rightarrow> bool \<Rightarrow> bool" where
  "optional_of m r = (case map_get m ''require_an_optional'' of Some (GBool b) \<Rightarrow> b | _ \<Rightarrow> r)"

lemma add_fields_Val:
  "add_fields fs (Some f) = Val g \<longleftrightarrow>
     (\<exists>ss. fs = map GString ss \<and> g = Some (fold (\<lambda>s. AList.update s GNil) ss f))"
proof (induction fs arbitrary: f)
  case (Cons a fs)
  then show ?case by (cases a) (auto simp: obind_eq_Val, (metis fold_simps(2) list.simps(9))+)
qed auto

lemma fold_update_keys:
  "fst ` set (fold (\<lambda>s. AList.update s GNil) ss f) = fst ` set f \<union> set ss"
  "distinct (map fst f) \<Longrightarrow> distinct (map fst (fold (\<lambda>s. AList.update s GNil) ss f))"
  by (induction ss arbitrary: f) (auto simp: keys_update)

lemma updatefieldList_Val:
  assumes "updatefieldList fd r (Some f) = Val (r', f')"
  shows "r' = optional_of fd r"
    and "\<exists>g. f' = Some g \<and> fst ` set g = fst ` set f \<union> fields_of fd \<and>
             (distinct (map fst f) \<longrightarrow> distinct (map fst g))"
proof -
  show "r' = optional_of fd r"
    using assms by (auto simp: updatefieldList_def optional_of_def obind_eq_Val as_bool_Val split: option.splits)
  consider "f' = Some f" "map_get fd ''fields'' = None"
    | ss where "map_get fd ''fields'' = Some (GSlice (map GString ss))"
        "f' = Some (fold (\<lambda>s. AList.update s GNil) ss f)"
    using assms
    by (auto simp: updatefieldList_def obind_eq_Val as_slice_Val add_fields_Val split: option.splits)
  then show "\<exists>g. f' = Some g \<and> fst ` set g = fst ` set f \<union> fields_of fd \<and>
             (distinct (map fst f) \<longrightarrow> distinct (map fst g))"
    by cases (auto simp: fields_of_def fold_update_keys)
qed

lemma merge_action_Val:
  assumes "merge_action ord ini all cfg = Val fd"
  shows "\<exists>fl. fd = Some [(''fields'', GStrings fl),
           (''require_an_optional'', GBool (optional_of all (optional_of cfg (optional_of ini False))))] \<and>
           set fl = fields_of ini \<union> fields_of cfg \<union> fields_of all \<and> distinct fl"
proof -
  from assms obtain r1 f1 r2 f2 r3 f3 where
    u1: "updatefieldList ini False (Some []) = Val (r1, f1)"
    and u2: "updatefieldList cfg r1 f1 = Val (r2, f2)"
    and u3: "updatefieldList all r2 f2 = Val (r3, f3)"
    and fd: "fd = Some [(''fields'', GStrings (map fst (range_over ord ''processRequiredFields.fieldFilter'' f3))),
              (''require_an_optional'', GBool r3)]"
    by (auto simp: merge_action_def obind_eq_Val setKey_Some Let_def)
  obtain g1 where g1: "f1 = Some g1" "fst ` set g1 = fields_of ini" "distinct (map fst g1)"
    using updatefieldList_Val(2) [OF u1] by auto
  obtain g2 where g2: "f2 = Some g2" "fst ` set g2 = fields_of ini \<union> fields_of cfg" "distinct (map fst g2)"
    using updatefieldList_Val(2) [OF u2 [unfolded g1(1)]] g1 by auto
  obtain g3 where g3: "f3 = Some g3" "fst ` set g3 = fields_of ini \<union> fields_of cfg \<union> fields_of all"
    "distinct (map fst g3)"
    using updatefieldList_Val(2) [OF u3 [unfolded g2(1)]] g2 by auto
  have "r3 = optional_of all (optional_of cfg (optional_of ini False))"
    using updatefieldList_Val(1) [OF u1] updatefieldList_Val(1) [OF u2 [unfolded g1(1)]]
      updatefieldList_Val(1) [OF u3 [unfolded g2(1)]] by simp
  with fd g3 show ?thesis by (auto simp: distinct_range_over)
qed

section \<open>The loops of InitSchema\<close>

definition merge_step ::
    "range_order \<Rightarrow> gmap \<Rightarrow> gmap \<Rightarrow> string \<times> gval \<Rightarrow> (goerror option \<times> entry_change) outcome" where
  "merge_step ord ini all = (\<lambda>(action, config).
     obind (as_map config) (\<lambda>cfg. obind (merge_action ord ini all cfg) (\<lambda>fd.
       Val (None, Some (Some (GMap fd))))))"

lemma merge_step_apply:
  "merge_step ord ini all (action, config) =
     obind (as_map config) (\<lambda>cfg. obind (merge_action ord ini all cfg) (\<lambda>fd.
       Val (None, Some (Some (GMap fd)))))"
  by (simp add: merge_step_def)

interpretation merge: rewrite_loop "merge_step ord ini all"
  "\<lambda>es m. obind (merge_actions ord ini all es m) (\<lambda>m'. Val (None, m'))" for ord ini all
  by unfold_locales (simp_all add: merge_step_apply obind_assoc apply_change_def)

definition prepare_step ::
    "range_order \<Rightarrow> string \<Rightarrow> string \<times> gval \<Rightarrow> (goerror option \<times> entry_change) outcome" where
  "prepare_step ord subsectionName = (\<lambda>(fieldName, td).
     obind (kind_of td) (\<lambda>k.
     if k \<noteq> KMap then
       Val (Some (ErrorString (''Invalid type definition map for field '' @ fieldName @
              '' in section '' @ subsectionName)), None)
     else
     obind (as_map td) (\<lambda>typeDefinition.
     case map_get typeDefinition ''type'' of
       None \<Rightarrow> Val (Some (ErrorString (''Field '' @ fieldName @
                 '' does not have 'type' in its definition'')), None)
     | Some ft \<Rightarrow>
     obind (as_string ft) (\<lambda>fieldType.
     case type_kind fieldType of
       None \<Rightarrow> Val (Some (ErrorString (''Unhandled validation type '' @ fieldType @ '' in '' @
                 fieldName @ '' in section '' @ subsectionName)), None)
     | Some kd \<Rightarrow>
     obind (map_store typeDefinition ''type'' (GKind kd)) (\<lambda>td1.
     obind (if kd = KSlice then check_array subsectionName fieldName td1 else Val None) (\<lambda>err.
     case err of
       Some e \<Rightarrow> Val (Some e, Some (Some (GMap td1)))
     | None \<Rightarrow>
     (case map_get td1 ''sub_type'' of
       None \<Rightarrow> Val (None, Some (Some (GMap td1)))
     | Some st \<Rightarrow>
       if kd = KSlice \<or> kd = KMap then
         obind (as_map st) (\<lambda>sub.
         obind (parseSubSection ord fieldName sub) (\<lambda>r.
         obind (map_store td1 ''sub_type'' (GMap (snd r))) (\<lambda>td2.
           Val (fst r, Some (Some (GMap td2))))))
       else Val (None, Some (Some (GMap td1))))))))))"

lemmas prepare_step_apply = prepare_step_def [THEN fun_cong, of ord name "(k, td)" for ord name k td,
  unfolded prod.case]

lemma processLegend_step:
  "processLegend_loop ord name ((fieldName, td) # es) (Some d) =
     obind (prepare_step ord name (fieldName, td)) (\<lambda>r. obind (apply_change (snd r) fieldName (Some d)) (\<lambda>m'.
       case fst r of Some e \<Rightarrow> Val (Some e, m') | None \<Rightarrow> processLegend_loop ord name es m'))"
  (is "?l = ?r")
proof -
  note unfold = prepare_step_apply processLegend_loop.simps(2) apply_change_def
  consider "\<nexists>a. td = GMap (Some a)" | a where "td = GMap (Some a)" "map_of a ''type'' = None"
    | a x where "td = GMap (Some a)" "map_of a ''type'' = Some x" "\<nexists>t kd. x = GString t \<and> type_kind t = Some kd"
    | a t kd where "td = GMap (Some a)" "map_of a ''type'' = Some (GString t)" "type_kind t = Some kd"
    by (metis not_None_eq)
  then show ?thesis
  proof cases
    case 1
    then show ?thesis by (cases td) (auto simp: unfold)
  next
    case 2
    then show ?thesis by (simp add: unfold)
  next
    case (3 a x)
    then show ?thesis by (cases x) (auto simp: unfold)
  next
    case (4 a t kd)
    let ?td1 = "Some (AList.update ''type'' (GKind kd) a)"
    show ?thesis
    proof (cases "if kd = KSlice then check_array name fieldName ?td1 else Val None")
      case (Val err)
      show ?thesis
      proof (cases "err = None \<and> (kd = KSlice \<or> kd = KMap)")
        case True
        show ?thesis
        proof (cases "map_of a ''sub_type''")
          case (Some st)
          show ?thesis
          proof (cases st)
            case (GMap sub)
            with 4 Val True Some show ?thesis
              by (cases "parseSubSection ord fieldName sub") (auto simp: unfold split: option.split)
          qed (use 4 Val True Some in \<open>auto simp: unfold\<close>)
        qed (use 4 Val True in \<open>auto simp: unfold\<close>)
      next
        case False
        with 4 Val show ?thesis by (auto simp: unfold split: option.split)
      qed
    qed (use 4 in \<open>simp add: unfold\<close>)
  qed
qed

interpretation prepare: rewrite_loop "prepare_step ord name" "processLegend_loop ord name" for ord name
  by unfold_locales (simp_all only: processLegend_step processLegend_loop.simps(1))

section \<open>Prepared sections\<close>

lemma processRequiredFields_None:
  assumes "wf_map rf"
  shows "processRequiredFields ord name rf = Val (None, out) \<longleftrightarrow>
    (\<exists>ini all. map_get rf ''initial'' = Some (GMap ini) \<and> map_get rf ''all'' = Some (GMap all) \<and>
       (\<forall>e \<in> set (entries (map_delete rf ''_comment'')). check_action ord name e = Val None) \<and>
       (let rf3 = map_delete (map_delete (map_delete rf ''_comment'') ''initial'') ''all'' in
         (\<forall>e \<in> set (entries rf3). merge.ok ord ini all e) \<and>
         out = map_option (List.map_filter (merge.after ord ini all)) rf3))"
proof -
  let ?rf1 = "map_delete rf ''_comment''"
  let ?rf3 = "map_delete (map_delete ?rf1 ''initial'') ''all''"
  have loop: "((\<forall>e \<in> set (entries ?rf3). merge.ok ord ini all e) \<and>
        out = map_option (List.map_filter (merge.after ord ini all)) ?rf3) \<longleftrightarrow>
      merge_actions ord ini all (range_over ord ''processRequiredFields.merge'' ?rf3) ?rf3 = Val out" for ini all
    using merge.loop_over_map [of ?rf3 ord ini all ord "''processRequiredFields.merge''" out] assms
    by (simp add: obind_eq_Val)
  show ?thesis
    unfolding processRequiredFields_def Let_def loop
    by (auto simp: obind_eq_Val as_map_Val map_index_def first_error_ok split: option.splits if_splits)
qed

lemma first_missing_None:
  "first_error (\<lambda>v. case map_get s v of
        None \<Rightarrow> Val (Some (ErrorString (''Legend field '' @ v @ '' is required'')))
      | Some x \<Rightarrow> obind (kind_of x) (\<lambda>k. Val (if k \<noteq> KMap then
          Some (ErrorString (''Legend field '' @ v @ '' is required'')) else None)))
      [''legend'', ''required_fields''] = Val None \<longleftrightarrow>
   (\<exists>legend rf. map_get s ''legend'' = Some (GMap legend) \<and> map_get s ''required_fields'' = Some (GMap rf))"
  by (auto simp: first_error_ok obind_eq_Val kind_of_cases split: option.splits)

lemma parseSubSection_None:
  "parseSubSection ord name s = Val (None, out) \<longleftrightarrow>
    (\<exists>d legend rf legend' rf'. s = Some d \<and> map_of d ''legend'' = Some (GMap legend) \<and>
       map_of d ''required_fields'' = Some (GMap rf) \<and>
       processRequiredFields ord name rf = Val (None, rf') \<and>
       processLegend ord name legend = Val (None, legend') \<and>
       out = Some (AList.update ''legend'' (GMap legend') (AList.update ''required_fields'' (GMap rf') d)))"
proof (cases "\<exists>legend rf. map_get s ''legend'' = Some (GMap legend) \<and> map_get s ''required_fields'' = Some (GMap rf)")
  case True
  then obtain d legend rf where s: "s = Some d" and "map_of d ''legend'' = Some (GMap legend)"
    "map_of d ''required_fields'' = Some (GMap rf)" by (cases s) auto
  with True first_missing_None [of s] show ?thesis
    by (auto simp: parseSubSection.simps map_index_def obind_eq_Val split: option.splits)
next
  case False
  then show ?thesis
    unfolding parseSubSection.simps obind_eq_Val
    using first_missing_None [of s] by (cases s) (auto split: option.splits)
qed

lemma processLegend_None:
  assumes "wf_map legend"
  shows "processLegend ord name legend = Val (None, out) \<longleftrightarrow>
    (\<forall>e \<in> set (entries legend). prepare.ok ord name e) \<and>
    out = map_option (List.map_filter (prepare.after ord name)) legend"
  unfolding processLegend.simps by (rule prepare.loop_over_map [OF assms])

text \<open>The settings of an action after the preparation.\<close>

lemma merged_settings:
  assumes "wf_map rf" and "processRequiredFields ord name rf = Val (None, out)"
    and "map_get rf ''initial'' = Some (GMap ini)" and "map_get rf ''all'' = Some (GMap all)"
    and "map_get rf action = Some c" and "action \<notin> {''_comment'', ''initial'', ''all''}"
  shows "\<exists>cfg fl. c = GMap cfg \<and> map_get out action = Some (GMap (Some [(''fields'', GStrings fl),
           (''require_an_optional'', GBool (optional_of all (optional_of cfg (optional_of ini False))))])) \<and>
           set fl = fields_of ini \<union> fields_of cfg \<union> fields_of all \<and> distinct fl"
proof -
  let ?rf3 = "map_delete (map_delete (map_delete rf ''_comment'') ''initial'') ''all''"
  from assms(2-4) have ok: "\<forall>e \<in> set (entries ?rf3). merge.ok ord ini all e"
    and out: "out = map_option (List.map_filter (merge.after ord ini all)) ?rf3"
    unfolding processRequiredFields_None [OF assms(1)] by (auto simp: Let_def)
  have wf3: "wf_map ?rf3" using assms(1) by simp
  have "map_get ?rf3 action = Some c" using assms(5,6) by simp
  moreover have loop: "obind (merge_actions ord ini all (range_over ord site ?rf3) ?rf3) (\<lambda>m'. Val (None :: goerror option, m'))
      = Val (None, out)" for site
    by (subst merge.loop_over_map [OF wf3]) (use ok out in simp)
  ultimately have get: "map_get out action = map_option snd (merge.after ord ini all (action, c))"
    using merge.lookup_after(1) [OF wf3 loop, of action] by simp
  have "merge.ok ord ini all (action, c)"
    using ok \<open>map_get ?rf3 action = Some c\<close> by (auto simp: map_get_def dest: map_of_SomeD)
  then obtain cfg fd where c: "c = GMap cfg" and fd: "merge_action ord ini all cfg = Val fd"
    by (auto simp: merge.ok_iff merge_step_apply obind_eq_Val as_map_Val)
  then have "merge.after ord ini all (action, c) = Some (action, GMap fd)"
    by (simp add: merge.after_def merge_step_apply)
  with get c merge_action_Val [OF fd] show ?thesis by auto
qed

text \<open>
  C14. After InitSchema the requirements of an action are the union of the fields of the
  sections initial, the action itself and all, without repetition, and the flag
  require_an_optional of the last of them that sets it.
\<close>

theorem init_requirements:
  assumes "wf_val (GMap schema)" and "InitSchema ord schema = Val (None, schema')"
    and "map_get schema ''required_fields'' = Some (GMap rf)"
    and "map_get rf ''initial'' = Some (GMap ini)" and "map_get rf ''all'' = Some (GMap all)"
    and "map_get rf action = Some (GMap cfg)" and "action \<notin> {''_comment'', ''initial'', ''all''}"
  shows "\<exists>fl. requirements schema' action =
             Val (fl, optional_of all (optional_of cfg (optional_of ini False))) \<and>
           set fl = fields_of ini \<union> fields_of cfg \<union> fields_of all \<and> distinct fl"
proof -
  from assms(2,3) obtain d rf' legend' where d: "schema = Some d"
    and p: "processRequiredFields ord ''root'' rf = Val (None, rf')"
    and s': "schema' = Some (AList.update ''legend'' (GMap legend') (AList.update ''required_fields'' (GMap rf') d))"
    by (auto simp: InitSchema_def parseSubSection_None)
  have "wf_map rf" by (rule wf_val_map [OF wf_val_get [OF assms(1,3)]])
  from merged_settings [OF this p assms(4-7)] obtain fl where
    "map_get rf' action = Some (GMap (Some [(''fields'', GStrings fl),
       (''require_an_optional'', GBool (optional_of all (optional_of cfg (optional_of ini False))))]))"
    "set fl = fields_of ini \<union> fields_of cfg \<union> fields_of all" "distinct fl" by auto
  then show ?thesis by (auto simp: requirements_def s' map_index_def)
qed

section \<open>Prepared legends\<close>

lemma prepare_field:
  assumes "prepare.ok ord name (k, td)"
  shows "\<exists>a t kd a'. td = GMap (Some a) \<and> map_of a ''type'' = Some (GString t) \<and> type_kind t = Some kd \<and>
    prepare.after ord name (k, td) = Some (k, GMap (Some a')) \<and> map_of a' ''type'' = Some (GKind kd) \<and>
    (\<forall>x. x \<noteq> ''type'' \<longrightarrow> x \<noteq> ''sub_type'' \<longrightarrow> map_of a' x = map_of a x) \<and>
    (case map_of a ''sub_type'' of
       None \<Rightarrow> map_of a' ''sub_type'' = None
     | Some st \<Rightarrow>
         if kd = KSlice \<or> kd = KMap then
           \<exists>s s'. st = GMap s \<and> parseSubSection ord k s = Val (None, s') \<and>
             map_of a' ''sub_type'' = Some (GMap s')
         else map_of a' ''sub_type'' = Some st)"
proof -
  from assms obtain c where c: "prepare_step ord name (k, td) = Val (None, c)" by (auto simp: prepare.ok_iff)
  then obtain m where td: "td = GMap m"
    by (cases td) (auto simp: prepare_step_apply)
  with c obtain a where m: "m = Some a" by (cases m) (auto simp: prepare_step_apply)
  from c td m obtain t where t: "map_of a ''type'' = Some (GString t)"
    by (auto simp: prepare_step_apply obind_eq_Val as_string_Val split: option.splits)
  with c td m obtain kd where kd: "type_kind t = Some kd"
    by (auto simp: prepare_step_apply split: option.splits)
  let ?td1 = "AList.update ''type'' (GKind kd) a"
  have chk: "(if kd = KSlice then check_array name k (Some ?td1) else Val None) = Val None"
    using c td m t kd by (auto simp: prepare_step_apply obind_eq_Val split: option.splits if_splits)
  show ?thesis
  proof (cases "map_of a ''sub_type''")
    case None
    with c td m t kd chk show ?thesis
      by (intro exI [of _ a] exI [of _ t] exI [of _ kd] exI [of _ ?td1])
        (auto simp: prepare.after_def prepare_step_apply)
  next
    case (Some st)
    show ?thesis
    proof (cases "kd = KSlice \<or> kd = KMap")
      case True
      with c td m t kd chk Some obtain s s' where s: "st = GMap s"
        and s': "parseSubSection ord k s = Val (None, s')"
        by (fastforce simp: prepare_step_apply obind_eq_Val as_map_Val)
      with c td m t kd chk Some True show ?thesis
        by (intro exI [of _ a] exI [of _ t] exI [of _ kd]
            exI [of _ "AList.update ''sub_type'' (GMap s') ?td1"])
          (auto simp: prepare.after_def prepare_step_apply)
    next
      case False
      with c td m t kd chk Some show ?thesis
        by (intro exI [of _ a] exI [of _ t] exI [of _ kd] exI [of _ ?td1])
          (auto simp: prepare.after_def prepare_step_apply)
    qed
  qed
qed

lemma prepared_entry:
  assumes "wf_map legend" and "processLegend ord name legend = Val (None, legend')"
    and "map_get legend k = Some td"
  shows "prepare.ok ord name (k, td)"
    and "map_get legend' k = map_option snd (prepare.after ord name (k, td))"
proof -
  show "prepare.ok ord name (k, td)"
    using assms processLegend_None [OF assms(1)] by (auto simp: map_get_def dest: map_of_SomeD)
  show "map_get legend' k = map_option snd (prepare.after ord name (k, td))"
    using prepare.lookup_after(1) [OF assms(1)] assms(2,3) unfolding processLegend.simps by force
qed

lemma prepared_entry_none:
  assumes "wf_map legend" and "processLegend ord name legend = Val (None, legend')"
    and "map_get legend k = None"
  shows "map_get legend' k = None"
  using prepare.lookup_after(1) [OF assms(1)] assms(2,3) unfolding processLegend.simps by force

text \<open>The kinds of the type names, as a table.\<close>

lemma type_kind_iff:
  "type_kind t = Some KString \<longleftrightarrow> t = ''string''"
  "type_kind t = Some KSlice \<longleftrightarrow> t = ''array''"
  "type_kind t = Some KMap \<longleftrightarrow> t = ''hashmap''"
  by (auto simp: type_kind_def)

lemma type_kind_table:
  "type_kind t = Some kd \<Longrightarrow>
   (t, kd) \<in> {(''string'', KString), (''int'', KInt64), (''float'', KFloat64), (''bool'', KBool),
               (''array'', KSlice), (''hashmap'', KMap)}"
  by (simp add: type_kind_def split: if_splits)

lemma type_kind_sections: "type_kind t = Some kd \<Longrightarrow> kd = KSlice \<or> kd = KMap \<longleftrightarrow> t \<in> {''array'', ''hashmap''}"
  using type_kind_iff(2,3) [of t] by auto

text \<open>
  C32. After InitSchema the root legend has the same fields as before. Each of them has the
  kind that belongs to its type name (string, int, float, bool, array, hashmap), its
  section, if it is an array or a hashmap and has one, is prepared in turn without an error,
  and all its other settings are kept.
\<close>

theorem init_legend:
  assumes "wf_val (GMap schema)" and "InitSchema ord schema = Val (None, schema')"
    and "map_get schema ''legend'' = Some (GMap legend)"
  shows "\<exists>legend'. map_get schema' ''legend'' = Some (GMap legend') \<and>
    (\<forall>k. map_get legend k = None \<longrightarrow> map_get legend' k = None) \<and>
    (\<forall>k td. map_get legend k = Some td \<longrightarrow>
       (\<exists>a t kd a'. td = GMap (Some a) \<and> map_of a ''type'' = Some (GString t) \<and>
          (t, kd) \<in> {(''string'', KString), (''int'', KInt64), (''float'', KFloat64), (''bool'', KBool),
                      (''array'', KSlice), (''hashmap'', KMap)} \<and>
          map_get legend' k = Some (GMap (Some a')) \<and> map_of a' ''type'' = Some (GKind kd) \<and>
          (\<forall>x. x \<notin> {''type'', ''sub_type''} \<longrightarrow> map_of a' x = map_of a x) \<and>
          (if t \<in> {''array'', ''hashmap''} \<and> map_of a ''sub_type'' \<noteq> None
           then \<exists>s s'. map_of a ''sub_type'' = Some (GMap s) \<and> map_of a' ''sub_type'' = Some (GMap s') \<and>
             parseSubSection ord k s = Val (None, s')
           else map_of a' ''sub_type'' = map_of a ''sub_type'')))"
proof -
  from assms(2,3) obtain d legend' rf' where d: "schema = Some d"
    and p: "processLegend ord ''root'' legend = Val (None, legend')"
    and s': "schema' = Some (AList.update ''legend'' (GMap legend') (AList.update ''required_fields'' (GMap rf') d))"
    by (auto simp: InitSchema_def parseSubSection_None)
  have wf: "wf_map legend" by (rule wf_val_map [OF wf_val_get [OF assms(1,3)]])
  have "map_get schema' ''legend'' = Some (GMap legend')" by (simp add: s')
  then show ?thesis
  proof (intro exI [of _ legend'] conjI allI impI, goal_cases)
    case (2 k)
    show ?case by (rule prepared_entry_none [OF wf p 2(2)])
  next
    case (3 k td)
    note entry = prepared_entry [OF wf p 3(2)]
    from prepare_field [OF entry(1)] show ?case
    proof (elim exE conjE, goal_cases)
      case (1 a t kd a')
      have "map_get legend' k = Some (GMap (Some a'))" using entry(2) 1(4) by simp
      moreover have "if t \<in> {''array'', ''hashmap''} \<and> map_of a ''sub_type'' \<noteq> None
          then \<exists>s s'. map_of a ''sub_type'' = Some (GMap s) \<and> map_of a' ''sub_type'' = Some (GMap s') \<and>
            parseSubSection ord k s = Val (None, s')
          else map_of a' ''sub_type'' = map_of a ''sub_type''"
        using 1(7) unfolding type_kind_sections [OF 1(3)] by (cases "map_of a ''sub_type''") auto
      ultimately show ?case
        using 1(1,2,5,6) type_kind_table [OF 1(3)]
        by (intro exI [of _ a] exI [of _ t] exI [of _ kd] exI [of _ a'] conjI allI impI)
          (assumption | simp only: insert_iff de_Morgan_disj not_False_eq_True empty_iff)+
    qed
  qed
qed

text \<open>
  A prepared schema cannot be prepared again: InitSchema refuses it, because the
  special sections are gone.
\<close>

theorem init_twice:
  assumes "wf_val (GMap schema)" and "InitSchema ord schema = Val (None, schema')"
  shows "\<exists>schema''. InitSchema ord2 schema' = Val (Some (ErrorString
    ''Both 'all' and 'initial' must be defined in root: missing initial''), schema'')"
proof -
  from assms(2) obtain d legend rf legend' rf' where d: "schema = Some d"
    and rf: "map_of d ''required_fields'' = Some (GMap rf)"
    and p: "processRequiredFields ord ''root'' rf = Val (None, rf')"
    and s': "schema' = Some (AList.update ''legend'' (GMap legend') (AList.update ''required_fields'' (GMap rf') d))"
    by (auto simp: InitSchema_def parseSubSection_None)
  have "wf_map rf" using assms(1) d rf by (auto dest!: map_of_SomeD wf_val_entry [of "Some d"])
  then obtain ini all rf3 where "rf3 = map_delete (map_delete (map_delete rf ''_comment'') ''initial'') ''all''"
    and out: "rf' = map_option (List.map_filter (merge.after ord ini all)) rf3" and "wf_map rf3"
    using p by (auto simp: processRequiredFields_None Let_def)
  then have "map_get rf3 ''initial'' = None" by simp
  with out \<open>wf_map rf3\<close> have none: "map_get rf' ''initial'' = None"
    using map_of_map_filter [of "merge.after ord ini all"] merge.after_key by (cases rf3) auto
  have "\<exists>out. processRequiredFields ord2 ''root'' rf' = Val (Some (ErrorString
    ''Both 'all' and 'initial' must be defined in root: missing initial''), out)"
    using none by (simp add: processRequiredFields_def)
  then show ?thesis
    by (auto simp: s' InitSchema_def parseSubSection.simps map_index_def)
qed

section \<open>From a sane schema to a safe one\<close>

text \<open>What the file must say for the prepared schema to be safe.\<close>

definition sane_field :: "gmap \<Rightarrow> bool" where
  "sane_field td = (map_get td ''null_ok'' \<noteq> Some GNil \<and>
     (map_get td ''type'' = Some (GString ''string'') \<longrightarrow> safe_string td) \<and>
     (map_get td ''type'' = Some (GString ''array'') \<longrightarrow> map_get td ''sub_type'' = None))"

inductive sane_schema :: "gmap \<Rightarrow> bool" where
  "map_get schema ''required_fields'' = Some (GMap rf) \<Longrightarrow> map_get rf ''default'' \<noteq> None \<Longrightarrow>
   map_get schema ''legend'' = Some (GMap legend) \<Longrightarrow>
   (\<And>k td. map_get legend k = Some (GMap td) \<Longrightarrow> sane_field td) \<Longrightarrow>
   (\<And>k td. map_get legend k = Some (GMap td) \<Longrightarrow> map_get td ''type'' = Some (GString ''hashmap'') \<Longrightarrow>
      \<exists>sub. map_get td ''sub_type'' = Some (GMap sub) \<and> sane_schema sub) \<Longrightarrow>
   sane_schema schema"

lemma safe_string_cong:
  "map_get vm ''additional_validation'' = map_get vm' ''additional_validation'' \<Longrightarrow>
   safe_string vm = safe_string vm'"
  by (simp add: safe_string_def)

lemma merged_safe:
  assumes "wf_map rf" and "processRequiredFields ord name rf = Val (None, rf')"
    and "map_get rf ''default'' \<noteq> None"
  shows "safe_required (GMap rf')"
proof -
  from assms(2) obtain ini all where ia: "map_get rf ''initial'' = Some (GMap ini)" "map_get rf ''all'' = Some (GMap all)"
    and out: "rf' = map_option (List.map_filter (merge.after ord ini all))
        (map_delete (map_delete (map_delete rf ''_comment'') ''initial'') ''all'')"
    by (auto simp: processRequiredFields_None [OF assms(1)] Let_def)
  note merged = merged_settings [OF assms(1,2) ia]
  let ?rf3 = "map_delete (map_delete (map_delete rf ''_comment'') ''initial'') ''all''"
  have wf': "wf_map rf'"
    using processRequiredFields_None [OF assms(1), of ord name rf'] assms(2)
      merge.lookup_after(2) [of ?rf3 ord ini all] merge.loop_over_map [of ?rf3 ord ini all] assms(1) out ia
    by (auto simp: Let_def)
  have "safe_settings v" if "(k, v) \<in> set (entries rf')" for k v
  proof -
    from that wf' have kv: "map_get rf' k = Some v" by (simp add: map_get_def wf_map_def)
    then have "\<exists>c. map_get rf k = Some c \<and> k \<notin> {''_comment'', ''initial'', ''all''}"
      using out assms(1) map_of_map_filter [of "merge.after ord ini all"] merge.after_key
      by (cases rf) (auto split: option.splits if_splits)
    with merged kv obtain cfg fl where "v = GMap (Some [(''fields'', GStrings fl),
       (''require_an_optional'', GBool (optional_of all (optional_of cfg (optional_of ini False))))])"
      by fastforce
    then show ?thesis by (simp add: safe_settings_def map_index_def)
  qed
  moreover have "map_get rf' ''default'' \<noteq> None"
    using merged [of "''default''"] assms(3) by auto
  ultimately show ?thesis by (auto simp: safe_required_def list_all_iff)
qed

lemma prepared_safe:
  "sane_schema schema \<Longrightarrow> wf_val (GMap schema) \<Longrightarrow>
   parseSubSection ord name schema = Val (None, schema') \<Longrightarrow> safe_schema schema'"
proof (induction schema arbitrary: name schema' rule: sane_schema.induct)
  case (1 schema rf legend)
  from 1(1,3,7) obtain d legend' rf' where d: "schema = Some d"
    and p: "processRequiredFields ord name rf = Val (None, rf')"
    and l: "processLegend ord name legend = Val (None, legend')"
    and s': "schema' = Some (AList.update ''legend'' (GMap legend') (AList.update ''required_fields'' (GMap rf') d))"
    by (auto simp: parseSubSection_None)
  have wfl: "wf_val (GMap legend)" and "wf_map rf"
    using wf_val_get [OF 1(6) 1(3)] wf_val_map [OF wf_val_get [OF 1(6) 1(1)]] .
  have field: "\<exists>a t kd. map_get legend k = Some (GMap (Some a)) \<and> map_of a ''type'' = Some (GString t) \<and>
      type_kind t = Some kd \<and> map_get vm ''type'' = Some (GKind kd) \<and>
      (\<forall>x. x \<noteq> ''type'' \<longrightarrow> x \<noteq> ''sub_type'' \<longrightarrow> map_get vm x = map_of a x) \<and>
      (map_of a ''sub_type'' = None \<longrightarrow> map_get vm ''sub_type'' = None) \<and>
      (kd = KMap \<longrightarrow> (\<forall>s. map_of a ''sub_type'' = Some (GMap s) \<longrightarrow>
         (\<exists>s'. parseSubSection ord k s = Val (None, s') \<and> map_get vm ''sub_type'' = Some (GMap s'))))"
    if vm: "map_index legend' k = GMap vm" for k vm
  proof -
    obtain td where td: "map_get legend k = Some td"
      using vm prepared_entry_none [OF wf_val_map [OF wfl] l, of k] by (cases "map_get legend k") (auto simp: map_index_def)
    from prepare_field [OF prepared_entry(1) [OF wf_val_map [OF wfl] l td]]
      prepared_entry(2) [OF wf_val_map [OF wfl] l td] vm td
    show ?thesis by (fastforce simp: map_index_def split: option.splits if_splits)
  qed
  show ?case
  proof (rule safe_schema.intros)
    show "safe_required (map_index schema' ''required_fields'')"
      using merged_safe [OF \<open>wf_map rf\<close> p 1(2)] by (simp add: s' map_index_def)
    show "map_index schema' ''legend'' = GMap legend'" by (simp add: s' map_index_def)
  next
    fix k vm assume "map_index legend' k = GMap vm"
    from field [OF this] show "safe_field vm"
    proof (elim exE conjE)
      fix a t kd
      assume f: "map_get legend k = Some (GMap (Some a))" "map_of a ''type'' = Some (GString t)"
        "type_kind t = Some kd" "map_get vm ''type'' = Some (GKind kd)"
        "\<forall>x. x \<noteq> ''type'' \<longrightarrow> x \<noteq> ''sub_type'' \<longrightarrow> map_get vm x = map_of a x"
        "map_of a ''sub_type'' = None \<longrightarrow> map_get vm ''sub_type'' = None"
      have "sane_field (Some a)" using 1(4) f(1) by blast
      moreover have "safe_string vm = safe_string (Some a)" using f(5) by (intro safe_string_cong) simp
      ultimately show ?thesis
        using f by (cases kd) (auto simp: safe_field_def sane_field_def type_kind_iff)
    qed
  next
    fix k vm assume vm: "map_index legend' k = GMap vm" and "map_get vm ''type'' = Some (GKind KMap)"
    with field [OF vm] obtain a t where a: "map_get legend k = Some (GMap (Some a))"
      "map_of a ''type'' = Some (GString ''hashmap'')"
      "\<forall>s. map_of a ''sub_type'' = Some (GMap s) \<longrightarrow>
         (\<exists>s'. parseSubSection ord k s = Val (None, s') \<and> map_get vm ''sub_type'' = Some (GMap s'))"
      by (auto simp: type_kind_iff)
    obtain sub where sub: "map_of a ''sub_type'' = Some (GMap sub)"
      and IH: "\<And>name s'. wf_val (GMap sub) \<Longrightarrow> parseSubSection ord name sub = Val (None, s') \<Longrightarrow> safe_schema s'"
      using 1(5) [OF a(1)] a(2) by auto
    with a obtain s' where s': "parseSubSection ord k sub = Val (None, s')" "map_get vm ''sub_type'' = Some (GMap s')"
      by blast
    have "wf_val (GMap sub)"
      using wf_val_get [OF wf_val_get [OF wfl a(1)], of "''sub_type''"] sub by simp
    with IH s' show "\<exists>sub. map_index vm ''sub_type'' = GMap sub \<and> safe_schema sub"
      by (auto simp: map_index_def)
  qed
qed

text \<open>
  C8. A schema that InitSchema has accepted and that is sane is checked against every
  document, for every action and in every map order, without a panic. Sane means: there is a
  default action; every field of type hashmap has a section, sane in turn, and no array has
  one; null_ok is not null; and for a string, the additional validation and the bounds of
  its length are not null, a list of values holds strings only, and a length is no single
  number.
\<close>

theorem prepared_schema_no_panic:
  assumes "wf_val (GMap schema)" and "sane_schema schema"
    and "InitSchema ord schema = Val (None, schema')"
  shows "\<not> panics (ValidateWithSchema ext ord2 input schema' action)"
proof -
  have "safe_schema schema'" using prepared_safe assms unfolding InitSchema_def by blast
  from validate_total [OF this] show ?thesis unfolding not_panics .
qed

end
