(* ===== verification/Validation_Accepts.thy ===== *)
theory Validation_Accepts
  imports Validation_Init
begin

text \<open>
  The schemas \<open>InitSchema\<close> accepts, in every iteration order: \<open>good_schema\<close> says what the file
  must contain, section by section, and \<open>init_accepts\<close> that it is enough.
\<close>

definition good_settings :: "gval \<Rightarrow> bool" where
  "good_settings v = (case v of
     GMap m \<Rightarrow>
       (case map_get m ''fields'' of
          None \<Rightarrow> True
        | Some (GSlice fs) \<Rightarrow> list_all (\<lambda>f. case f of GString _ \<Rightarrow> True | _ \<Rightarrow> False) fs
        | _ \<Rightarrow> False) \<and>
       (case map_get m ''require_an_optional'' of None \<Rightarrow> True | Some (GBool _) \<Rightarrow> True | _ \<Rightarrow> False)
   | _ \<Rightarrow> False)"

definition has_section :: "gmap \<Rightarrow> bool" where
  "has_section a \<longleftrightarrow> map_get a ''sub_type'' \<noteq> None \<and>
     (map_get a ''type'' = Some (GString ''array'') \<or> map_get a ''type'' = Some (GString ''hashmap''))"

definition good_field :: "gval \<Rightarrow> bool" where
  "good_field td = (case td of
     GMap (Some a) \<Rightarrow>
       (case map_of a ''type'' of Some (GString t) \<Rightarrow> type_kind t \<noteq> None | _ \<Rightarrow> False) \<and>
       (map_of a ''type'' = Some (GString ''array'') \<longrightarrow> map_of a ''sub_type'' = None \<longrightarrow>
          map_of a ''introspect'' \<noteq> None \<and>
          (\<exists>s. map_of a ''additional_validation'' = Some (GString s)))
   | _ \<Rightarrow> False)"

inductive good_schema :: "gmap \<Rightarrow> bool" where
  "map_get schema ''required_fields'' = Some (GMap rf) \<Longrightarrow>
   map_get rf ''initial'' = Some (GMap ini) \<Longrightarrow> map_get rf ''all'' = Some (GMap all) \<Longrightarrow>
   \<forall>e \<in> set (entries (map_delete rf ''_comment'')). good_settings (snd e) \<Longrightarrow>
   map_get schema ''legend'' = Some (GMap legend) \<Longrightarrow>
   \<forall>e \<in> set (entries legend). good_field (snd e) \<Longrightarrow>
   (\<And>k a. (k, GMap a) \<in> set (entries legend) \<Longrightarrow> has_section a \<Longrightarrow>
      \<exists>sub. map_get a ''sub_type'' = Some (GMap sub) \<and> good_schema sub) \<Longrightarrow>
   good_schema schema"

section \<open>Required fields\<close>

lemma strings_of:
  "list_all (\<lambda>f. case f of GString _ \<Rightarrow> True | _ \<Rightarrow> False) fs \<Longrightarrow> \<exists>ss. fs = map GString ss"
proof (induction fs)
  case (Cons f fs)
  then obtain s ss where "f = GString s" "fs = map GString ss" by (cases f) auto
  then have "f # fs = map GString (s # ss)" by simp
  then show ?case by (rule exI)
qed simp

lemma good_settings_cases:
  assumes "good_settings v"
  obtains m where "v = GMap m"
    "map_get m ''fields'' = None \<or> (\<exists>ss. map_get m ''fields'' = Some (GSlice (map GString ss)))"
    "map_get m ''require_an_optional'' = None \<or> (\<exists>b. map_get m ''require_an_optional'' = Some (GBool b))"
proof (cases v)
  case (GMap m)
  with assms have f: "map_get m ''fields'' = None \<or> (\<exists>ss. map_get m ''fields'' = Some (GSlice (map GString ss)))"
    by (auto simp: good_settings_def split: option.splits gval.splits dest: strings_of)
  from GMap assms have "map_get m ''require_an_optional'' = None \<or> (\<exists>b. map_get m ''require_an_optional'' = Some (GBool b))"
    by (auto simp: good_settings_def split: option.splits gval.splits)
  with GMap f show thesis by (rule that)
qed (use assms in \<open>simp_all add: good_settings_def\<close>)

lemma entry_get: "wf_map m \<Longrightarrow> (k, v) \<in> set (entries m) \<Longrightarrow> map_get m k = Some v"
  by (simp add: map_get_def wf_map_def)

lemma simpleIntrospection_strings: "simpleIntrospection (map GString ss) KString = Val None"
  by (simp add: simpleIntrospection_def first_error_ok)

lemma check_action_good:
  assumes "good_settings v" "wf_val v"
  shows "check_action ord name (k, v) = Val None"
proof -
  from assms(1) obtain m where v: "v = GMap m"
    and f: "map_get m ''fields'' = None \<or> (\<exists>ss. map_get m ''fields'' = Some (GSlice (map GString ss)))"
    and o: "map_get m ''require_an_optional'' = None \<or> (\<exists>b. map_get m ''require_an_optional'' = Some (GBool b))"
    by (rule good_settings_cases)
  have wf: "wf_map m" using assms(2) v by simp
  have "check_setting name e = Val None" if "e \<in> set (entries m)" for e
  proof -
    obtain x y where e: "e = (x, y)" by (cases e)
    with that have get: "map_get m x = Some y" using entry_get [OF wf] by simp
    consider "x = ''fields''" | "x = ''require_an_optional''" | "x \<noteq> ''fields''" "x \<noteq> ''require_an_optional''"
      by fast
    then show ?thesis
      by cases (use get f o in \<open>auto simp: e check_setting_def simpleIntrospection_strings\<close>)
  qed
  then show ?thesis by (simp add: check_action_def v first_error_ok)
qed

lemma updatefieldList_good:
  assumes "good_settings (GMap m)"
  shows "\<exists>r' f'. updatefieldList m r (Some f) = Val (r', Some f')"
proof -
  from assms obtain m' where "GMap m = GMap m'"
    and f: "map_get m' ''fields'' = None \<or> (\<exists>ss. map_get m' ''fields'' = Some (GSlice (map GString ss)))"
    and o: "map_get m' ''require_an_optional'' = None \<or> (\<exists>b. map_get m' ''require_an_optional'' = Some (GBool b))"
    by (rule good_settings_cases)
  then have m: "m' = m" by simp
  have add: "\<exists>g. add_fields (map GString ss) (Some f) = Val (Some g)" for ss
    using add_fields_Val [of "map GString ss" f] by blast
  have "\<exists>b. (case map_get m ''require_an_optional'' of None \<Rightarrow> Val r | Some v \<Rightarrow> as_bool v) = Val b"
    using o m by auto
  moreover have "\<exists>g. (case map_get m ''fields'' of None \<Rightarrow> Val (Some f)
      | Some v \<Rightarrow> obind (as_slice v) (\<lambda>fs. add_fields fs (Some f))) = Val (Some g)"
    using f m add by auto
  ultimately show ?thesis unfolding updatefieldList_def by fastforce
qed

lemma merge_ok_good:
  assumes "good_settings (GMap ini)" "good_settings (GMap all)" "good_settings v"
  shows "merge.ok ord ini all (k, v)"
proof -
  from assms(3) obtain cfg where v: "v = GMap cfg" by (rule good_settings_cases)
  obtain r1 f1 where u1: "updatefieldList ini False (Some []) = Val (r1, Some f1)"
    using updatefieldList_good [OF assms(1)] by blast
  obtain r2 f2 where u2: "updatefieldList cfg r1 (Some f1) = Val (r2, Some f2)"
    using updatefieldList_good assms(3) v by blast
  obtain r3 f3 where u3: "updatefieldList all r2 (Some f2) = Val (r3, Some f3)"
    using updatefieldList_good [OF assms(2)] by blast
  show ?thesis
    by (simp add: v merge.ok_iff merge_step_apply merge_action_def u1 u2 u3 Let_def)
qed

lemma processRequiredFields_good:
  assumes "wf_val (GMap rf)" "map_get rf ''initial'' = Some (GMap ini)" "map_get rf ''all'' = Some (GMap all)"
    and "\<forall>e \<in> set (entries (map_delete rf ''_comment'')). good_settings (snd e)"
  shows "\<exists>out. processRequiredFields ord name rf = Val (None, out)"
proof -
  have wf: "wf_map rf" using assms(1) by simp
  let ?rf1 = "map_delete rf ''_comment''"
  let ?rf3 = "map_delete (map_delete ?rf1 ''initial'') ''all''"
  have sub: "set (entries ?rf3) \<subseteq> set (entries ?rf1)" "set (entries ?rf1) \<subseteq> set (entries rf)"
    by (cases rf; auto simp: AList.delete_eq)+
  have "map_get ?rf1 ''initial'' = Some (GMap ini)" "map_get ?rf1 ''all'' = Some (GMap all)"
    using assms(2,3) by simp_all
  then have sections: "good_settings (GMap ini)" "good_settings (GMap all)"
    using assms(4) by (force simp: map_get_def dest!: map_of_SomeD)+
  have "check_action ord name e = Val None" if "e \<in> set (entries ?rf1)" for e
    using check_action_good [of "snd e" ord name "fst e"] that assms(1,4) sub(2) by fastforce
  moreover have "merge.ok ord ini all e" if "e \<in> set (entries ?rf3)" for e
    using merge_ok_good [OF sections, of "snd e" ord "fst e"] that assms(4) sub(1) by auto
  ultimately show ?thesis
    using assms(2,3) unfolding processRequiredFields_None [OF wf] by (auto simp: Let_def)
qed

section \<open>Legends and sections\<close>

lemma prepare_ok_good:
  assumes "good_field td"
    and "\<And>a. td = GMap a \<Longrightarrow> has_section a \<Longrightarrow>
      \<exists>sub out. map_get a ''sub_type'' = Some (GMap sub) \<and> parseSubSection ord k sub = Val (None, out)"
  shows "prepare.ok ord name (k, td)"
proof -
  from assms(1) obtain a where td: "td = GMap (Some a)"
    by (auto simp: good_field_def split: gval.splits option.splits)
  with assms(1) obtain t where t: "map_of a ''type'' = Some (GString t)"
    by (auto simp: good_field_def split: gval.splits option.splits)
  with assms(1) td obtain kd where kd: "type_kind t = Some kd"
    by (auto simp: good_field_def)
  have arr: "map_of a ''introspect'' \<noteq> None \<and> (\<exists>s. map_of a ''additional_validation'' = Some (GString s))"
    if "kd = KSlice" "map_of a ''sub_type'' = None"
    using that assms(1) td t kd by (simp add: good_field_def type_kind_iff)
  show ?thesis
  proof (cases "map_of a ''sub_type'' = None \<or> (kd \<noteq> KSlice \<and> kd \<noteq> KMap)")
    case True
    then show ?thesis using t kd arr
      by (cases "map_of a ''sub_type''")
        (auto simp: td prepare.ok_iff prepare_step_apply check_array_def split: option.splits)
  next
    case False
    then have "has_section (Some a)" using t kd by (auto simp: has_section_def type_kind_iff)
    with assms(2) td obtain sub out where "map_of a ''sub_type'' = Some (GMap sub)"
      "parseSubSection ord k sub = Val (None, out)" by auto
    with False t kd show ?thesis
      by (auto simp: td prepare.ok_iff prepare_step_apply check_array_def)
  qed
qed

lemma parseSubSection_good:
  "good_schema schema \<Longrightarrow> wf_val (GMap schema) \<Longrightarrow> \<exists>out. parseSubSection ord name schema = Val (None, out)"
proof (induction schema arbitrary: name rule: good_schema.induct)
  case (1 schema rf ini all legend)
  then obtain d where d: "schema = Some d" by (cases schema) auto
  have wfl: "wf_val (GMap legend)" by (rule wf_val_get [OF 1(8) 1(5)])
  obtain rf' where rf': "processRequiredFields ord name rf = Val (None, rf')"
    using processRequiredFields_good [OF wf_val_get [OF 1(8) 1(1)] 1(2,3,4)] by blast
  have "prepare.ok ord name (k, td)" if mem: "(k, td) \<in> set (entries legend)" for k td
  proof (rule prepare_ok_good)
    show "good_field td" using 1(6) mem by force
    fix a assume td: "td = GMap a" and "has_section a"
    with 1(7) mem obtain sub where sub: "map_get a ''sub_type'' = Some (GMap sub)"
      and IH: "\<And>name. wf_val (GMap sub) \<Longrightarrow> \<exists>out. parseSubSection ord name sub = Val (None, out)" by blast
    have "wf_val (GMap a)" using wf_val_entry [OF wfl mem] td by simp
    with IH sub wf_val_get show "\<exists>sub out. map_get a ''sub_type'' = Some (GMap sub) \<and>
        parseSubSection ord k sub = Val (None, out)" by blast
  qed
  then obtain legend' where "processLegend ord name legend = Val (None, legend')"
    using processLegend_None [OF wf_val_map [OF wfl]] by fast
  with rf' 1(1,5) show ?case by (auto simp: parseSubSection_None d)
qed

text \<open>
  C15. InitSchema accepts every well-formed schema (good_schema: both special sections,
  well-typed settings, known types, arrays with a section or an introspection, nested
  sections well-formed), in whatever order the maps are visited.
\<close>

theorem init_accepts:
  assumes "good_schema schema" and "wf_val (GMap schema)"
  shows "\<exists>schema'. InitSchema ord schema = Val (None, schema')"
  unfolding InitSchema_def by (rule parseSubSection_good [OF assms])

end
