(* ===== verification/Validation_Cases.thy ===== *)
theory Validation_Cases
  imports Validation_Correct
begin

text \<open>
  The checks of single fields, value by value: what a missing field answers, how integers and
  lengths are read, and the definitions of a field under which the check refuses or panics on
  every value, or on the wrong ones.
\<close>

section \<open>Required fields\<close>

lemma ValidateRequiredFields_Some:
  assumes "f \<in> set rf" "map_get input f = None"
  shows "\<exists>g \<in> set rf. map_get input g = None \<and>
    ValidateRequiredFields input rf = Some (ErrorString (''Field '' @ g @ '' is a required field''))"
  using assms by (induction rf) (auto split: option.splits)

text \<open>
  A document without a required field is refused with a message that names a required
  field it lacks, and is left as it was.
\<close>

theorem missing_field_refused:
  assumes "requirements schema action = Val (rf, ro)" and "f \<in> set rf" and "map_get input f = None"
  shows "\<exists>g \<in> set rf. map_get input g = None \<and> ValidateWithSchema ext ord input schema action =
    Val (Some (ErrorString (''Field '' @ g @ '' is a required field'')), input)"
proof -
  from ValidateRequiredFields_Some [OF assms(2,3)] obtain g where g: "g \<in> set rf" "map_get input g = None"
    and err: "ValidateRequiredFields input rf = Some (ErrorString (''Field '' @ g @ '' is a required field''))"
    by (elim bexE conjE)
  have "ValidateWithSchema ext ord input schema action =
      Val (Some (ErrorString (''Field '' @ g @ '' is a required field'')), input)"
    by (simp add: ValidateWithSchema_requirements assms(1) err)
  with g show ?thesis by (intro bexI conjI)
qed

section \<open>Numbers\<close>

text \<open>
  C37. An integer field given as decimal text, as FormatInt prints it, is accepted over the
  whole range of int64 and replaced by the number.
\<close>

theorem int_field_roundtrip:
  assumes "map_get vm ''type'' = Some (GKind KInt64)" and "null_ok vm = Val n"
    and "- 9223372036854775808 \<le> i" and "i \<le> 9223372036854775807"
  shows "validate_field ext ord action k (GString (FormatInt i)) vm = Val (None, Some (GInt64 (word_of_int i)))"
  using assms ParseInt_FormatInt [of i] by (simp add: validate_field.simps)

text \<open>
  A JSON number is refused by an integer field, and by a float field as an unhandled
  type.
\<close>

theorem json_numbers_refused:
  assumes "null_ok vm = Val n"
  shows "(map_get vm ''type'' = Some (GKind KInt64) \<longrightarrow>
      validate_field ext ord action k (GFloat x) vm = Val (Some (ErrorString (k @ '' is not a valid integer'')), None)) \<and>
    (map_get vm ''type'' = Some (GKind KFloat64) \<longrightarrow>
      validate_field ext ord action k (GFloat x) vm =
        Val (Some (ErrorString (''Unhandled validation type for '' @ k @ '' as float64'')), None))"
  using assms by (simp add: validate_field.simps kind_name_def)

section \<open>Strings\<close>

text \<open>
  C36. The bounds of a length count the characters of a UTF-8 text, not its bytes: a text
  passes exactly when its number of code points lies between them.
\<close>

theorem length_in_characters:
  assumes "\<forall>c \<in> set cs. scalar_value c" and "l < u"
  shows "check_bounds k (concat (map encode_rune cs)) (GFloat l) (GFloat u) = Val None \<longleftrightarrow>
    l \<le> of_nat (length cs) \<and> of_nat (length cs) \<le> u"
  using assms by (auto simp: check_bounds_def rune_count_encode Let_def)

text \<open>
  A field with an exact length panics on every text of another length, instead of
  refusing it.
\<close>

theorem exact_length_panics:
  assumes "map_get vm ''type'' = Some (GKind KString)" and "null_ok vm = Val n"
    and "map_get vm ''additional_validation'' = Some (GMap a)" and "map_get a ''enum'' = None"
    and "map_get a ''length'' = Some (GSlice [GFloat len])" and "of_nat (rune_count s) \<noteq> len"
  shows "validate_field ext ord action k (GString s) vm = Panic TypeAssertion"
  using assms
  by (simp add: validate_field.simps check_string_def check_enum_def check_length_def map_index_def)

theorem uuid_not_rechecked:
  assumes "map_get vm ''type'' = Some (GKind KString)" and "null_ok vm = Val n"
    and "map_get vm ''additional_validation'' = Some (GString ''UUID'')"
  shows "(case uuid_FromString ext s of
      Inl e \<Rightarrow> validate_field ext ord action k (GString s) vm = Val (Some e, None)
    | Inr u \<Rightarrow> validate_field ext ord action k (GString s) vm = Val (None, Some (GUUID u)) \<and>
        validate_field ext ord action k (GUUID u) vm = Val (Some (ErrorString (k @ '' is not a valid string'')), None))"
  using assms by (simp add: validate_field.simps check_string_def split: sum.split)

section \<open>Arrays\<close>

text \<open>
  A field of type array with a section sub_type, which InitSchema asks for, panics on
  every array.
\<close>

theorem array_section_panics:
  assumes "map_get vm ''type'' = Some (GKind KSlice)" and "map_get vm ''sub_type'' = Some (GMap sub)"
    and "null_ok vm = Val n" and "kind_of v = Val KSlice"
  shows "validate_field ext ord action k v vm = Panic TypeAssertion"
  using assms by (cases v) (simp_all add: validate_field.simps)

end
