(* ===== verification/Witness_Validation.thy ===== *)
theory Witness_Validation
  imports Samples Service_Shipped Validation_Cases
begin

text \<open>
  The properties of the validation on concrete schemas and documents: the sample schema, and the
  message of the shipped configuration.
\<close>

theorem validate_sound_witness: "conforms ''insert'' sample_schema sample_output"
  by (rule validate_sound [OF sample_input_wf sample_accepts])

theorem validate_strains_witness:
  "map_get sample_output ''name'' \<noteq> None \<and> map_get sample_output ''unknown'' = None"
  using validate_strains [OF wf_val_map [OF sample_input_wf] sample_accepts sample_schema_get(1), of "''name''"]
    validate_strains [OF wf_val_map [OF sample_input_wf] sample_accepts sample_schema_get(1), of "''unknown''"]
  by (simp add: sample_legend_get sample_input_def)

theorem validate_order_independent_witness:
  "ValidateWithSchema sample_ext (\<lambda>_ d. rev d) sample_input sample_schema ''insert'' = Val (None, sample_output)"
  using validate_order_independent [OF sample_input_wf, of sample_ext sample_ord sample_schema "''insert''" sample_output
      "\<lambda>_ d. rev d"] sample_accepts by simp

lemma client_message_init: "\<exists>schema'. InitSchema ord client_message = Val (None, schema')"
  unfolding InitSchema_def by (rule parseSubSection_good [OF client_message_good messages_wf(1)])

theorem prepared_schema_no_panic_witness:
  "\<exists>schema'. InitSchema sample_ord client_message = Val (None, schema') \<and>
     \<not> panics (ValidateWithSchema sample_ext sample_ord sample_input schema' ''insert'')"
proof -
  obtain schema' where "InitSchema sample_ord client_message = Val (None, schema')"
    using client_message_init by blast
  with prepared_schema_no_panic [OF messages_wf(1) client_message_sane] show ?thesis by blast
qed

definition client_required :: gmap where
  "client_required = Some
     [(''default'', GMap (Some [])), (''initial'', GMap (Some [])), (''all'', GMap (Some [])),
      (''insert'', required [''name'']), (''delete'', required [''id'']),
      (''replace'', required [''id'', ''name'']), (''update'', required [''id'', ''name''])]"

lemma client_required_get: "map_get client_message ''required_fields'' = Some (GMap client_required)"
  by (simp add: client_message_def client_required_def)

theorem init_requirements_witness:
  "\<exists>schema' fl. InitSchema sample_ord client_message = Val (None, schema') \<and>
     requirements schema' ''insert'' = Val (fl, False) \<and> set fl = {''name''} \<and> distinct fl"
proof -
  obtain schema' where i: "InitSchema sample_ord client_message = Val (None, schema')"
    using client_message_init by blast
  have "\<exists>fl. requirements schema' ''insert'' =
      Val (fl, optional_of (Some []) (optional_of (Some [(''fields'', GSlice [GString ''name''])])
        (optional_of (Some []) False))) \<and>
      set fl = fields_of (Some []) \<union> fields_of (Some [(''fields'', GSlice [GString ''name''])]) \<union> fields_of (Some []) \<and>
      distinct fl"
    by (rule init_requirements [OF messages_wf(1) i client_required_get])
      (simp_all add: client_required_def required_def)
  with i show ?thesis by (auto simp: optional_of_def fields_of_def)
qed

theorem init_legend_witness:
  "\<exists>schema' legend' a'. InitSchema sample_ord client_message = Val (None, schema') \<and>
     map_get schema' ''legend'' = Some (GMap legend') \<and> map_get legend' ''id'' = Some (GMap (Some a')) \<and>
     map_of a' ''type'' = Some (GKind KString) \<and> map_of a' ''additional_validation'' = Some (GString ''UUID'')"
proof -
  let ?legend = "Some [(''id'', uuid_field), (''name'', length_field [GFloat 1, GString ''max''])]"
  obtain schema' where i: "InitSchema sample_ord client_message = Val (None, schema')"
    using client_message_init by blast
  have "map_get client_message ''legend'' = Some (GMap ?legend)" by (simp add: client_message_def)
  from init_legend [OF messages_wf(1) i this] show ?thesis
  proof (elim exE conjE, goal_cases)
    case (1 legend')
    have "map_get ?legend ''id'' = Some uuid_field" by simp
    from 1(3) [rule_format, OF this] show ?case
    proof (elim exE conjE, goal_cases)
      case (1 a t kd a')
      then have a: "a = [(''type'', GString ''string''), (''additional_validation'', GString ''UUID'')]"
        by (simp add: uuid_field_def)
      then have "t = ''string''" using 1(2) by simp
      then have "kd = KString" using 1(3) by simp
      moreover have "map_of a' ''additional_validation'' = Some (GString ''UUID'')"
        using 1(6) [rule_format, of "''additional_validation''"] by (simp add: a)
      ultimately show ?case
        using i \<open>map_get schema' ''legend'' = Some (GMap legend')\<close> 1(4,5) by blast
    qed
  qed
qed

theorem init_accepts_witness: "\<exists>schema'. InitSchema sample_ord content_message = Val (None, schema')"
  by (rule init_accepts [OF content_message_good messages_wf(2)])

theorem init_twice_witness:
  "\<exists>schema' schema''. InitSchema sample_ord client_message = Val (None, schema') \<and>
     InitSchema sample_ord schema' = Val (Some (ErrorString
       ''Both 'all' and 'initial' must be defined in root: missing initial''), schema'')"
proof -
  obtain schema' where i: "InitSchema sample_ord client_message = Val (None, schema')"
    using client_message_init by blast
  with init_twice [OF messages_wf(1) i, of sample_ord] show ?thesis by blast
qed

section \<open>Fields\<close>

theorem missing_field_refused_witness:
  "ValidateWithSchema sample_ext sample_ord (Some []) sample_schema ''insert'' =
     Val (Some (ErrorString ''Field name is a required field''), Some [])"
proof -
  have "requirements sample_schema ''insert'' = Val ([''name''], False)"
    by (simp add: requirements_def sample_schema_get settings_of_def map_index_Some)
  from missing_field_refused [OF this, of "''name''" "Some []" sample_ext sample_ord] show ?thesis by simp
qed

lemma number_field_simps: "map_get number_field ''type'' = Some (GKind KInt64)" "null_ok number_field = Val False"
  by (simp_all add: number_field_def null_ok_def)

theorem int_field_roundtrip_witness:
  "validate_field sample_ext sample_ord ''insert'' ''number'' (GString (FormatInt (-42))) number_field =
     Val (None, Some (GInt64 (word_of_int (-42))))"
  by (rule int_field_roundtrip [OF number_field_simps]) simp_all

theorem json_numbers_refused_witness:
  "validate_field sample_ext sample_ord ''insert'' ''number'' (GFloat 42) number_field =
     Val (Some (ErrorString ''number is not a valid integer''), None)"
  using json_numbers_refused [OF number_field_simps(2), of sample_ext sample_ord "''insert''" "''number''" 42]
  by (simp add: number_field_simps(1))

theorem length_in_characters_witness:
  "check_bounds ''name'' (concat (map encode_rune [0xE9, 0x20AC])) (GFloat 1) (GFloat 2) = Val None"
  using length_in_characters [of "[0xE9, 0x20AC]" 1 2 "''name''"] by (simp add: scalar_value_def)

definition code_field :: gmap where
  "code_field = Some [(''type'', GKind KString),
     (''additional_validation'', GMap (Some [(''length'', GSlice [GFloat 2])]))]"

theorem exact_length_panics_witness:
  "validate_field sample_ext sample_ord ''insert'' ''code'' (GString ''abc'') code_field = Panic TypeAssertion"
  by (rule exact_length_panics [where len = 2 and n = False and a = "Some [(''length'', GSlice [GFloat 2])]"])
    (simp_all add: code_field_def null_ok_def rune_width_def)

definition tags_field :: gmap where
  "tags_field = Some [(''type'', GKind KSlice), (''sub_type'', GMap sample_schema)]"

theorem array_section_panics_witness:
  "validate_field sample_ext sample_ord ''insert'' ''tags'' (GSlice []) tags_field = Panic TypeAssertion"
  by (rule array_section_panics [where n = False and sub = sample_schema])
    (simp_all add: tags_field_def null_ok_def)

theorem error_answers_witness:
  "\<exists>w'. MakeNotFoundResponse sample_ext (error_doc ''gone'') fresh_writer = Val (None, w') \<and>
     rw_status w' = Some 404 \<and> rw_body w' = ''{}\<newline>''"
  using error_answers [of MakeNotFoundResponse 404 sample_ext "''gone''" "''{}''" fresh_writer]
  by (simp add: sample_ext_def fresh_writer_def)

end
