(* ===== verification/Service_Correct.thy ===== *)
theory Service_Correct
  imports Handlers_Correct Validation_Accepts
begin

text \<open>
  The handlers on any configuration: how a stored function is called, which status answers the
  change of a client, what is lost when the function names its result differently, and how a
  pageview is counted.
\<close>

section \<open>Calls of stored functions\<close>

lemma call_function_run:
  assumes "length names < 2 ^ 63 - 1"
  shows "call_function env (Some h) f (map GString names) doc k w =
    (case db_Query (env_db env) h (call_text f names) (map (map_index doc) names) (outside w) of
       (r, s) \<Rightarrow> (case r of
          Inl e \<Rightarrow> reply_error env MakeInvalidInputResponse e (w\<lparr>outside := s\<rparr>)
        | Inr rows \<Rightarrow> k (read_pFE rows (called (fresh_pFE h f names) doc)) (w\<lparr>outside := s\<rparr>)))"
  by (simp add: call_function_def NewPostgresFunctionExecutor_Some pbind_apply fresh_call [OF assms]
      split: prod.split sum.split)

text \<open>What the settings say about an action.\<close>

definition action_is :: "ProcessConfiguration \<Rightarrow> string \<Rightarrow> string \<Rightarrow> string list \<Rightarrow> bool" where
  "action_is cfg action f names \<longleftrightarrow>
     action_cfg cfg ''client_action'' action = Val (f, map GString names) \<and> length names < 2 ^ 62"

text \<open>A request whose input is \<open>doc\<close>, that the section of the settings accepts as \<open>doc'\<close>.\<close>

definition accepts ::
    "'s environment \<Rightarrow> ProcessConfiguration \<Rightarrow> string \<Rightarrow> string \<Rightarrow> request \<Rightarrow> gmap \<Rightarrow> bool" where
  "accepts env cfg sect action r doc' \<longleftrightarrow>
     (\<exists>doc schema. combineInput (env_ext env) (env_ord env) r = (doc, None) \<and>
        map_index (Settings cfg) sect = GMap schema \<and>
        ValidateWithSchema (env_ext env) (env_ord env) doc schema action = Val (None, doc'))"

lemma with_valid_ok:
  "map_index (Settings cfg) sect = GMap schema \<Longrightarrow>
   ValidateWithSchema (env_ext env) (env_ord env) doc schema action = Val (None, doc') \<Longrightarrow>
   with_valid env cfg sect action doc k w = k doc' w"
  by (simp add: with_valid_def validate_input_def pbind_apply)

lemma with_valid_refused:
  "map_index (Settings cfg) sect = GMap schema \<Longrightarrow>
   ValidateWithSchema (env_ext env) (env_ord env) doc schema action = Val (Some e, doc') \<Longrightarrow>
   with_valid env cfg sect action doc k w = reply_error env MakeInvalidInputResponse e w"
  by (simp add: with_valid_def validate_input_def pbind_apply)

section \<open>Creating a client\<close>

lemma insert_client_accepted:
  assumes "Method r = ''POST''" and "accepts env cfg ''client_message'' ''insert'' r doc'"
    and "connects env cfg w" and "action_is cfg ''insert'' f names"
  shows "InsertClientHandler env cfg r w =
    call_function env (Some (pool cfg)) f (map GString names) doc' (\<lambda>iH.
       pbind (plift (first_record (pFE_Record iH))) (\<lambda>returnRec.
       pbind (plift (as_string (map_index returnRec ''client_id''))) (\<lambda>ident.
       pbind (write_answer (MakeCreatedReponse (''/v'' @ ApiVersion cfg @ ''/client/'' @ ident))) (\<lambda>_.
         announce env cfg ''client_create'' (GString ident))))) (opened_world env cfg w)"
  using assms
  by (auto simp: accepts_def InsertClientHandler_def with_input_run with_connection_run connects_def
      insert_client_post_def with_valid_ok action_is_def)

text \<open>
  When the stored function does not return a column client_id, as the shipped
  create_client does not, the handler panics after the client has been inserted: no answer,
  no message.
\<close>

theorem insert_client_lost:
  assumes "Method r = ''POST''" and "accepts env cfg ''client_message'' ''insert'' r doc'"
    and "connects env cfg w" and "action_is cfg ''insert'' f names"
    and "db_Query (env_db env) (pool cfg) (call_text f names) (map (map_index doc') names)
           (outside (opened_world env cfg w)) = (Inr rows, s)"
    and "rs_rows rows \<noteq> []" and "''client_id'' \<notin> set (rs_columns rows)"
  shows "InsertClientHandler env cfg r w = (Panic TypeAssertion, w\<lparr>outside := s\<rparr>)"
proof -
  obtain vals rest where rows: "rs_rows rows = vals # rest" using assms(6) by (cases "rs_rows rows") auto
  have "map_of (fill_row (zip cs vs) []) ''client_id'' = None" if "''client_id'' \<notin> set cs" for cs vs
    using that by (auto simp: fill_row_get map_of_eq_None_iff dest: set_zip_leftD split: option.split)
  then have "map_index (read_row (rs_columns rows) vals) ''client_id'' = GNil"
    using assms(7) by (simp add: map_index_def read_row_def)
  then show ?thesis
    using assms(4,5)
    unfolding insert_client_accepted [OF assms(1-4)]
    by (subst call_function_run)
      (simp_all add: action_is_def first_record_def rows pbind_apply opened_world_def)
qed

section \<open>Changing a client\<close>

text \<open>
  C31. Replacing or changing a client calls the configured function once, with the flag
  replacement in the case of POST, and answers 204 when exactly one row comes back, else
  404.
\<close>

theorem update_client_status:
  assumes "Method r \<in> {''POST'', ''PATCH''}" and "accepts env cfg ''client_message'' ''update'' r doc"
    and "connects env cfg w" and "action_is cfg ''update'' f names" and "rw_status (writer w) = None"
    and "(ns, doc') = (if Method r = ''POST'' then (names @ [''replacement''], put ''replacement'' (GBool True) doc)
                      else (names, doc))"
    and "db_Query (env_db env) (pool cfg) (call_text f ns) (map (map_index doc') ns)
           (outside (opened_world env cfg w)) = (Inr rows, s)"
    and "length (rs_rows rows) < 2 ^ 63"
  shows "\<exists>w'. UpdateClientHandler env cfg r w = (Val (), w') \<and> outside w' = s \<and>
    (if length (rs_rows rows) = 1 then rw_status (writer w') = Some 204
     else rw_status (writer w') = Some 404 \<or> writer w' = writer w)"
proof -
  let ?w = "(opened_world env cfg w)\<lparr>outside := s\<rparr>"
  have "UpdateClientHandler env cfg r w =
      call_function env (Some (pool cfg)) f (map GString ns) doc'
        (\<lambda>uH. reply_one env (pFE_NumAffectedLastOp uH)) (opened_world env cfg w)"
    using assms(1-4,6)
    by (auto simp: accepts_def UpdateClientHandler_def with_input_run with_connection_run connects_def
        update_client_post_def update_client_patch_def with_valid_ok action_is_def)
  also have "\<dots> = reply_one env (of_nat (length (rs_rows rows))) ?w"
    using assms(4,6,7) by (subst call_function_run) (auto simp: action_is_def split: if_splits)
  finally have run: "UpdateClientHandler env cfg r w = reply_one env (of_nat (length (rs_rows rows))) ?w" .
  have one: "(of_nat (length (rs_rows rows)) = (1 :: 64 word)) \<longleftrightarrow> length (rs_rows rows) = 1"
  proof
    assume "of_nat (length (rs_rows rows)) = (1 :: 64 word)"
    then have "int (length (rs_rows rows)) = sint (1 :: 64 word)" using sint_of_nat [OF assms(8)] by simp
    then show "length (rs_rows rows) = 1" by simp
  qed simp
  have fresh: "rw_status (writer ?w) = None" using assms(5) by simp
  show ?thesis
    using reply_empty_answered [OF not_found.responder_axioms fresh, of env] assms(5)
    unfolding run reply_one_def one
    by (auto simp: write_answer_def MakeNoContent_def answered_def)
qed

section \<open>Counting a pageview\<close>

text \<open>
  A GET with a well-formed identifier sends exactly one pageview message to the topic
  and answers 204 when the queue takes it, 500 when it does not.
\<close>

theorem pageview_counts:
  assumes "Method r = ''GET''" and "combineInput (env_ext env) (env_ord env) r = (doc, None)"
    and "map_index doc ''id'' = GString ident" and "uuid_FromString (env_ext env) ident = Inr u"
    and "KafkaProducer cfg" and "rw_status (writer w) = None"
    and "json_Marshal (env_ext env)
           (GMap (pageview_message (env_ext env) (TimeFormat cfg) (GString ident))) = Inr msg"
  shows "let (err, s) = env_SendMessage env (KafkaTopic cfg) msg (outside w)
         in \<exists>w'. ProcessPageviewHandler env cfg r w = (Val (), w') \<and> outside w' = s \<and>
              (if err = None then rw_status (writer w') = Some 204
               else rw_status (writer w') = Some 500 \<or> writer w' = writer w)"
proof -
  obtain err s where send: "env_SendMessage env (KafkaTopic cfg) msg (outside w) = (err, s)" by fastforce
  let ?w = "w\<lparr>outside := s\<rparr>"
  have "ProcessPageviewHandler env cfg r w = (case err of
      Some e \<Rightarrow> reply_error env MakeInternalErrorResponse e ?w | None \<Rightarrow> write_answer MakeNoContent ?w)"
    using assms send
    by (simp add: ProcessPageviewHandler_def sendMessage_def pbind_apply split: option.split)
  moreover have "\<exists>w'. reply_error env MakeInternalErrorResponse e ?w = (Val (), w') \<and> answered 500 ?w w'" for e
    by (rule reply_error_answered [OF internal_error.responder_axioms]) (simp add: assms(6))
  ultimately show ?thesis
    using assms(6) send
    by (cases err) (auto simp: write_answer_def MakeNoContent_def answered_def)
qed

text \<open>
  A pageview with an identifier that is no UUID is answered 400 (if the answer can be
  encoded) and sends nothing.
\<close>

theorem pageview_bad_id:
  assumes "Method r = ''GET''" and "combineInput (env_ext env) (env_ord env) r = (doc, None)"
    and "map_index doc ''id'' = GString ident" and "uuid_FromString (env_ext env) ident = Inl e"
    and "rw_status (writer w) = None"
  shows "\<exists>w'. ProcessPageviewHandler env cfg r w = (Val (), w') \<and> answered 400 w w'"
  using reply_error_answered [OF invalid_input.responder_axioms assms(5), of env e] assms(1-4)
  by (simp add: ProcessPageviewHandler_def)

end
