(* ===== verification/Validation_Exact.thy ===== *)
theory Validation_Exact
  imports Validation_Safety
begin

text \<open>
  A reference definition of the documents a schema accepts, without loops, orders, panics or
  error texts (\<open>admissible\<close>), and its equivalence with \<open>ValidateWithSchema\<close>.
\<close>

section \<open>Admissible documents\<close>

definition enum_allows :: "gmap \<Rightarrow> string \<Rightarrow> bool" where
  "enum_allows a s = (case map_get a ''enum'' of
     None \<Rightarrow> True
   | Some (GSlice vs) \<Rightarrow> list_all (\<lambda>v. case v of GString _ \<Rightarrow> True | _ \<Rightarrow> False) vs \<and> GString s \<in> set vs
   | Some _ \<Rightarrow> False)"

definition lower_allows :: "rat \<Rightarrow> gval \<Rightarrow> bool" where
  "lower_allows n lo = (case lo of
     GNil \<Rightarrow> False | GFloat l \<Rightarrow> l \<le> n | GString t \<Rightarrow> t = ''min'' | _ \<Rightarrow> True)"

definition upper_allows :: "rat \<Rightarrow> gval \<Rightarrow> bool" where
  "upper_allows n hi = (case hi of
     GNil \<Rightarrow> False | GFloat u \<Rightarrow> n \<le> u | GString t \<Rightarrow> t = ''max'' | _ \<Rightarrow> True)"

definition ordered_bounds :: "gval \<Rightarrow> gval \<Rightarrow> bool" where
  "ordered_bounds lo hi = (case (lo, hi) of (GFloat l, GFloat u) \<Rightarrow> l < u | _ \<Rightarrow> True)"

definition length_allows :: "gmap \<Rightarrow> string \<Rightarrow> bool" where
  "length_allows a s = (let n = of_nat (rune_count s) in
     case map_index a ''length'' of
       GSlice [x] \<Rightarrow> x = GFloat n
     | GSlice [lo, hi] \<Rightarrow> lower_allows n lo \<and> upper_allows n hi \<and> ordered_bounds lo hi
     | GSlice _ \<Rightarrow> False
     | _ \<Rightarrow> True)"

definition string_allows :: "externals \<Rightarrow> gmap \<Rightarrow> string \<Rightarrow> bool" where
  "string_allows ext vm s = (case map_get vm ''additional_validation'' of
     None \<Rightarrow> True
   | Some GNil \<Rightarrow> False
   | Some (GString t) \<Rightarrow> t = ''UUID'' \<longrightarrow> (\<exists>u. uuid_FromString ext s = Inr u)
   | Some (GMap a) \<Rightarrow> enum_allows a s \<and> length_allows a s
   | Some _ \<Rightarrow> True)"

definition typed :: "gmap \<Rightarrow> kind \<Rightarrow> bool" where
  "typed vm k \<longleftrightarrow> map_get vm ''type'' = Some (GKind k) \<and> map_get vm ''null_ok'' \<noteq> Some GNil"

inductive admissible :: "externals \<Rightarrow> string \<Rightarrow> gmap \<Rightarrow> gmap \<Rightarrow> bool"
  and valid_value :: "externals \<Rightarrow> string \<Rightarrow> gmap \<Rightarrow> gval \<Rightarrow> bool" for ext action where
  document: "requirements schema action = Val (rf, ro) \<Longrightarrow>
    map_index schema ''legend'' = GMap legend \<Longrightarrow>
    (\<And>f. f \<in> set rf \<Longrightarrow> map_get doc f \<noteq> None) \<Longrightarrow>
    (ro \<Longrightarrow> \<exists>k. map_get legend k \<noteq> None \<and> k \<notin> set rf \<and> map_get doc k \<noteq> None) \<Longrightarrow>
    (\<And>k v vm. map_get doc k = Some v \<Longrightarrow> map_index legend k = GMap vm \<Longrightarrow> valid_value ext action vm v) \<Longrightarrow>
    admissible ext action schema doc"
| null: "map_get vm ''type'' \<noteq> None \<Longrightarrow> map_get vm ''null_ok'' = Some (GBool True) \<Longrightarrow>
    valid_value ext action vm GNil"
| string: "typed vm KString \<Longrightarrow> string_allows ext vm s \<Longrightarrow> valid_value ext action vm (GString s)"
| decimal: "typed vm KInt64 \<Longrightarrow> ParseInt s = Inr i \<Longrightarrow> valid_value ext action vm (GString s)"
| integer: "typed vm KInt64 \<Longrightarrow> valid_value ext action vm (GInt64 i)"
| boolean: "typed vm KBool \<Longrightarrow> valid_value ext action vm (GBool b)"
| nested: "typed vm KMap \<Longrightarrow> map_index vm ''sub_type'' = GMap sub \<Longrightarrow> admissible ext action sub m \<Longrightarrow>
    valid_value ext action vm (GMap m)"
| array: "typed vm KSlice \<Longrightarrow> map_get vm ''sub_type'' = None \<Longrightarrow> kind_of v = Val KSlice \<Longrightarrow>
    valid_value ext action vm v"

inductive_cases admissible_elim: "admissible ext action schema doc"
inductive_cases valid_value_elim: "valid_value ext action vm v"
inductive_simps valid_value_null: "valid_value ext action vm GNil"

section \<open>Strings\<close>

lemma check_enum_iff: "check_enum k s a = Val None \<longleftrightarrow> enum_allows a s"
proof (cases "map_get a ''enum''")
  case (Some v)
  show ?thesis
  proof (cases v)
    case (GSlice vs)
    have "list_all (\<lambda>v. case v of GString _ \<Rightarrow> True | _ \<Rightarrow> False) vs \<longleftrightarrow> (\<exists>ss. vs = map GString ss)"
    proof (induction vs)
      case (Cons x xs)
      then show ?case by (cases x) (auto simp: Cons_eq_map_conv)
    qed simp
    then show ?thesis
      using Some GSlice
      by (auto simp: check_enum_def enum_allows_def obind_eq_Val string_elements_Val Let_def)
  qed (use Some in \<open>simp_all add: check_enum_def enum_allows_def\<close>)
qed (simp add: check_enum_def enum_allows_def)

lemma check_bounds_iff:
  "check_bounds k s lo hi = Val None \<longleftrightarrow>
     lower_allows (of_nat (rune_count s)) lo \<and> upper_allows (of_nat (rune_count s)) hi \<and> ordered_bounds lo hi"
  by (cases lo; cases hi)
    (auto simp: check_bounds_def lower_allows_def upper_allows_def ordered_bounds_def Let_def)

lemma check_length_iff: "check_length k s a = Val None \<longleftrightarrow> length_allows a s"
proof (cases "map_index a ''length''")
  case (GSlice spec)
  consider "spec = []" | x where "spec = [x]" | lo hi where "spec = [lo, hi]"
    | x y z zs where "spec = x # y # z # zs" by (metis neq_Nil_conv)
  then show ?thesis
  proof cases
    case (2 x)
    with GSlice show ?thesis
      by (cases x) (auto simp: check_length_def length_allows_def Let_def)
  qed (use GSlice in \<open>auto simp: check_length_def length_allows_def check_bounds_iff Let_def\<close>)
qed (simp_all add: check_length_def length_allows_def Let_def)

lemma check_string_iff: "(\<exists>v. check_string ext k s vm = Val (None, v)) \<longleftrightarrow> string_allows ext vm s"
proof (cases "map_get vm ''additional_validation''")
  case (Some v)
  show ?thesis
  proof (cases v)
    case (GString t)
    with Some show ?thesis by (auto simp: check_string_def string_allows_def split: sum.split)
  next
    case (GMap a)
    with Some show ?thesis
      by (auto simp: check_string_def obind_eq_Val string_allows_def check_enum_iff check_length_iff
          split: option.splits)
  qed (use Some in \<open>auto simp: check_string_def string_allows_def\<close>)
qed (auto simp: check_string_def string_allows_def)

section \<open>The check against the reference\<close>

lemma null_ok_Val: "(\<exists>n. null_ok vm = Val n) \<longleftrightarrow> map_get vm ''null_ok'' \<noteq> Some GNil"
  using null_ok_total [of vm] by (auto simp: null_ok_def)

lemma null_ok_True: "null_ok vm = Val True \<longleftrightarrow> map_get vm ''null_ok'' = Some (GBool True)"
  by (auto simp: null_ok_def obind_eq_Val as_bool_Val kind_of_cases split: option.splits if_splits)

lemma field_valid:
  assumes "\<And>m sub. v = GMap m \<Longrightarrow> map_index vm ''sub_type'' = GMap sub \<Longrightarrow>
    (\<exists>m'. ValidateWithSchema ext ord m sub action = Val (None, m')) \<longleftrightarrow> admissible ext action sub m"
    and "v \<noteq> GNil" and "map_get vm ''null_ok'' \<noteq> Some GNil"
  shows "(\<exists>w. field_accepts ext ord action k v vm w) \<longleftrightarrow> valid_value ext action vm v"
proof
  assume "\<exists>w. field_accepts ext ord action k v vm w"
  then obtain w where w: "field_accepts ext ord action k v vm w" by blast
  then obtain kd where ty: "map_get vm ''type'' = Some (GKind kd)"
    by (auto simp: field_accepts_def split: option.splits gval.splits)
  with assms(3) have "typed vm kd" by (simp add: typed_def)
  show "valid_value ext action vm v"
  proof (cases kd)
    case KMap
    with w ty obtain m sub m' where m: "v = GMap m" "map_index vm ''sub_type'' = GMap sub"
      "ValidateWithSchema ext ord m sub action = Val (None, m')"
      by (auto simp: field_accepts_def)
    then have "admissible ext action sub m" using assms(1) by blast
    with m KMap \<open>typed vm kd\<close> show ?thesis by (auto intro: nested)
  next
    case KString
    with w ty obtain s v' where s: "v = GString s" "check_string ext k s vm = Val (None, v')"
      by (auto simp: field_accepts_def)
    then have "string_allows ext vm s" using check_string_iff by blast
    with s KString \<open>typed vm kd\<close> show ?thesis by (auto intro: string)
  qed (use w ty \<open>typed vm kd\<close> in \<open>auto simp: field_accepts_def intro: admissible_valid_value.intros\<close>)
next
  assume "valid_value ext action vm v"
  then show "\<exists>w. field_accepts ext ord action k v vm w"
  proof cases
    case (string s)
    then show ?thesis using check_string_iff [of ext k s vm] by (auto simp: field_accepts_def typed_def)
  next
    case (nested sub m)
    then show ?thesis using assms(1) [of m sub] by (auto simp: field_accepts_def typed_def)
  qed (use assms(2) in \<open>auto simp: field_accepts_def typed_def\<close>)
qed

lemma entry_valid:
  assumes "\<And>m sub. v = GMap m \<Longrightarrow> map_index vm ''sub_type'' = GMap sub \<Longrightarrow>
    (\<exists>m'. ValidateWithSchema ext ord m sub action = Val (None, m')) \<longleftrightarrow> admissible ext action sub m"
  shows "(\<exists>w. validate_field ext ord action k v vm = Val (None, w)) \<longleftrightarrow> valid_value ext action vm v"
proof (cases "v = GNil")
  case True
  have "(\<exists>n. null_ok vm = Val n \<and> n) \<longleftrightarrow> map_get vm ''null_ok'' = Some (GBool True)"
    using null_ok_True [of vm] by auto
  with True show ?thesis
    by (auto simp: validate_field_ok valid_value_null typed_def)
next
  case False
  show ?thesis
  proof (cases "map_get vm ''null_ok'' = Some GNil")
    case True
    then have "\<nexists>n. null_ok vm = Val n" using null_ok_Val by blast
    moreover have "\<not> valid_value ext action vm v"
      using True False by (auto elim!: valid_value_elim simp: typed_def)
    ultimately show ?thesis by (auto simp: validate_field_ok)
  next
    case nn: False
    then obtain n where "null_ok vm = Val n" using null_ok_Val by blast
    moreover have "valid_value ext action vm v \<Longrightarrow> map_get vm ''type'' \<noteq> None"
      by (erule valid_value_elim) (auto simp: typed_def)
    ultimately show ?thesis
      using field_valid [OF assms False nn] False by (auto simp: validate_field_ok)
  qed
qed

lemma accepted_iff_admissible:
  assumes "wf_val (GMap input)"
  shows "(\<exists>out. ValidateWithSchema ext ord input schema action = Val (None, out)) \<longleftrightarrow>
    admissible ext action schema input"
  using assms
proof (induction schema arbitrary: input rule: schema_induct)
  case (schema schema)
  note wf = wf_val_map [OF schema.prems]
  have entry: "(\<exists>w. validate_field ext ord action k v vm = Val (None, w)) \<longleftrightarrow> valid_value ext action vm v"
    if kv: "(k, v) \<in> set (entries input)" and leg: "map_index schema ''legend'' = GMap legend"
      and vm: "map_index legend k = GMap vm" for legend k v vm
  proof (rule entry_valid)
    fix m sub assume "v = GMap m" and "map_index vm ''sub_type'' = GMap sub"
    moreover from this have "subschema sub schema" using leg vm by (auto simp: subschema_def)
    ultimately show "(\<exists>m'. ValidateWithSchema ext ord m sub action = Val (None, m')) \<longleftrightarrow> admissible ext action sub m"
      using schema.IH wf_val_entry [OF schema.prems kv] by blast
  qed
  have all: "(\<forall>e \<in> set (entries input). legend.ok ext ord legend action e) \<longleftrightarrow>
      (\<forall>k v vm. map_get input k = Some v \<longrightarrow> map_index legend k = GMap vm \<longrightarrow> valid_value ext action vm v)"
    if "map_index schema ''legend'' = GMap legend" for legend
  proof -
    have "map_get input k = Some v \<longleftrightarrow> (k, v) \<in> set (entries input)" for k v
      using wf by (simp add: map_get_def wf_map_def)
    then show ?thesis using entry [OF _ that] by (auto simp: legend_ok_iff)
  qed
  show ?case
  proof
    assume "\<exists>out. ValidateWithSchema ext ord input schema action = Val (None, out)"
    then obtain rf ro legend where "requirements schema action = Val (rf, ro)"
      "map_index schema ''legend'' = GMap legend" "\<forall>f \<in> set rf. map_get input f \<noteq> None"
      "ro \<longrightarrow> (\<exists>k. map_get legend k \<noteq> None \<and> k \<notin> set rf \<and> map_get input k \<noteq> None)"
      "\<forall>e \<in> set (entries input). legend.ok ext ord legend action e"
      unfolding ValidateWithSchema_ok [OF wf] by blast
    then show "admissible ext action schema input"
      using all [of legend] by (intro document [of schema action rf ro legend]) blast+
  next
    assume "admissible ext action schema input"
    then show "\<exists>out. ValidateWithSchema ext ord input schema action = Val (None, out)"
    proof cases
      case (document rf ro legend)
      then show ?thesis
        unfolding ValidateWithSchema_ok [OF wf] using all [of legend] by blast
    qed
  qed
qed

text \<open>
  C4. ValidateWithSchema accepts exactly the documents that a reference definition without
  loops, orders, panics or error texts admits (admissible): the required fields are there,
  one optional field where one is asked for, and every field the legend knows has a value
  that its type and its additional validation allow.
\<close>

theorem validate_exact:
  assumes "wf_val (GMap input)"
  shows "(\<exists>out. ValidateWithSchema ext ord input schema action = Val (None, out)) \<longleftrightarrow>
    admissible ext action schema input"
  by (rule accepted_iff_admissible [OF assms])

end
