(* ===== verification/Server.thy ===== *)
theory Server
  imports Service
begin

text \<open>
  Package main (\<open>main.go\<close>), the running server: the router picks a handler for a path, and
  package net/http runs it. The router of gorilla/mux is a parameter: \<open>mux_Match\<close> takes a path
  template and a path to the variables of a match, \<open>mux_cleanPath\<close> is the canonical form of a path,
  and \<open>mux_URL\<close> is the text of the URL of a request with another path. A handler that panics is
  stopped by net/http, which drops the connection and goes on with the next request; what the
  handler had sent to the database or the queue stays sent.
\<close>

section \<open>Routing\<close>

record router =
  mux_Match :: "string \<Rightarrow> string \<Rightarrow> (string \<times> string) list option"
  mux_cleanPath :: "string \<Rightarrow> string"
  mux_URL :: "string \<Rightarrow> request \<Rightarrow> string"

text \<open>\<open>HandlerWrapper\<close>: the handler gets the configuration of the process.\<close>

definition HandlerWrapper ::
    "'s environment \<Rightarrow> handlerFunction \<Rightarrow> ProcessConfiguration \<Rightarrow> request \<Rightarrow> ('s world, unit) proc" where
  "HandlerWrapper env fn processConfig = (\<lambda>r. run_handler fn env processConfig r)"

text \<open>The templates are tried in the order they were registered, on a path that is clean.\<close>

definition find_route ::
    "router \<Rightarrow> ProcessConfiguration \<Rightarrow> string \<Rightarrow> (handlerFunction \<times> (string \<times> string) list) option" where
  "find_route mux processConfig path =
     (case List.map_filter (\<lambda>(pattern, fn). map_option (\<lambda>vars. (fn, vars)) (mux_Match mux pattern path))
             (routes processConfig) of
        [] \<Rightarrow> None
      | m # _ \<Rightarrow> Some m)"

text \<open>
  The router (\<open>mux.NewRouter\<close>, its settings as they are) sends a path that is not clean to the clean
  one, with the status \<open>http.StatusMovedPermanently\<close>, before it looks at the templates. A clean path
  without a route gets the answer of \<open>http.NotFound\<close>.
\<close>

definition moved_permanently :: "string \<Rightarrow> response_writer \<Rightarrow> response_writer" where
  "moved_permanently location w = WriteHeader 301 (Header_Set ''Location'' location w)"

definition ServeHTTP ::
    "router \<Rightarrow> 's environment \<Rightarrow> ProcessConfiguration \<Rightarrow> string \<Rightarrow> request \<Rightarrow> ('s world, unit) proc" where
  "ServeHTTP mux env processConfig path r =
     (let p = mux_cleanPath mux path in
      if p \<noteq> path then write_answer (moved_permanently (mux_URL mux p r))
      else (case find_route mux processConfig path of
          None \<Rightarrow> write_answer (http_Error ''404 page not found'' 404)
        | Some (fn, vars) \<Rightarrow> HandlerWrapper env fn processConfig (r\<lparr>Vars := vars\<rparr>)))"

section \<open>Requests one after the other\<close>

text \<open>What the client gets: the status and the body, which net/http leaves out in the answer to a
  \<open>HEAD\<close> request, or nothing when the handler has panicked.\<close>

definition sent_body :: "request \<Rightarrow> response_writer \<Rightarrow> string" where
  "sent_body r w = (if Method r = ''HEAD'' then [] else rw_body w)"

definition serve_request ::
    "router \<Rightarrow> 's environment \<Rightarrow> ProcessConfiguration \<Rightarrow> string \<times> request \<Rightarrow> 's
      \<Rightarrow> (nat \<times> string) option \<times> 's" where
  "serve_request mux env processConfig = (\<lambda>(path, r) s.
     case ServeHTTP mux env processConfig path r \<lparr>outside = s, writer = fresh_writer\<rparr> of
       (Val _, w) \<Rightarrow> (Some (final_status (writer w), sent_body r (writer w)), outside w)
     | (Panic _, w) \<Rightarrow> (None, outside w))"

fun serve_requests ::
    "router \<Rightarrow> 's environment \<Rightarrow> ProcessConfiguration \<Rightarrow> (string \<times> request) list \<Rightarrow> 's
      \<Rightarrow> (nat \<times> string) option list \<times> 's" where
  "serve_requests mux env processConfig [] s = ([], s)"
| "serve_requests mux env processConfig (q # qs) s =
     (let (answer, s1) = serve_request mux env processConfig q s;
          (answers, s2) = serve_requests mux env processConfig qs s1
      in (answer # answers, s2))"

end
