(* ===== verification/Protocol.thy ===== *)
theory Protocol
  imports Server
begin

text \<open>
  What a handler does to the world, as a state machine: it opens a pool, then sends a statement,
  then a message, each at most once and in this order. \<open>effect\<close> is the step relation on the phase
  of a request and the outside world; \<open>ends\<close> is the judgement that a \<open>proc\<close> moves along it, with
  rules for the ways the handlers are composed.
\<close>

section \<open>Phases\<close>

datatype phase = Fresh | Opened | Queried | Announced

instantiation phase :: linorder
begin

definition phase_rank :: "phase \<Rightarrow> nat" where
  "phase_rank p = (case p of Fresh \<Rightarrow> 0 | Opened \<Rightarrow> 1 | Queried \<Rightarrow> 2 | Announced \<Rightarrow> 3)"

definition less_eq_phase :: "phase \<Rightarrow> phase \<Rightarrow> bool" where
  "less_eq_phase a b \<longleftrightarrow> phase_rank a \<le> phase_rank b"

definition less_phase :: "phase \<Rightarrow> phase \<Rightarrow> bool" where
  "less_phase a b \<longleftrightarrow> phase_rank a < phase_rank b"

instance
  by standard (auto simp: less_eq_phase_def less_phase_def phase_rank_def split: phase.splits)

end

text \<open>The steps: one for each way the program reaches the database or the queue.\<close>

inductive effect :: "'s environment \<Rightarrow> phase \<times> 's \<Rightarrow> phase \<times> 's \<Rightarrow> bool" for env where
  open_pool: "effect env (Fresh, s) (Opened, snd (sql_Open (env_db env) drv name s))"
| query: "effect env (Opened, s) (Queried, snd (db_Query (env_db env) h stmt args s))"
| exec: "effect env (Opened, s) (Queried, snd (db_Exec (env_db env) h stmt args s))"
| announce: "effect env (Queried, s) (Announced, snd (env_SendMessage env topic msg s))"
| pageview: "effect env (Fresh, s) (Announced, snd (env_SendMessage env topic msg s))"

inductive_cases effect_from: "effect env (p, s) (p', s')"

lemma effect_increases: "effect env (p, s) (p', s') \<Longrightarrow> p < p'"
  by (erule effect_from) (auto simp: less_phase_def phase_rank_def)

section \<open>A judgement for handlers\<close>

text \<open>From phase \<open>a\<close> the \<open>proc\<close> takes steps; when it returns a value, the value and the phase it
  ends in satisfy \<open>Q\<close>. A \<open>proc\<close> that panics has taken steps as well.\<close>

definition ends ::
    "'s environment \<Rightarrow> phase \<Rightarrow> ('a \<Rightarrow> phase \<Rightarrow> bool) \<Rightarrow> ('s world, 'a) proc \<Rightarrow> bool" where
  "ends env a Q p \<longleftrightarrow> (\<forall>w. \<exists>c. (effect env)\<^sup>*\<^sup>* (a, outside w) (c, outside (snd (p w))) \<and>
     (\<forall>v. fst (p w) = Val v \<longrightarrow> Q v c))"

lemma ends_bind:
  assumes "ends env a Q m" and "\<And>v c. Q v c \<Longrightarrow> ends env c R (k v)"
  shows "ends env a R (pbind m k)"
  unfolding ends_def
proof
  fix w
  from assms(1) obtain c where c: "(effect env)\<^sup>*\<^sup>* (a, outside w) (c, outside (snd (m w)))"
    and Q: "\<And>v. fst (m w) = Val v \<Longrightarrow> Q v c" unfolding ends_def by blast
  show "\<exists>c. (effect env)\<^sup>*\<^sup>* (a, outside w) (c, outside (snd (pbind m k w))) \<and>
      (\<forall>v. fst (pbind m k w) = Val v \<longrightarrow> R v c)"
  proof (cases "fst (m w)")
    case (Panic p)
    with c show ?thesis by (auto simp: pbind_apply)
  next
    case (Val v)
    with assms(2) [OF Q [OF Val]] c show ?thesis
      unfolding ends_def pbind_apply by simp (metis rtranclp_trans)
  qed
qed

lemma ends_step:
  assumes "\<And>w. effect env (a, outside w) (c, outside (snd (p w)))" and "\<And>v. Q v c"
  shows "ends env a Q p"
  unfolding ends_def using assms by (meson r_into_rtranclp)

lemma ends_still:
  assumes "\<And>w. outside (snd (p w)) = outside w" and "\<And>v. Q v a"
  shows "ends env a Q p"
  unfolding ends_def using assms by (metis rtranclp.rtrancl_refl)

lemma ends_weaken: "ends env a Q p \<Longrightarrow> (\<And>v c. Q v c \<Longrightarrow> R v c) \<Longrightarrow> ends env a R p"
  unfolding ends_def by meson

lemma ends_preturn [ends_rules]: "Q v a \<Longrightarrow> ends env a Q (preturn v)"
  unfolding ends_def by auto

lemma ends_plift: "(\<And>v. m = Val v \<Longrightarrow> Q v a) \<Longrightarrow> ends env a Q (plift m)"
  unfolding ends_def by auto

lemma ends_plift_bind [ends_rules]:
  "(\<And>v. m = Val v \<Longrightarrow> ends env a R (k v)) \<Longrightarrow> ends env a R (pbind (plift m) k)"
  by (cases m) (auto simp: ends_def)

abbreviation anywhere :: "'a \<Rightarrow> phase \<Rightarrow> bool" where
  "anywhere \<equiv> \<lambda>_ _. True"

lemma outside_reply [simp]: "outside (snd (reply env f doc w)) = outside w"
  by (simp add: reply_def split: outcome.split prod.split)

lemma ends_reply [ends_rules]: "ends env a anywhere (reply env' f doc)"
  by (rule ends_still) simp_all

lemma ends_reply_error [ends_rules]: "ends env a anywhere (reply_error env' f e)"
  unfolding reply_error_def by (rule ends_reply)

lemma ends_invalid_method [ends_rules]: "ends env a anywhere (invalid_method env')"
  unfolding invalid_method_def by (rule ends_reply)

lemma ends_write_answer: "(\<And>v. Q v a) \<Longrightarrow> ends env a Q (write_answer f)"
  by (rule ends_still) (simp_all add: write_answer_def)

section \<open>The operations of the data layer\<close>

lemma GetDatabaseHandleFromCfg_world:
  "snd (GetDatabaseHandleFromCfg db cfg s) = snd (sql_Open db ''postgres'' (GetURI cfg) s)"
  by (simp add: GetDatabaseHandleFromCfg_def open_pool_def pbind_apply split: option.split)

lemma ends_open: "ends env Fresh (\<lambda>_ c. c = Opened) (on_outside (GetDatabaseHandleFromCfg (env_db env) cfg))"
  by (rule ends_step) (simp_all add: GetDatabaseHandleFromCfg_world open_pool)

lemma ends_Query: "ends env Opened (\<lambda>_ c. c = Queried) (on_outside (Query (env_db env) dbh stmt args))"
  unfolding ends_def Query_def
  by (auto split: option.split intro: query)

lemma ends_Exec: "ends env Opened (\<lambda>_ c. c = Queried) (on_outside (Exec (env_db env) dbh stmt args))"
  unfolding ends_def Exec_def
  by (auto split: option.split intro: exec)

lemma ends_query_bind [ends_rules]:
  "(\<And>r. ends env Queried R (k r)) \<Longrightarrow>
   ends env Opened R (pbind (on_outside (Query (env_db env) dbh stmt args)) k)"
  by (rule ends_bind [OF ends_Query]) simp

lemma ends_exec_bind [ends_rules]:
  "(\<And>r. ends env Queried R (k r)) \<Longrightarrow>
   ends env Opened R (pbind (on_outside (Exec (env_db env) dbh stmt args)) k)"
  by (rule ends_bind [OF ends_Exec]) simp

lemma on_outside_pbind: "on_outside (pbind m k) = pbind (on_outside m) (\<lambda>a. on_outside (k a))"
  by (rule ext) (simp add: pbind_apply split: outcome.split)

lemma on_outside_plift [simp]: "on_outside (plift m) = plift m"
  by (rule ext) simp

lemma on_outside_preturn [simp]: "on_outside (preturn m) = preturn m"
  by (rule ext) simp

lemma ends_ExecuteProc:
  "ends env Opened (\<lambda>_ c. c = Queried) (on_outside (ExecuteProc (env_db env) pFE procArgs))"
  unfolding ExecuteProc_def Let_def
  by (auto simp: on_outside_pbind intro!: ends_rules split: sum.split prod.split)

lemma ends_pDH_ExecuteProc:
  "ends env Opened (\<lambda>_ c. c = Queried) (on_outside (pDH_ExecuteProc (env_db env) pDH name args))"
  unfolding pDH_ExecuteProc_def Let_def
  by (auto simp: on_outside_pbind intro!: ends_rules split: sum.split prod.split)

text \<open>The other operations may refuse before they send anything; then they return an error.\<close>

definition sent :: "goerror option \<times> 'a \<Rightarrow> phase \<Rightarrow> bool" where
  "sent r c \<longleftrightarrow> (fst r = None \<longrightarrow> c = Queried)"

lemma ends_FindRecord: "ends env Opened sent (on_outside (FindRecord (env_db env) ord pDH args))"
  unfolding FindRecord_def Let_def
  by (auto simp: on_outside_pbind sent_def intro!: ends_rules split: sum.split prod.split option.split)

lemma ends_run_dml: "ends env Opened sent (on_outside (run_dml (env_db env) pDH))"
  unfolding run_dml_def
  by (auto simp: on_outside_pbind sent_def intro!: ends_rules split: sum.split prod.split)

lemma ends_UpdateRecord: "ends env Opened sent (on_outside (UpdateRecord (env_db env) ord pDH doc))"
  unfolding UpdateRecord_def
  by (auto simp: on_outside_pbind sent_def intro!: ends_rules ends_run_dml split: prod.split option.split)

lemma ends_DeleteRecord: "ends env Opened sent (on_outside (DeleteRecord (env_db env) ord pDH))"
  unfolding DeleteRecord_def
  by (auto simp: on_outside_pbind sent_def intro!: ends_rules ends_run_dml split: prod.split option.split)

lemma ends_sendMessage:
  assumes "a \<in> {Fresh, Queried}"
  shows "ends env a (\<lambda>_ c. c = Announced) (sendMessage env cfg msg)"
proof -
  have "ends env a (\<lambda>_ c. c = Announced) (on_outside (pcall (env_SendMessage env topic m)))" for topic m
    using assms by (intro ends_step) (auto intro: announce pageview)
  then show ?thesis
    unfolding sendMessage_def Let_def
    by (auto intro!: ends_plift ends_bind ends_preturn split: sum.split prod.split option.split)
qed

section \<open>The parts of the handlers\<close>

lemma ends_with_input [ends_rules]:
  "(\<And>doc. ends env a R (k doc)) \<Longrightarrow> R = anywhere \<Longrightarrow> ends env a R (with_input env r k)"
  by (auto simp: with_input_def split: prod.split option.split intro: ends_rules)

lemma ends_with_connection [ends_rules]:
  "(\<And>conn. ends env Opened anywhere (k conn)) \<Longrightarrow> ends env Fresh anywhere (with_connection env cfg k)"
  unfolding with_connection_def
  by (rule ends_bind [OF ends_open]) (auto split: prod.split option.split intro: ends_rules)

lemma ends_with_valid [ends_rules]:
  "(\<And>doc. ends env a anywhere (k doc)) \<Longrightarrow> ends env a anywhere (with_valid env cfg sect action doc k)"
  unfolding with_valid_def validate_input_def
  by (auto split: prod.split option.split intro!: ends_rules)

lemma ends_with_handler [ends_rules]:
  "(\<And>pDH. ends env a anywhere (k pDH)) \<Longrightarrow> ends env a anywhere (with_handler env conn t k)"
  unfolding with_handler_def
  by (auto split: prod.split option.split intro!: ends_rules)

lemma ends_with_query [ends_rules]:
  "(\<And>pDH. ends env a anywhere (k pDH)) \<Longrightarrow> ends env a anywhere (with_query env r pDH k)"
  unfolding with_query_def Let_def
  by (auto split: sum.split intro!: ends_rules)

lemma ends_with_found [ends_rules]:
  "(\<And>pDH. ends env Queried anywhere (k pDH)) \<Longrightarrow> ends env Opened anywhere (with_found env pDH args k)"
  unfolding with_found_def
  by (rule ends_bind [OF ends_FindRecord])
    (auto simp: sent_def split: prod.split option.split intro: ends_rules)

lemma ends_call_function [ends_rules]:
  "(\<And>pFE. ends env Queried anywhere (k pFE)) \<Longrightarrow> ends env Opened anywhere (call_function env conn f args doc k)"
  unfolding call_function_def
  by (auto split: prod.split option.split intro!: ends_bind [OF ends_ExecuteProc] intro: ends_rules)

lemma ends_let_answer [ends_rules]:
  "(\<And>v. ends env a anywhere (k v)) \<Longrightarrow> ends env a anywhere (pbind (write_answer f) k)"
  by (rule ends_bind [OF ends_write_answer [where Q = "\<lambda>_ c. c = a"]]) auto

lemma ends_answer [ends_rules]: "ends env a anywhere (write_answer f)"
  by (rule ends_write_answer) simp

lemma ends_announce [ends_rules]: "ends env Queried anywhere (announce env cfg kd ident)"
  unfolding announce_def by (rule ends_bind [OF ends_sendMessage]) (auto intro: ends_rules)

section \<open>The handlers\<close>

lemma ends_exec_content [ends_rules]:
  "(\<And>v. ends env Queried anywhere (k v)) \<Longrightarrow>
   ends env Opened anywhere (pbind (on_outside (pDH_ExecuteProc (env_db env) pDH name args)) k)"
  by (rule ends_bind [OF ends_pDH_ExecuteProc]) simp

lemma ends_change:
  assumes "ends env a sent m" and "\<And>pDH. ends env Queried anywhere (k (None, pDH))"
    and "\<And>c e pDH. ends env c anywhere (k (Some e, pDH))"
  shows "ends env a anywhere (pbind m k)"
proof (rule ends_bind [OF assms(1)])
  fix r :: "goerror option \<times> 'b" and c
  assume "sent r c"
  then show "ends env c anywhere (k r)" using assms(2,3) by (cases r; cases "fst r") (auto simp: sent_def)
qed

lemmas ends_changes [ends_rules] = ends_change [OF ends_UpdateRecord] ends_change [OF ends_DeleteRecord]

lemma ends_reply_some [ends_rules]:
  "(\<And>v. ends env a anywhere (k v)) \<Longrightarrow> ends env a anywhere (pbind (reply_some env n) k)"
  by (rule ends_bind [where Q = "\<lambda>_ c. c = a"], rule ends_still)
    (auto simp: reply_some_def write_answer_def)

lemma ends_reply_some_last [ends_rules]: "ends env a anywhere (reply_some env n)"
  by (rule ends_still) (auto simp: reply_some_def write_answer_def)

lemma ends_handler: "ends env Fresh anywhere (run_handler h env cfg r)"
proof (cases h)
  case RInsertClient
  then show ?thesis
    by (auto simp: run_handler_def InsertClientHandler_def insert_client_post_def
        intro!: ends_rules split: prod.split)
next
  case RUpdateClient
  then show ?thesis
    by (auto simp: run_handler_def UpdateClientHandler_def update_client_post_def update_client_patch_def
        update_client_delete_def reply_one_def Let_def intro!: ends_rules split: prod.split)
next
  case RFindOneClient
  then show ?thesis by (auto simp: run_handler_def FindOneClientHandler_def intro!: ends_rules)
next
  case RFindManyClient
  then show ?thesis
    by (auto simp: run_handler_def FindManyClientHandler_def reply_found_def Let_def
        intro!: ends_rules split: prod.split)
next
  case RInsertContent
  then show ?thesis
    by (auto simp: run_handler_def InsertContentHandler_def insert_content_get_def insert_content_post_def
        reply_found_def Let_def intro!: ends_rules split: prod.split option.split)
next
  case RUpdateContent
  then show ?thesis
    by (auto simp: run_handler_def UpdateContentHandler_def update_content_get_def update_content_change_def
        update_content_delete_def reply_found_def Let_def intro!: ends_rules split: prod.split option.split)
next
  case RFindManyContent
  have "ends env a anywhere (\<lambda>w. case MakeDataArrayResponse ext rec (writer w) of
      Val (err, rw) \<Rightarrow> (Val (), w\<lparr>writer := rw\<rparr>) | Panic p \<Rightarrow> (Panic p, w))" for a ext rec
    by (rule ends_still) (auto split: outcome.split)
  with RFindManyContent show ?thesis
    by (auto simp: run_handler_def FindManyContentHandler_def Let_def intro!: ends_rules split: prod.split)
next
  case RProcessPageview
  then show ?thesis
    by (auto simp: run_handler_def ProcessPageviewHandler_def intro!: ends_rules
        ends_bind [OF ends_sendMessage] split: prod.split option.split sum.split)
qed

text \<open>
  C6. Whatever the request, the configuration and the answers of the database are, a request
  opens at most one pool, then sends at most one statement, then at most one message to the
  queue, in that order; this also holds when the handler panics.
\<close>

theorem one_statement_one_message:
  "\<exists>phase. (effect env)\<^sup>*\<^sup>* (Fresh, outside w) (phase, outside (snd (ServeHTTP mux env cfg path r w)))"
proof -
  have "ends env Fresh anywhere (ServeHTTP mux env cfg path r)"
    by (auto simp: ServeHTTP_def HandlerWrapper_def Let_def intro!: ends_rules ends_handler split: option.split)
  then show ?thesis by (auto simp: ends_def)
qed

end
