(* ===== verification/Pg_Store.thy ===== *)
theory Pg_Store
  imports Go_Strings Complex_Main
begin

text \<open>
  The database of the service (\<open>pgsql/content.sql\<close>): its tables and the stored functions that
  change them. A \<open>store\<close> holds the rows of the tables; a stored function takes its arguments
  (\<open>None\<close> is the SQL null) and gives its result and the new store, or the error that rolls the
  statement back. \<open>uuid_generate_v1()\<close> is outside the repository: the identifier it yields is the
  argument \<open>new\<close> of the functions that insert. A uuid is its text, a timestamp a number of
  microseconds, a date a number of days; a bigint is an \<open>int\<close> with its range checked. The texts are
  in UTF-8, and their characters are counted by \<open>rune_count\<close>.
\<close>

section \<open>Tables\<close>

datatype sql_error =
    Not_null_violation
  | Unique_violation
  | Foreign_key_violation
  | Duplicate_table
  | Undefined_table
  | Syntax_error
  | Bigint_out_of_range
  | String_right_truncation
  | Raised string            \<comment> \<open>RAISE EXCEPTION\<close>

type_synonym uuid = string
type_synonym counter = "((int \<times> uuid) \<times> int) list"   \<comment> \<open>date and key to \<open>pageview_count\<close>\<close>

record content_row =
  cr_id :: uuid
  cr_name :: string
  cr_url :: string
  cr_client_id :: uuid

record store =
  source_ref :: "(string \<times> int) list"
  client :: "(uuid \<times> string) list"
  content :: "content_row list"
  content_counter :: counter
  content_counter_of :: "(string \<times> counter) list"    \<comment> \<open>the tables \<open>content_counter_<hex>\<close>\<close>
  client_counter :: counter

definition empty_store :: store where
  "empty_store = \<lparr>source_ref = [], client = [], content = [], content_counter = [],
     content_counter_of = [], client_counter = []\<rparr>"

type_synonym 'a sql_result = "sql_error + 'a \<times> store"

text \<open>\<open>date(ts)\<close>\<close>

definition date_of :: "int \<Rightarrow> int" where
  "date_of ts = ts div 86400000000"

text \<open>A value stored in a \<open>varchar(32)\<close> column, with room for 32 characters: an excess of blanks is
  cut off, and the excess consists of blanks exactly when so many bytes at the end are blanks.\<close>

definition to_varchar32 :: "string \<Rightarrow> sql_error + string" where
  "to_varchar32 s =
     (let kept = length s - (rune_count s - 32) in
      if rune_count s \<le> 32 then Inr s
      else if list_all (\<lambda>c. c = CHR '' '') (drop kept s) then Inr (take kept s)
      else Inl String_right_truncation)"

section \<open>References into the queue\<close>

text \<open>A null \<open>sid\<close> equals no \<open>source_id\<close>, and cannot be inserted.\<close>

definition get_source_ref :: "string option \<Rightarrow> store \<Rightarrow> int option" where
  "get_source_ref sid s = (case sid of None \<Rightarrow> None | Some k \<Rightarrow> map_of (source_ref s) k)"

definition insert_source_ref :: "string option \<Rightarrow> int \<Rightarrow> store \<Rightarrow> int option sql_result" where
  "insert_source_ref sid n s = (case sid of
     None \<Rightarrow> Inl Not_null_violation
   | Some k \<Rightarrow> (case to_varchar32 k of
       Inl e \<Rightarrow> Inl e
     | Inr k' \<Rightarrow>
         if map_of (source_ref s) k' \<noteq> None then Inl Unique_violation
         else Inr (Some n, s\<lparr>source_ref := source_ref s @ [(k', n)]\<rparr>)))"

definition set_source_ref :: "string option \<Rightarrow> int option \<Rightarrow> store \<Rightarrow> int option sql_result" where
  "set_source_ref sid sr s = (case sr of
     None \<Rightarrow> Inr (sr, case sid of
         None \<Rightarrow> s
       | Some k \<Rightarrow> s\<lparr>source_ref := AList.delete k (source_ref s)\<rparr>)
   | Some n \<Rightarrow> (case sid of
         None \<Rightarrow> insert_source_ref sid n s
       | Some k \<Rightarrow>
           if map_of (source_ref s) k \<noteq> None
           then Inr (sr, s\<lparr>source_ref := AList.update k n (source_ref s)\<rparr>)
           else insert_source_ref sid n s))"

definition get_message_ref :: "store \<Rightarrow> int option" where
  "get_message_ref s = get_source_ref (Some ''content_pv_queue'') s"

definition set_message_ref :: "int option \<Rightarrow> store \<Rightarrow> int option sql_result" where
  "set_message_ref sr s = set_source_ref (Some ''content_pv_queue'') sr s"

section \<open>Clients and contents\<close>

text \<open>\<open>replace(id, '-', '')\<close>\<close>

definition undashed :: "uuid \<Rightarrow> string" where
  "undashed u = filter (\<lambda>c. c \<noteq> CHR ''-'') u"

definition insert_client :: "uuid \<Rightarrow> string option \<Rightarrow> store \<Rightarrow> uuid sql_result" where
  "insert_client new n s = (case n of
     None \<Rightarrow> Inl Not_null_violation
   | Some name \<Rightarrow>
       if new \<in> set (map fst (client s)) \<or> name \<in> set (map snd (client s)) then Inl Unique_violation
       else Inr (new, s\<lparr>client := client s @ [(new, name)]\<rparr>))"

text \<open>\<open>create table pageview.content_counter_<hex> (...) inherits (content_counter)\<close>\<close>

definition create_counter_table :: "string \<Rightarrow> store \<Rightarrow> sql_error + store" where
  "create_counter_table hex s =
     (if hex \<in> set (map fst (content_counter_of s)) then Inl Duplicate_table
      else Inr (s\<lparr>content_counter_of := content_counter_of s @ [(hex, [])]\<rparr>))"

definition create_client :: "uuid \<Rightarrow> string option \<Rightarrow> store \<Rightarrow> uuid sql_result" where
  "create_client new n s =
     (case find (\<lambda>(_, name). n = Some name) (client s) of
        Some (rv, _) \<Rightarrow> Inr (rv, s)
      | None \<Rightarrow>
          (case insert_client new n s of
             Inl e \<Rightarrow> Inl e
           | Inr (rv, s1) \<Rightarrow>
               (case create_counter_table (undashed rv) s1 of
                  Inl e \<Rightarrow> Inl e
                | Inr s2 \<Rightarrow> Inr (rv, s2))))"

definition content_add ::
    "uuid \<Rightarrow> uuid option \<Rightarrow> string option \<Rightarrow> string option \<Rightarrow> store \<Rightarrow> uuid sql_result" where
  "content_add new c n u s =
     (case find (\<lambda>r. u = Some (cr_url r)) (content s) of
        Some r \<Rightarrow> Inr (cr_id r, s)
      | None \<Rightarrow> (case (c, n, u) of
          (Some client_id, Some name, Some url) \<Rightarrow>
            if new \<in> set (map cr_id (content s)) then Inl Unique_violation
            else if client_id \<notin> set (map fst (client s)) then Inl Foreign_key_violation
            else Inr (new, s\<lparr>content := content s @
              [\<lparr>cr_id = new, cr_name = name, cr_url = url, cr_client_id = client_id\<rparr>]\<rparr>)
        | _ \<Rightarrow> Inl Not_null_violation))"

definition content_get :: "string option \<Rightarrow> store \<Rightarrow> sql_error + uuid" where
  "content_get u s =
     (let shown = (case u of Some url \<Rightarrow> url | None \<Rightarrow> ''<NULL>'') in
      case filter (\<lambda>r. u = Some (cr_url r)) (content s) of
        [] \<Rightarrow> Inl (Raised (''url '' @ shown @ '' not found''))
      | [r] \<Rightarrow> Inr (cr_id r)
      | _ \<Rightarrow> Inl (Raised (''url '' @ shown @ '' not unique'')))"

section \<open>Counting\<close>

text \<open>\<open>insert ... on conflict do update set pageview_count = cc.pageview_count + 1\<close>: the new count
  and the table.\<close>

definition count_up :: "int \<Rightarrow> uuid \<Rightarrow> counter \<Rightarrow> sql_error + int \<times> counter" where
  "count_up day key t = (case map_of t (day, key) of
     None \<Rightarrow> Inr (1, t @ [((day, key), 1)])
   | Some n \<Rightarrow>
       if n + 1 > 9223372036854775807 then Inl Bigint_out_of_range
       else Inr (n + 1, AList.update (day, key) (n + 1) t))"

definition client_pageview :: "uuid option \<Rightarrow> int option \<Rightarrow> store \<Rightarrow> int sql_result" where
  "client_pageview c pvd s = (case (c, pvd) of
     (Some client_id, Some ts) \<Rightarrow>
       (case count_up (date_of ts) client_id (client_counter s) of
          Inl e \<Rightarrow> Inl e
        | Inr (n, t) \<Rightarrow>
            if map_of (client_counter s) (date_of ts, client_id) = None
               \<and> client_id \<notin> set (map fst (client s)) then Inl Foreign_key_violation
            else Inr (n, s\<lparr>client_counter := t\<rparr>))
   | _ \<Rightarrow> Inl Not_null_violation)"

text \<open>\<open>select client_id from content where id = i\<close>\<close>

definition client_of :: "uuid option \<Rightarrow> store \<Rightarrow> uuid option" where
  "client_of i s = map_option cr_client_id (find (\<lambda>r. i = Some (cr_id r)) (content s))"

definition client_content_pageview :: "uuid option \<Rightarrow> int option \<Rightarrow> store \<Rightarrow> int sql_result" where
  "client_content_pageview i pvd s = client_pageview (client_of i s) pvd s"

text \<open>The three functions \<open>content_pageview\<close>, told apart by their arguments. The first counts in the
  parent table on the day \<open>today\<close>.\<close>

definition content_pageview_today :: "int \<Rightarrow> uuid option \<Rightarrow> store \<Rightarrow> int sql_result" where
  "content_pageview_today today i s = (case i of
     None \<Rightarrow> Inl Not_null_violation
   | Some key \<Rightarrow>
       (case count_up today key (content_counter s) of
          Inl e \<Rightarrow> Inl e
        | Inr (n, t) \<Rightarrow>
            if map_of (content_counter s) (today, key) = None
               \<and> key \<notin> set (map cr_id (content s)) then Inl Foreign_key_violation
            else Inr (n, s\<lparr>content_counter := t\<rparr>)))"

text \<open>
  The third function puts its statement together as text, with \<open>format\<close>: the text \<open>c\<close> of the client,
  without dashes, becomes part of the name of a table as it is, unquoted. A null leaves a hole.
  \<open>quoted\<close> is \<open>quote_literal\<close> of a uuid or a date, whose texts have neither quotes nor backslashes.
\<close>

definition quoted :: "string \<Rightarrow> string" where
  "quoted s = CHR 0x27 # s @ [CHR 0x27]"

definition counter_statement :: "string \<Rightarrow> string \<Rightarrow> string \<Rightarrow> string" where
  "counter_statement suffix key day =
     ''with pv_count as (\<newline>                insert into pageview.content_counter_'' @ suffix @ '' as cc'' @
     ''\<newline>                    (content_id, pageview_date, pageview_count)\<newline>                values'' @
     ''\<newline>                    ('' @ key @ '','' @ day @ '',1)'' @
     ''\<newline>                on conflict (pageview_date, content_id) do update set'' @
     ''\<newline>                    pageview_count = cc.pageview_count + 1'' @
     ''\<newline>                returning cc.pageview_count'' @
     ''\<newline>            ) select pageview_count from pv_count''"

text \<open>
  What \<open>EXECUTE\<close> makes of that text. Where the text of the client is a piece of a name - lower
  case letters, digits and underscores, that leave the name of the table within 63 characters - the
  statement is an insert into the table of that name, and a hole in its values is a syntax error.
  For any other text it is whatever PostgreSQL reads there, outside the repository: a parameter, like
  the text of a date.
\<close>

record postgres =
  pg_execute :: "string \<Rightarrow> store \<Rightarrow> int sql_result"
  pg_date_text :: "int \<Rightarrow> string"

definition name_piece :: "string \<Rightarrow> bool" where
  "name_piece t \<longleftrightarrow> length t \<le> 47 \<and> list_all (\<lambda>c. c \<in> set ''abcdefghijklmnopqrstuvwxyz0123456789_'') t"

text \<open>The table of a client has a primary key of its own and neither the foreign key nor any row of its
  parent.\<close>

definition run_counter_insert :: "string \<Rightarrow> uuid \<Rightarrow> int \<Rightarrow> store \<Rightarrow> int sql_result" where
  "run_counter_insert hex key day s = (case map_of (content_counter_of s) hex of
     None \<Rightarrow> Inl Undefined_table
   | Some t \<Rightarrow> (case count_up day key t of
       Inl e \<Rightarrow> Inl e
     | Inr (n, t') \<Rightarrow> Inr (n, s\<lparr>content_counter_of := AList.update hex t' (content_counter_of s)\<rparr>)))"

definition content_pageview_of ::
    "postgres \<Rightarrow> string option \<Rightarrow> uuid option \<Rightarrow> int option \<Rightarrow> store \<Rightarrow> int sql_result" where
  "content_pageview_of pg c i pvd s =
     (let suffix = (case c of Some t \<Rightarrow> undashed t | None \<Rightarrow> []);
          key = (case i of Some u \<Rightarrow> quoted u | None \<Rightarrow> []);
          day = (case pvd of Some ts \<Rightarrow> quoted (pg_date_text pg (date_of ts)) | None \<Rightarrow> [])
      in if \<not> name_piece suffix then pg_execute pg (counter_statement suffix key day) s
         else (case (i, pvd) of
             (Some u, Some ts) \<Rightarrow> run_counter_insert suffix u (date_of ts) s
           | _ \<Rightarrow> Inl Syntax_error))"

definition content_pageview :: "postgres \<Rightarrow> uuid option \<Rightarrow> int option \<Rightarrow> store \<Rightarrow> int sql_result" where
  "content_pageview pg i pvd s = content_pageview_of pg (map_option undashed (client_of i s)) i pvd s"

end
