(* ===== verification/Pg_Correct.thy ===== *)
theory Pg_Correct
  imports Pg_Store
begin

text \<open>
  What the stored functions promise: the keys and references of the tables, which hold in every
  state they can reach (\<open>db_step\<close>), that creating a client is idempotent, and that a counter
  counts the pageviews of its content and day and nothing else. \<open>content_pageview\<close> with a text is the
  one function whose caller can write into a statement; what is said of the reachable states holds
  while that text is a piece of a name.
\<close>

lemma found: "find p xs = Some x \<Longrightarrow> x \<in> set xs \<and> p x"
  by (induction xs) (auto split: if_splits)

lemma find_by_value:
  "distinct (map snd xs) \<Longrightarrow> (k, v) \<in> set xs \<Longrightarrow> find (\<lambda>(_, w). v = w) xs = Some (k, v)"
  by (induction xs) force+

section \<open>Identifiers\<close>

definition uuid_shape :: "bool list" where
  "uuid_shape = replicate 8 False @ [True] @ replicate 4 False @ [True] @ replicate 4 False @ [True] @
     replicate 4 False @ [True] @ replicate 12 False"

definition canonical :: "uuid \<Rightarrow> bool" where
  "canonical u \<longleftrightarrow> map (\<lambda>c. c = CHR ''-'') u = uuid_shape \<and>
     list_all (\<lambda>c. c \<in> set ''0123456789abcdef-'') u"

lemma undashed_inj_shape:
  "map (\<lambda>c. c = CHR ''-'') u = map (\<lambda>c. c = CHR ''-'') v \<Longrightarrow> undashed u = undashed v \<Longrightarrow> u = v"
proof (induction u arbitrary: v)
  case (Cons c u)
  then show ?case by (cases v) (auto simp: undashed_def split: if_splits)
qed simp

lemma undashed_inj: "canonical u \<Longrightarrow> canonical v \<Longrightarrow> undashed u = undashed v \<Longrightarrow> u = v"
  by (rule undashed_inj_shape) (simp_all add: canonical_def)

lemma undashed_undashed [simp]: "undashed (undashed u) = undashed u"
  by (simp add: undashed_def)

section \<open>Consistent stores\<close>

definition counter_ok :: "counter \<Rightarrow> bool" where
  "counter_ok t \<longleftrightarrow> distinct (map fst t) \<and> list_all (\<lambda>(_, n). 1 \<le> n \<and> n \<le> 9223372036854775807) t"

lemma counter_ok_iff: "counter_ok t \<longleftrightarrow> distinct (map fst t) \<and>
    (\<forall>k n. map_of t k = Some n \<longrightarrow> 1 \<le> n \<and> n \<le> 9223372036854775807)"
proof (cases "distinct (map fst t)")
  case True
  then show ?thesis by (auto simp: counter_ok_def list_all_iff)
qed (simp add: counter_ok_def)

definition keys_ok :: "store \<Rightarrow> bool" where
  "keys_ok s \<longleftrightarrow> distinct (map fst (source_ref s)) \<and> distinct (map fst (client s)) \<and>
     distinct (map snd (client s)) \<and> distinct (map cr_id (content s)) \<and> distinct (map cr_url (content s)) \<and>
     list_all canonical (map fst (client s)) \<and> list_all canonical (map cr_id (content s))"

definition counted :: "counter \<Rightarrow> uuid set" where
  "counted t = snd ` fst ` set t"

definition references_ok :: "store \<Rightarrow> bool" where
  "references_ok s \<longleftrightarrow> cr_client_id ` set (content s) \<subseteq> fst ` set (client s) \<and>
     counted (client_counter s) \<subseteq> fst ` set (client s) \<and>
     counted (content_counter s) \<subseteq> cr_id ` set (content s)"

text \<open>One table of counters for each client, under its undashed identifier.\<close>

definition tables_ok :: "store \<Rightarrow> bool" where
  "tables_ok s \<longleftrightarrow> map fst (content_counter_of s) = map (undashed \<circ> fst) (client s) \<and>
     counter_ok (content_counter s) \<and> counter_ok (client_counter s) \<and>
     (\<forall>(hex, t) \<in> set (content_counter_of s). counter_ok t \<and> counted t \<subseteq> Collect canonical)"

definition consistent :: "store \<Rightarrow> bool" where
  "consistent s \<longleftrightarrow> keys_ok s \<and> references_ok s \<and> tables_ok s"

lemmas consistent_defs = consistent_def keys_ok_def references_ok_def tables_ok_def counted_def

text \<open>In the table of a client only contents of this client are counted.\<close>

definition attributed :: "store \<Rightarrow> bool" where
  "attributed s \<longleftrightarrow> (\<forall>hex t. map_of (content_counter_of s) hex = Some t \<longrightarrow>
     (\<forall>i \<in> counted t. \<exists>r \<in> set (content s). cr_id r = i \<and> undashed (cr_client_id r) = hex))"

text \<open>
  A step is a call of a stored function that succeeds, with a uuid where it takes one; a call that
  fails changes nothing. \<open>typed_step\<close> has the functions without a text in their statement, \<open>db_step\<close>
  also \<open>content_pageview\<close> with the text of a client.
\<close>

inductive typed_step :: "postgres \<Rightarrow> store \<Rightarrow> store \<Rightarrow> bool" for pg where
  set_source_ref: "set_source_ref sid sr s = Inr (r, s') \<Longrightarrow> typed_step pg s s'"
| create_client: "canonical new \<Longrightarrow> create_client new n s = Inr (r, s') \<Longrightarrow> typed_step pg s s'"
| content_add: "canonical new \<Longrightarrow> content_add new c n u s = Inr (r, s') \<Longrightarrow> typed_step pg s s'"
| client_pageview: "client_pageview c pvd s = Inr (k, s') \<Longrightarrow> typed_step pg s s'"
| content_pageview_today: "content_pageview_today today i s = Inr (k, s') \<Longrightarrow> typed_step pg s s'"
| content_pageview: "content_pageview pg i pvd s = Inr (k, s') \<Longrightarrow> typed_step pg s s'"

inductive db_step :: "postgres \<Rightarrow> store \<Rightarrow> store \<Rightarrow> bool" for pg where
  typed: "typed_step pg s s' \<Longrightarrow> db_step pg s s'"
| content_pageview_of: "name_piece (case c of Some t \<Rightarrow> undashed t | None \<Rightarrow> []) \<Longrightarrow> pred_option canonical i \<Longrightarrow>
    content_pageview_of pg c i pvd s = Inr (k, s') \<Longrightarrow> db_step pg s s'"

lemma distinct_tables: "consistent s \<Longrightarrow> distinct (map fst (content_counter_of s))"
proof -
  assume c: "consistent s"
  then have can: "\<forall>u \<in> set (map fst (client s)). canonical u" and d: "distinct (map fst (client s))"
    and m: "map fst (content_counter_of s) = map undashed (map fst (client s))"
    by (simp_all add: consistent_def keys_ok_def tables_ok_def list_all_iff comp_def)
  have "inj_on undashed (set (map fst (client s)))"
    by (rule inj_onI) (use can undashed_inj in blast)
  with d m show ?thesis by (metis distinct_map)
qed

lemma count_up_ok:
  "count_up day key t = Inr (n, t') \<Longrightarrow> counter_ok t \<Longrightarrow> counter_ok t'"
  unfolding counter_ok_iff
  by (fastforce simp: count_up_def map_of_eq_None_iff map_add_def split: option.splits if_splits)

lemma count_up_keys:
  assumes "count_up day key t = Inr (n, t')"
  shows "fst ` set t' = insert (day, key) (fst ` set t)"
proof (cases "map_of t (day, key)")
  case (Some m)
  then have "t' = AList.update (day, key) (m + 1) t" using assms by (auto simp: count_up_def split: if_splits)
  then show ?thesis by (simp only: keys_update)
qed (use assms in \<open>auto simp: count_up_def\<close>)

lemma count_up_counted: "count_up day key t = Inr (n, t') \<Longrightarrow> counted t' = insert key (counted t)"
  by (simp add: counted_def count_up_keys)

lemma count_up_lookup:
  "count_up day key t = Inr (n, t') \<Longrightarrow>
   map_of t' = (map_of t)((day, key) \<mapsto> n) \<and> n = (case map_of t (day, key) of None \<Rightarrow> 1 | Some m \<Rightarrow> m + 1)"
  by (auto simp: count_up_def map_add_def split: option.splits if_splits)

section \<open>Every step keeps the store consistent\<close>

lemma insert_source_ref_shape:
  assumes "insert_source_ref sid n s = Inr (r, s')" and "distinct (map fst (source_ref s))"
  shows "\<exists>t. s' = s\<lparr>source_ref := t\<rparr> \<and> distinct (map fst t)"
  using assms by (auto simp: insert_source_ref_def map_of_eq_None_iff split: option.splits sum.splits if_splits)

lemma set_source_ref_shape:
  assumes "set_source_ref sid sr s = Inr (r, s')" and "distinct (map fst (source_ref s))"
  shows "\<exists>t. s' = s\<lparr>source_ref := t\<rparr> \<and> distinct (map fst t)"
proof (cases sid)
  case None
  then show ?thesis
    using assms insert_source_ref_shape by (cases sr) (auto simp: set_source_ref_def intro: exI [of _ "source_ref s"])
next
  case (Some k)
  then show ?thesis
    using assms insert_source_ref_shape by (cases sr) (auto simp: set_source_ref_def split: if_splits)
qed

lemma set_source_ref_consistent:
  assumes "set_source_ref sid sr s = Inr (r, s')" and "consistent s"
  shows "consistent s'"
proof -
  have "distinct (map fst (source_ref s))" using assms(2) by (simp add: consistent_def keys_ok_def)
  then obtain t where "s' = s\<lparr>source_ref := t\<rparr>" "distinct (map fst t)"
    using set_source_ref_shape [OF assms(1)] by blast
  then show ?thesis using assms(2) by (simp add: consistent_defs)
qed

lemma create_client_cases:
  assumes "create_client new n s = Inr (r, s')"
  obtains (known) m where "n = Some m" "(r, m) \<in> set (client s)" "s' = s"
  | (new) m where "n = Some m" "r = new" "new \<notin> fst ` set (client s)" "m \<notin> snd ` set (client s)"
      "undashed new \<notin> fst ` set (content_counter_of s)"
      "s' = s\<lparr>client := client s @ [(new, m)], content_counter_of := content_counter_of s @ [(undashed new, [])]\<rparr>"
proof (cases "find (\<lambda>(_, name). n = Some name) (client s)")
  case (Some e)
  then have "e \<in> set (client s)" "n = Some (snd e)" using found [OF Some] by (simp_all split: prod.splits)
  moreover have "r = fst e" "s' = s" using Some assms by (simp_all add: create_client_def split: prod.splits)
  ultimately show ?thesis using that(1) [of "snd e"] by simp
next
  case None
  from None assms obtain s1 where ins: "insert_client new n s = Inr (r, s1)"
    and tab: "create_counter_table (undashed r) s1 = Inr s'"
    by (simp add: create_client_def split: sum.splits prod.splits)
  from ins obtain m where n: "n = Some m" by (cases n) (simp_all add: insert_client_def)
  with ins have r: "r = new" "new \<notin> fst ` set (client s)" "m \<notin> snd ` set (client s)"
    "s1 = s\<lparr>client := client s @ [(new, m)]\<rparr>"
    by (auto simp: insert_client_def split: if_splits)
  with tab have "undashed new \<notin> fst ` set (content_counter_of s)"
    "s' = s\<lparr>client := client s @ [(new, m)], content_counter_of := content_counter_of s @ [(undashed new, [])]\<rparr>"
    by (simp_all add: create_counter_table_def split: if_splits)
  with n r show ?thesis by (rule_tac that(2))
qed

lemma create_client_consistent:
  assumes "create_client new n s = Inr (r, s')" and "canonical new" and "consistent s"
  shows "consistent s'"
  using assms(1)
proof (cases rule: create_client_cases)
  case (new m)
  with assms(2,3) show ?thesis
    by (simp add: consistent_defs counter_ok_def subset_insertI2)
qed (use assms(3) in simp)

lemma content_add_cases:
  assumes "content_add new c n u s = Inr (r, s')"
  obtains (known) row where "row \<in> set (content s)" "u = Some (cr_url row)" "r = cr_id row" "s' = s"
  | (new) c' n' u' where "c = Some c'" "n = Some n'" "u = Some u'" "r = new" "new \<notin> cr_id ` set (content s)"
      "c' \<in> fst ` set (client s)" "u' \<notin> cr_url ` set (content s)"
      "s' = s\<lparr>content := content s @ [\<lparr>cr_id = new, cr_name = n', cr_url = u', cr_client_id = c'\<rparr>]\<rparr>"
proof (cases "find (\<lambda>r. u = Some (cr_url r)) (content s)")
  case (Some row)
  moreover have "r = cr_id row" "s' = s" using Some assms by (simp_all add: content_add_def)
  ultimately show ?thesis using that(1) [of row] found [OF Some] by simp
next
  case None
  from None assms obtain c' n' u' where some: "c = Some c'" "n = Some n'" "u = Some u'"
    by (simp add: content_add_def split: option.splits)
  moreover have "r = new" "new \<notin> cr_id ` set (content s)" "c' \<in> fst ` set (client s)"
    "s' = s\<lparr>content := content s @ [\<lparr>cr_id = new, cr_name = n', cr_url = u', cr_client_id = c'\<rparr>]\<rparr>"
    using None assms by (auto simp: content_add_def some split: if_splits)
  moreover have "u' \<notin> cr_url ` set (content s)" using None some by (auto simp: find_None_iff)
  ultimately show ?thesis using that(2) by blast
qed

lemma content_add_consistent:
  assumes "content_add new c n u s = Inr (r, s')" and "canonical new" and "consistent s"
  shows "consistent s'"
  using assms(1)
proof (cases rule: content_add_cases)
  case (new c' n' u')
  with assms(2,3) show ?thesis
    by (simp add: consistent_defs subset_insertI2)
qed (use assms(3) in simp)

lemma counted_key:
  assumes "map_of t (day, key) \<noteq> None \<or> key \<in> K" and "counted t \<subseteq> K"
  shows "key \<in> K"
proof (cases "map_of t (day, key)")
  case (Some m)
  then have "((day, key), m) \<in> set t" by (rule map_of_SomeD)
  then have "key \<in> counted t" unfolding counted_def by force
  then show ?thesis using assms(2) by blast
qed (use assms in simp)

lemma client_pageview_consistent:
  assumes "client_pageview c pvd s = Inr (k, s')" and "consistent s"
  shows "consistent s'"
proof -
  obtain key ts t where up: "count_up (date_of ts) key (client_counter s) = Inr (k, t)"
    and known: "map_of (client_counter s) (date_of ts, key) \<noteq> None \<or> key \<in> fst ` set (client s)"
    and s': "s' = s\<lparr>client_counter := t\<rparr>"
    using assms(1) by (auto simp: client_pageview_def split: option.splits sum.splits prod.splits if_splits)
  have "key \<in> fst ` set (client s)"
    by (rule counted_key [OF known]) (use assms(2) in \<open>simp add: consistent_defs\<close>)
  then show ?thesis
    using assms(2) count_up_keys [OF up] count_up_ok [OF up] by (simp add: s' consistent_defs)
qed

lemma content_pageview_today_consistent:
  assumes "content_pageview_today today i s = Inr (k, s')" and "consistent s"
  shows "consistent s'"
proof -
  obtain key t where up: "count_up today key (content_counter s) = Inr (k, t)"
    and known: "map_of (content_counter s) (today, key) \<noteq> None \<or> key \<in> cr_id ` set (content s)"
    and s': "s' = s\<lparr>content_counter := t\<rparr>"
    using assms(1) by (auto simp: content_pageview_today_def split: option.splits sum.splits prod.splits if_splits)
  have "key \<in> cr_id ` set (content s)"
    by (rule counted_key [OF known]) (use assms(2) in \<open>simp add: consistent_defs\<close>)
  then show ?thesis
    using assms(2) count_up_keys [OF up] count_up_ok [OF up] by (simp add: s' consistent_defs)
qed

lemma run_counter_insert_shape:
  assumes "run_counter_insert hex key day s = Inr (k, s')"
  shows "\<exists>t t'. map_of (content_counter_of s) hex = Some t \<and> count_up day key t = Inr (k, t') \<and>
    s' = s\<lparr>content_counter_of := AList.update hex t' (content_counter_of s)\<rparr>"
proof (cases "map_of (content_counter_of s) hex")
  case (Some t)
  then show ?thesis
    using assms by (cases "count_up day key t") (auto simp: run_counter_insert_def)
qed (use assms in \<open>simp add: run_counter_insert_def\<close>)

lemma tables_update:
  assumes "map_of ts hex = Some t" and "distinct (map fst ts)"
  shows "map fst (AList.update hex t' ts) = map fst ts"
    and "set (AList.update hex t' ts) \<subseteq> insert (hex, t') (set ts)"
proof -
  have e: "AList.update hex t' ts = map (\<lambda>e. if e = (hex, t) then (hex, t') else e) ts"
    by (rule update_as_map [OF assms(2) map_of_SomeD [OF assms(1)]])
  show "map fst (AList.update hex t' ts) = map fst ts" unfolding e by (induction ts) auto
  show "set (AList.update hex t' ts) \<subseteq> insert (hex, t') (set ts)" unfolding e by auto
qed

lemma counters_of_ok:
  "consistent s \<Longrightarrow> map_of (content_counter_of s) hex = Some t \<Longrightarrow> counter_ok t \<and> counted t \<subseteq> Collect canonical"
  unfolding consistent_def tables_ok_def by (blast dest: map_of_SomeD)

lemma run_counter_insert_consistent:
  assumes "run_counter_insert hex key day s = Inr (k, s')" and "consistent s" and "canonical key"
  shows "consistent s'"
proof -
  let ?ok = "\<lambda>t. counter_ok t \<and> counted t \<subseteq> Collect canonical"
  note d = distinct_tables [OF assms(2)]
  obtain t t' where t: "map_of (content_counter_of s) hex = Some t" and up: "count_up day key t = Inr (k, t')"
    and s': "s' = s\<lparr>content_counter_of := AList.update hex t' (content_counter_of s)\<rparr>"
    using run_counter_insert_shape [OF assms(1)] by blast
  have t': "?ok t'"
    using counters_of_ok [OF assms(2) t] count_up_ok [OF up] count_up_counted [OF up] assms(3) by simp
  have all: "\<forall>e \<in> set (content_counter_of s). ?ok (snd e)"
    using assms(2) unfolding consistent_def tables_ok_def by fastforce
  have "\<forall>e \<in> set (AList.update hex t' (content_counter_of s)). ?ok (snd e)"
  proof
    fix e assume "e \<in> set (AList.update hex t' (content_counter_of s))"
    then have "e = (hex, t') \<or> e \<in> set (content_counter_of s)" using tables_update(2) [OF t d, of t'] by blast
    then show "?ok (snd e)" using all t' by (elim disjE) simp_all
  qed
  then have "tables_ok s'"
    using tables_update(1) [OF t d, of t'] assms(2)
    by (simp add: s' consistent_def tables_ok_def case_prod_unfold)
  then show ?thesis using assms(2) by (simp add: s' consistent_def keys_ok_def references_ok_def)
qed

text \<open>\<open>content_pageview\<close> finds the client of the content, whose text is a piece of a name.\<close>

lemma undashed_piece: "canonical u \<Longrightarrow> name_piece (undashed u)"
proof -
  assume u: "canonical u"
  then have "length u = length uuid_shape" by (metis canonical_def length_map)
  then have "length (undashed u) \<le> 47"
    using length_filter_le [of "\<lambda>c. c \<noteq> CHR ''-''" u] by (simp add: undashed_def uuid_shape_def)
  moreover have "set ''0123456789abcdef-'' \<subseteq> insert CHR ''-'' (set ''abcdefghijklmnopqrstuvwxyz0123456789_'')" by simp
  then have "list_all (\<lambda>c. c \<in> set ''abcdefghijklmnopqrstuvwxyz0123456789_'') (undashed u)"
    using u unfolding canonical_def undashed_def list_all_iff set_filter by blast
  ultimately show ?thesis unfolding name_piece_def ..
qed

lemma client_ofD: "client_of (Some i) s = Some c \<Longrightarrow> \<exists>r \<in> set (content s). cr_id r = i \<and> cr_client_id r = c"
  unfolding client_of_def by (auto dest: found)

lemma client_of_known:
  assumes "consistent s" and "client_of (Some i) s = Some c"
  shows "c \<in> fst ` set (client s)" and "canonical c" and "canonical i"
proof -
  from client_ofD [OF assms(2)] obtain r where r: "r \<in> set (content s)" "cr_id r = i" "cr_client_id r = c" by blast
  have can: "\<forall>u \<in> fst ` set (client s). canonical u" "\<forall>u \<in> cr_id ` set (content s). canonical u"
    using assms(1) by (simp_all add: consistent_def keys_ok_def list_all_iff)
  show "c \<in> fst ` set (client s)" using assms(1) r by (auto simp: consistent_def references_ok_def)
  then show "canonical c" using can(1) by blast
  show "canonical i" using can(2) r by blast
qed

lemma content_pageview_run:
  assumes "consistent s"
  shows "content_pageview pg (Some i) (Some ts) s =
     run_counter_insert (case client_of (Some i) s of Some c \<Rightarrow> undashed c | None \<Rightarrow> []) i (date_of ts) s"
proof -
  have "name_piece (case client_of (Some i) s of Some c \<Rightarrow> undashed c | None \<Rightarrow> [])"
    using client_of_known(2) [OF assms, of i] undashed_piece
    by (cases "client_of (Some i) s") (simp_all add: name_piece_def)
  then show ?thesis
    by (cases "client_of (Some i) s") (simp_all add: content_pageview_def content_pageview_of_def Let_def)
qed

lemma no_nameless_table: "consistent s \<Longrightarrow> map_of (content_counter_of s) [] = None"
proof -
  assume c: "consistent s"
  have "undashed u \<noteq> []" if "canonical u" for u
  proof -
    have "\<not> hd (map (\<lambda>c. c = CHR ''-'') u)" using that by (simp add: canonical_def uuid_shape_def)
    moreover have "u \<noteq> []" using that by (auto simp: canonical_def uuid_shape_def)
    ultimately show ?thesis by (cases u) (simp_all add: undashed_def)
  qed
  moreover have "\<forall>u \<in> set (map fst (client s)). canonical u"
    using c by (simp add: consistent_def keys_ok_def list_all_iff)
  moreover have "map fst (content_counter_of s) = map undashed (map fst (client s))"
    using c by (simp add: consistent_def tables_ok_def)
  ultimately have "[] \<notin> set (map fst (content_counter_of s))" by (metis imageE list.set_map)
  then show ?thesis by (simp add: map_of_eq_None_iff)
qed

text \<open>What a call that succeeds has done: one count in the table of the client of the content.\<close>

lemma content_pageview_Inr:
  assumes "content_pageview pg i pvd s = Inr (k, s')" and "consistent s"
  obtains u ts c where "i = Some u" "pvd = Some ts" "client_of (Some u) s = Some c" "canonical u"
    "run_counter_insert (undashed c) u (date_of ts) s = Inr (k, s')"
proof -
  have "client_of None s = None" by (simp add: client_of_def find_None_iff)
  then have "name_piece (case map_option undashed (client_of i s) of Some t \<Rightarrow> undashed t | None \<Rightarrow> [])"
    using client_of_known(2) [OF assms(2)] undashed_piece
    by (cases i; cases "client_of i s") (simp_all add: name_piece_def)
  with assms(1) obtain u ts where a: "i = Some u" "pvd = Some ts"
    by (cases i; cases pvd) (simp_all add: content_pageview_def content_pageview_of_def Let_def)
  with assms(1) content_pageview_run [OF assms(2), of pg u ts]
  have run: "run_counter_insert (case client_of (Some u) s of Some c \<Rightarrow> undashed c | None \<Rightarrow> []) u (date_of ts) s = Inr (k, s')"
    by simp
  then obtain c where c: "client_of (Some u) s = Some c"
    using no_nameless_table [OF assms(2)] by (cases "client_of (Some u) s") (simp_all add: run_counter_insert_def)
  with run client_of_known(3) [OF assms(2) c] a show thesis by (rule_tac that) simp_all
qed

lemma typed_step_consistent: "typed_step pg s s' \<Longrightarrow> consistent s \<Longrightarrow> consistent s'"
proof (induction rule: typed_step.induct)
  case (content_pageview i pvd s k s')
  from content_pageview_Inr [OF this] show ?case using run_counter_insert_consistent content_pageview.prems by metis
qed (auto intro: set_source_ref_consistent create_client_consistent content_add_consistent
      client_pageview_consistent content_pageview_today_consistent)

lemma db_step_consistent: "db_step pg s s' \<Longrightarrow> consistent s \<Longrightarrow> consistent s'"
proof (induction rule: db_step.induct)
  case (content_pageview_of c i pvd s k s')
  then show ?case
    by (cases i; cases pvd) (auto simp: content_pageview_of_def Let_def intro: run_counter_insert_consistent)
qed (rule typed_step_consistent)

lemma empty_consistent: "consistent empty_store"
  by (simp add: consistent_defs empty_store_def counter_ok_def)

text \<open>
  C9. Every state of the database that its stored functions can reach from the empty tables,
  called with uuids where they take them and with a piece of a name as the text of a client,
  is consistent: identifiers, names of clients and urls are unique, identifiers of clients
  and contents have the form of a uuid, every content refers to a client that exists, the
  counters of clients and of the parent table count clients and contents that exist, every
  client has one counter table and no other such table exists, and every counter has at most
  one entry for a day and a key, which is a uuid, with a positive number in the range of
  bigint. (The table of a client may count other uuids: its foreign key is not inherited.)
\<close>

theorem reachable_consistent:
  assumes "(db_step pg)\<^sup>*\<^sup>* empty_store s"
  shows "consistent s"
  using assms by induction (simp_all add: empty_consistent db_step_consistent)

section \<open>Whose contents a client counts\<close>

lemma attributed_frame:
  "attributed s \<Longrightarrow> content_counter_of s' = content_counter_of s \<Longrightarrow> set (content s) \<subseteq> set (content s') \<Longrightarrow> attributed s'"
  unfolding attributed_def by (metis subsetD)

lemma create_client_attributed:
  assumes "create_client new n s = Inr (r, s')" and "attributed s"
  shows "attributed s'"
  using assms(1)
proof (cases rule: create_client_cases)
  case (new m)
  then have "map_of (content_counter_of s) (undashed new) = None" by (simp add: map_of_eq_None_iff)
  with new assms(2) show ?thesis
    by (auto simp: attributed_def counted_def map_add_def split: option.splits if_splits)
qed (use assms(2) in simp)

lemma run_counter_insert_attributed:
  assumes "run_counter_insert (undashed c) u day s = Inr (k, s')" and "client_of (Some u) s = Some c" and "attributed s"
  shows "attributed s'"
proof -
  obtain t t' where t: "map_of (content_counter_of s) (undashed c) = Some t" and up: "count_up day u t = Inr (k, t')"
    and s': "s' = s\<lparr>content_counter_of := AList.update (undashed c) t' (content_counter_of s)\<rparr>"
    using run_counter_insert_shape [OF assms(1)] by blast
  have "\<forall>i \<in> counted t'. \<exists>r \<in> set (content s). cr_id r = i \<and> undashed (cr_client_id r) = undashed c"
    using assms(3) t client_ofD [OF assms(2)] unfolding count_up_counted [OF up] attributed_def by auto
  then show ?thesis using assms(3) by (auto simp: attributed_def s' update_conv')
qed

lemma typed_step_attributed: "typed_step pg s s' \<Longrightarrow> consistent s \<Longrightarrow> attributed s \<Longrightarrow> attributed s'"
proof (induction rule: typed_step.induct)
  case (set_source_ref sid sr s r s')
  have "distinct (map fst (source_ref s))" using set_source_ref.prems(1) by (simp add: consistent_def keys_ok_def)
  from set_source_ref_shape [OF set_source_ref.hyps this] set_source_ref.prems(2) show ?case
    by (auto intro: attributed_frame)
next
  case (content_add new c n u s r s')
  from content_add.hyps(2) show ?case
    by (cases rule: content_add_cases) (use content_add.prems(2) in \<open>auto intro: attributed_frame\<close>)
next
  case (client_pageview c pvd s k s')
  then show ?case
    by (auto simp: client_pageview_def intro: attributed_frame split: option.splits sum.splits prod.splits if_splits)
next
  case (content_pageview_today today i s k s')
  then show ?case
    by (auto simp: content_pageview_today_def intro: attributed_frame split: option.splits sum.splits prod.splits if_splits)
next
  case (content_pageview i pvd s k s')
  from content_pageview_Inr [OF content_pageview.hyps content_pageview.prems(1)] show ?case
    using run_counter_insert_attributed content_pageview.prems(2) by metis
qed (rule create_client_attributed)

text \<open>
  C26. In every state that the stored functions reach without a call of content_pageview
  with a text, the counter table of a client counts only contents that exist and belong to
  this client. (With a text this fails: the foreign key is not inherited.)
\<close>

theorem counters_attributed:
  assumes "(typed_step pg)\<^sup>*\<^sup>* empty_store s"
  shows "attributed s"
proof -
  have "consistent s \<and> attributed s"
    using assms
  proof induction
    case base
    show ?case by (simp add: empty_consistent) (simp add: attributed_def empty_store_def)
  next
    case (step s s')
    then show ?case using typed_step_consistent typed_step_attributed by blast
  qed
  then show ?thesis ..
qed

section \<open>Creating a client\<close>

lemma fresh_table:
  assumes "consistent s" and "canonical new" and "new \<notin> fst ` set (client s)"
  shows "undashed new \<notin> set (map fst (content_counter_of s))"
proof
  assume "undashed new \<in> set (map fst (content_counter_of s))"
  moreover have "map fst (content_counter_of s) = map undashed (map fst (client s))"
    using assms(1) by (simp add: consistent_def tables_ok_def)
  ultimately obtain u where u: "u \<in> set (map fst (client s))" and eq: "undashed new = undashed u"
    by (metis imageE list.set_map)
  moreover have "\<forall>u \<in> set (map fst (client s)). canonical u"
    using assms(1) by (simp add: consistent_def keys_ok_def list_all_iff)
  ultimately have "new = u" using undashed_inj [OF assms(2) _ eq] by blast
  then show False using u assms(3) by simp
qed

lemma create_client_known:
  assumes "consistent s" and "(r, n) \<in> set (client s)"
  shows "create_client new (Some n) s = Inr (r, s)"
proof -
  have "distinct (map snd (client s))" using assms(1) by (simp add: consistent_def keys_ok_def)
  from find_by_value [OF this assms(2)] show ?thesis by (simp add: create_client_def)
qed

lemma create_client_stored:
  "create_client new (Some n) s = Inr (r, s') \<Longrightarrow> (r, n) \<in> set (client s')"
proof (cases "find (\<lambda>(_, name). Some n = Some name) (client s)")
  case None
  assume "create_client new (Some n) s = Inr (r, s')"
  with None show ?thesis
    by (auto simp: create_client_def insert_client_def create_counter_table_def split: if_splits)
next
  case (Some e)
  assume "create_client new (Some n) s = Inr (r, s')"
  with Some found [OF Some] show ?thesis by (cases e) (auto simp: create_client_def)
qed

text \<open>
  Creating a client is idempotent: a name that is known gives its identifier back, another one gets
  a new row and a counter table of its own, and any later call with the name changes nothing.
\<close>

theorem create_client_idempotent:
  assumes "consistent s" and "canonical new" and "new \<notin> fst ` set (client s)"
  shows "\<exists>r s'. create_client new (Some n) s = Inr (r, s') \<and> (r, n) \<in> set (client s') \<and>
    (if n \<in> snd ` set (client s) then s' = s
     else r = new \<and> client s' = client s @ [(new, n)] \<and>
          content_counter_of s' = content_counter_of s @ [(undashed new, [])]) \<and>
    (\<forall>new'. create_client new' (Some n) s' = Inr (r, s'))"
proof (cases "n \<in> snd ` set (client s)")
  case True
  then obtain r where "(r, n) \<in> set (client s)" by force
  with True create_client_known [OF assms(1) this] show ?thesis by auto
next
  case False
  define s' where "s' = s\<lparr>client := client s @ [(new, n)],
    content_counter_of := content_counter_of s @ [(undashed new, [])]\<rparr>"
  have "find (\<lambda>(_, name). Some n = Some name) (client s) = None"
    using False by (force simp: find_None_iff)
  then have run: "create_client new (Some n) s = Inr (new, s')"
    using assms(3) False fresh_table [OF assms]
    by (simp add: create_client_def insert_client_def create_counter_table_def s'_def)
  moreover have "consistent s'" by (rule create_client_consistent [OF run assms(2,1)])
  moreover have mem: "(new, n) \<in> set (client s')" by (simp add: s'_def)
  ultimately show ?thesis
    using create_client_known [of s' new n] False by (intro exI [of _ new] exI [of _ s']) (simp add: s'_def)
qed

section \<open>Counting pageviews\<close>

text \<open>The counter of a content on a day, in the table of its client.\<close>

definition counter_value :: "counter \<Rightarrow> int \<Rightarrow> uuid \<Rightarrow> int" where
  "counter_value t day key = (case map_of t (day, key) of None \<Rightarrow> 0 | Some n \<Rightarrow> n)"

definition views :: "uuid \<Rightarrow> int \<Rightarrow> store \<Rightarrow> int" where
  "views i day s = (case client_of (Some i) s of
     None \<Rightarrow> 0
   | Some c \<Rightarrow> (case map_of (content_counter_of s) (undashed c) of
       None \<Rightarrow> 0 | Some t \<Rightarrow> counter_value t day i))"

text \<open>The calls of the consumer of the queue, one for each message; it stops at an error.\<close>

fun run_pageviews :: "postgres \<Rightarrow> (uuid \<times> int) list \<Rightarrow> store \<Rightarrow> sql_error + store" where
  "run_pageviews pg [] s = Inr s"
| "run_pageviews pg ((i, ts) # vs) s = (case content_pageview pg (Some i) (Some ts) s of
     Inl e \<Rightarrow> Inl e
   | Inr (_, s') \<Rightarrow> run_pageviews pg vs s')"

lemma count_up_value:
  "count_up day key t = Inr (n, t') \<Longrightarrow>
   n = counter_value t day key + 1 \<and>
   counter_value t' d k = counter_value t d k + (if d = day \<and> k = key then 1 else 0)"
  using count_up_lookup [of day key t n t'] by (auto simp: counter_value_def split: option.splits)

lemma client_of_counters [simp]: "client_of k (s\<lparr>content_counter_of := x\<rparr>) = client_of k s"
  by (simp add: client_of_def)

lemma content_pageview_step:
  assumes "content_pageview pg (Some i) (Some ts) s = Inr (n, s')" and "consistent s"
  shows "consistent s'" and "s' = s\<lparr>content_counter_of := content_counter_of s'\<rparr>" and "n = views i (date_of ts) s + 1"
    and "views j d s' = views j d s + (if j = i \<and> d = date_of ts then 1 else 0)"
proof -
  from assms obtain c where c: "client_of (Some i) s = Some c" and "canonical i"
    and run: "run_counter_insert (undashed c) i (date_of ts) s = Inr (n, s')"
    by (elim content_pageview_Inr) auto
  from run_counter_insert_shape [OF run] obtain t t' where t: "map_of (content_counter_of s) (undashed c) = Some t"
    and up: "count_up (date_of ts) i t = Inr (n, t')"
    and s': "s' = s\<lparr>content_counter_of := AList.update (undashed c) t' (content_counter_of s)\<rparr>" by blast
  show "consistent s'" by (rule run_counter_insert_consistent [OF run assms(2) \<open>canonical i\<close>])
  show "s' = s\<lparr>content_counter_of := content_counter_of s'\<rparr>" by (simp add: s')
  show "n = views i (date_of ts) s + 1" using c t count_up_value [OF up] by (simp add: views_def)
  show "views j d s' = views j d s + (if j = i \<and> d = date_of ts then 1 else 0)"
  proof (cases "client_of (Some j) s")
    case (Some c')
    note up1 = count_up_value [OF up, of d j]
    show ?thesis
    proof (cases "undashed c' = undashed c")
      case True
      with Some t up1 show ?thesis by (simp add: views_def s')
    next
      case False
      then have "j \<noteq> i" using Some c by auto
      with False Some show ?thesis by (simp add: views_def s')
    qed
  next
    case None
    then have "j \<noteq> i" using c by auto
    with None show ?thesis by (simp add: views_def s')
  qed
qed

text \<open>
  C10. Counting is exact: after any sequence of content_pageview calls that succeed, the
  counter of a content on a day has grown by the number of calls for that content and that
  day, and no other counter has changed.
\<close>

theorem pageviews_counted:
  assumes "consistent s" and "run_pageviews pg vs s = Inr s'"
  shows "views i day s' = views i day s + int (length (filter (\<lambda>(j, ts). j = i \<and> date_of ts = day) vs))"
  using assms
proof (induction vs arbitrary: s)
  case (Cons v vs)
  obtain j ts where v: "v = (j, ts)" by (cases v)
  with Cons.prems obtain n s1 where one: "content_pageview pg (Some j) (Some ts) s = Inr (n, s1)"
    and rest: "run_pageviews pg vs s1 = Inr s'" by (auto split: sum.splits)
  note step = content_pageview_step [OF one Cons.prems(1)]
  from step(4) [of i day] Cons.IH [OF step(1) rest] show ?case
    by (auto simp: v)
qed simp

text \<open>
  C24. In a consistent database a pageview of a content that exists is always counted, as
  long as its counter is below the largest bigint: the call returns the new count, the
  counter of that content and day has it afterwards, and no other counter and no other table
  has changed.
\<close>

theorem known_content_counts:
  assumes "consistent s" and "i \<in> cr_id ` set (content s)" and "views i (date_of ts) s < 9223372036854775807"
  shows "\<exists>s'. content_pageview pg (Some i) (Some ts) s = Inr (views i (date_of ts) s + 1, s') \<and>
    views i (date_of ts) s' = views i (date_of ts) s + 1 \<and>
    (\<forall>j d. (j, d) \<noteq> (i, date_of ts) \<longrightarrow> views j d s' = views j d s) \<and>
    s' = s\<lparr>content_counter_of := content_counter_of s'\<rparr> \<and> consistent s'"
proof -
  from assms(2) have "find (\<lambda>r. Some i = Some (cr_id r)) (content s) \<noteq> None" by (auto simp: find_None_iff)
  then obtain c where c: "client_of (Some i) s = Some c" by (auto simp: client_of_def)
  have "map fst (content_counter_of s) = map undashed (map fst (client s))"
    using assms(1) by (simp add: consistent_def tables_ok_def)
  moreover have "c \<in> set (map fst (client s))" using client_of_known(1) [OF assms(1) c] by simp
  ultimately have "undashed c \<in> fst ` set (content_counter_of s)" by (metis image_eqI list.set_map)
  then obtain t where t: "map_of (content_counter_of s) (undashed c) = Some t"
    by (metis map_of_eq_None_iff option.exhaust)
  with c have "views i (date_of ts) s = counter_value t (date_of ts) i" by (simp add: views_def)
  with assms(3) c t obtain n s' where run: "content_pageview pg (Some i) (Some ts) s = Inr (n, s')"
    by (auto simp: content_pageview_run [OF assms(1)] run_counter_insert_def count_up_def counter_value_def split: option.splits)
  note step = content_pageview_step [OF run assms(1)]
  have "content_pageview pg (Some i) (Some ts) s = Inr (views i (date_of ts) s + 1, s')" using run step(3) by simp
  then show ?thesis using step(1,2) step(4) by (intro exI [of _ s'] conjI allI impI) auto
qed

section \<open>The place in the queue\<close>

text \<open>
  C25. The place in the queue that set_message_ref stores, or removes when it is null, is
  the one get_message_ref reads, and the places of other sources are left alone.
\<close>

theorem message_ref_roundtrip:
  "\<exists>s'. set_message_ref sr s = Inr (sr, s') \<and> get_message_ref s' = sr \<and>
     (\<forall>sid. sid \<noteq> Some ''content_pv_queue'' \<longrightarrow> get_source_ref sid s' = get_source_ref sid s)"
proof -
  have short: "to_varchar32 ''content_pv_queue'' = Inr ''content_pv_queue''"
    by (simp add: to_varchar32_def rune_width_def)
  show ?thesis
    by (auto simp: set_message_ref_def set_source_ref_def insert_source_ref_def get_message_ref_def get_source_ref_def
        short map_add_def split: option.split)
qed

end
