(* ===== verification/Server_Correct.thy ===== *)
theory Server_Correct
  imports Server Service_Shipped Pg_Correct
begin

text \<open>
  The running server: every path of \<open>serves\<close> reaches the handler it was registered for, no other
  path reaches any, and a path that is not clean is redirected; \<open>mux_matches\<close> states what the router
  promises of one template and of one path.
\<close>

section \<open>Clean paths\<close>

text \<open>The elements of a path between its slashes. A clean path begins with a slash and has no empty
  element but perhaps the last, no \<open>.\<close> and no \<open>..\<close>.\<close>

fun path_elements :: "string \<Rightarrow> string list" where
  "path_elements [] = [[]]"
| "path_elements (c # cs) =
     (if c = CHR ''/'' then [] # path_elements cs
      else (case path_elements cs of e # es \<Rightarrow> (c # e) # es | [] \<Rightarrow> [[c]]))"

definition clean_path :: "string \<Rightarrow> bool" where
  "clean_path path = (case path_elements path of
     [] # es \<Rightarrow> es \<noteq> [] \<and> list_all (\<lambda>e. e \<notin> {[], ''.'', ''..''}) (butlast es) \<and> last es \<notin> {''.'', ''..''}
   | _ \<Rightarrow> False)"

lemma path_elements_plain: "CHR ''/'' \<notin> set u \<Longrightarrow> path_elements u = [u]"
  by (induction u) auto

lemma canonical_element: "canonical u \<Longrightarrow> path_elements u = [u] \<and> u \<noteq> ''.'' \<and> u \<noteq> ''..''"
proof -
  assume u: "canonical u"
  then have "length u = length uuid_shape" by (metis canonical_def length_map)
  then have "u \<noteq> ''.'' \<and> u \<noteq> ''..''" by (auto simp: uuid_shape_def)
  moreover have "CHR ''/'' \<notin> set u" using u by (auto simp: canonical_def list_all_iff)
  ultimately show ?thesis by (simp add: path_elements_plain)
qed

section \<open>Routing\<close>

text \<open>
  What gorilla/mux documents of the two kinds of template: a literal one matches itself, one with
  the pattern of an identifier at its end matches that literal followed by an identifier, which
  becomes the variable \<open>id\<close>. The pattern is that of \<open>canonical\<close> identifiers. The canonical form of a
  path is another one exactly when the path is not clean.
\<close>

definition mux_matches :: "router \<Rightarrow> bool" where
  "mux_matches mux \<longleftrightarrow>
     (\<forall>p path. CHR ''{'' \<notin> set p \<longrightarrow> mux_Match mux p path = (if path = p then Some [] else None)) \<and>
     (\<forall>pre path vars. CHR ''{'' \<notin> set pre \<longrightarrow> (mux_Match mux (pre @ id_pattern) path = Some vars \<longleftrightarrow>
        (\<exists>u. canonical u \<and> path = pre @ u \<and> vars = [(''id'', u)]))) \<and>
     (\<forall>path. mux_cleanPath mux path = path \<longleftrightarrow> clean_path path)"

lemma mux_clean: "mux_matches mux \<Longrightarrow> mux_cleanPath mux path = path \<longleftrightarrow> clean_path path"
  unfolding mux_matches_def by simp

lemma mux_literal: "mux_matches mux \<Longrightarrow> CHR ''{'' \<notin> set p \<Longrightarrow> mux_Match mux p path = (if path = p then Some [] else None)"
  unfolding mux_matches_def by simp

lemma mux_ident:
  assumes "mux_matches mux" "CHR ''{'' \<notin> set pre"
  shows "mux_Match mux (pre @ id_pattern) path =
    (if take (length pre) path = pre \<and> canonical (drop (length pre) path) then Some [(''id'', drop (length pre) path)]
     else None)"
proof -
  have iff: "mux_Match mux (pre @ id_pattern) path = Some vars \<longleftrightarrow>
      (\<exists>u. canonical u \<and> path = pre @ u \<and> vars = [(''id'', u)])" for vars
    using assms unfolding mux_matches_def by blast
  show ?thesis
  proof (cases "take (length pre) path = pre \<and> canonical (drop (length pre) path)")
    case True
    then have "path = pre @ drop (length pre) path" by (metis append_take_drop_id)
    then show ?thesis using True iff by auto
  next
    case False
    then show ?thesis using iff [of "the (mux_Match mux (pre @ id_pattern) path)"] by (cases "mux_Match mux (pre @ id_pattern) path") auto
  qed
qed

text \<open>The paths of the service, with the handler and the variables each of them stands for.\<close>

inductive serves :: "string \<Rightarrow> handlerFunction \<Rightarrow> (string \<times> string) list \<Rightarrow> bool" where
  "serves ''/v1/client/maintain'' RInsertClient []"
| "canonical u \<Longrightarrow> serves (''/v1/client/maintain/'' @ u) RUpdateClient [(''id'', u)]"
| "canonical u \<Longrightarrow> serves (''/v1/client/read/find/'' @ u) RFindOneClient [(''id'', u)]"
| "serves ''/v1/client/read/list'' RFindManyClient []"
| "serves ''/v1/content/maintain'' RInsertContent []"
| "canonical u \<Longrightarrow> serves (''/v1/content/maintain/'' @ u) RUpdateContent [(''id'', u)]"
| "serves ''/v1/content/read/list'' RFindManyContent []"
| "canonical u \<Longrightarrow> serves (''/v1/pageview/content/'' @ u) RProcessPageview [(''id'', u)]"

lemma find_route_in:
  assumes "find_route mux cfg path = Some (h, vars)"
  shows "\<exists>p. (p, h) \<in> set (routes cfg) \<and> mux_Match mux p path = Some vars"
proof -
  let ?f = "\<lambda>(pattern, fn). map_option (\<lambda>vars. (fn, vars)) (mux_Match mux pattern path)"
  from assms have "(h, vars) \<in> set (List.map_filter ?f (routes cfg))"
    by (auto simp: find_route_def split: list.splits)
  then show ?thesis by (auto simp: List.map_filter_def)
qed

lemma routes_v1:
  "ApiVersion cfg = ''1'' \<Longrightarrow> routes cfg =
   [(''/v1/client/maintain'', RInsertClient), (''/v1/client/maintain/'' @ id_pattern, RUpdateClient),
    (''/v1/client/read/find/'' @ id_pattern, RFindOneClient), (''/v1/client/read/list'', RFindManyClient),
    (''/v1/content/maintain'', RInsertContent), (''/v1/content/maintain/'' @ id_pattern, RUpdateContent),
    (''/v1/content/read/list'', RFindManyContent), (''/v1/pageview/content/'' @ id_pattern, RProcessPageview)]"
  by (simp add: routes_def Let_def)

lemma take_prefix: "take (length pre) path = pre \<Longrightarrow> path = pre @ drop (length pre) path"
  by (metis append_take_drop_id)

lemma find_route_serves:
  assumes mux: "mux_matches mux" and v: "ApiVersion cfg = ''1''"
  shows "find_route mux cfg path = Some (h, vars) \<longleftrightarrow> serves path h vars"
proof
  note lit = mux_literal [OF mux] and ident = mux_ident [OF mux]
  assume "find_route mux cfg path = Some (h, vars)"
  from find_route_in [OF this] obtain p where p: "(p, h) \<in> set (routes cfg)" and m: "mux_Match mux p path = Some vars"
    by blast
  have literal: "path = q \<and> vars = []"
    if "p = q" "q \<in> {''/v1/client/maintain'', ''/v1/client/read/list'', ''/v1/content/maintain'', ''/v1/content/read/list''}" for q
    using m that by (auto simp: lit split: if_splits)
  have prefixed: "\<exists>u. canonical u \<and> path = pre @ u \<and> vars = [(''id'', u)]"
    if "p = pre @ id_pattern" "pre \<in> {''/v1/client/maintain/'', ''/v1/client/read/find/'', ''/v1/content/maintain/'',
      ''/v1/pageview/content/''}" for pre
  proof -
    have "CHR ''{'' \<notin> set pre" using that(2) by auto
    then show ?thesis using m that(1) take_prefix [of pre path] by (auto simp: ident split: if_splits)
  qed
  from p have "(p, h) \<in> set [(''/v1/client/maintain'', RInsertClient), (''/v1/client/maintain/'' @ id_pattern, RUpdateClient),
    (''/v1/client/read/find/'' @ id_pattern, RFindOneClient), (''/v1/client/read/list'', RFindManyClient),
    (''/v1/content/maintain'', RInsertContent), (''/v1/content/maintain/'' @ id_pattern, RUpdateContent),
    (''/v1/content/read/list'', RFindManyContent), (''/v1/pageview/content/'' @ id_pattern, RProcessPageview)]"
    by (simp only: routes_v1 [OF v])
  then show "serves path h vars"
    unfolding list.set insert_iff empty_iff prod.inject
  proof (elim disjE conjE FalseE, goal_cases)
    case 1
    then show ?case using literal [of "''/v1/client/maintain''"] serves.intros(1) by simp
  next
    case 2
    then show ?case
      using prefixed [of "''/v1/client/maintain/''"] serves.intros(2) by (auto simp del: append.simps)
  next
    case 3
    then show ?case
      using prefixed [of "''/v1/client/read/find/''"] serves.intros(3) by (auto simp del: append.simps)
  next
    case 4
    then show ?case using literal [of "''/v1/client/read/list''"] serves.intros(4) by simp
  next
    case 5
    then show ?case using literal [of "''/v1/content/maintain''"] serves.intros(5) by simp
  next
    case 6
    then show ?case
      using prefixed [of "''/v1/content/maintain/''"] serves.intros(6) by (auto simp del: append.simps)
  next
    case 7
    then show ?case using literal [of "''/v1/content/read/list''"] serves.intros(7) by simp
  next
    case 8
    then show ?case
      using prefixed [of "''/v1/pageview/content/''"] serves.intros(8) by (auto simp del: append.simps)
  qed
next
  note lit = mux_literal [OF mux] and ident = mux_ident [OF mux]
  note idents = ident [of "''/v1/client/maintain/''", simplified] ident [of "''/v1/client/read/find/''", simplified]
    ident [of "''/v1/content/maintain/''", simplified] ident [of "''/v1/pageview/content/''", simplified]
  assume "serves path h vars"
  then show "find_route mux cfg path = Some (h, vars)"
    unfolding find_route_def routes_v1 [OF v]
    by cases (simp_all add: List.map_filter_simps lit idents)
qed

lemma serves_clean: "serves path h vars \<Longrightarrow> clean_path path"
  by (induction rule: serves.induct) (simp_all add: clean_path_def canonical_element)

lemma ServeHTTP_served:
  assumes "mux_matches mux" "ApiVersion cfg = ''1''" "serves path h vars"
  shows "ServeHTTP mux env cfg path r = run_handler h env cfg (r\<lparr>Vars := vars\<rparr>)"
  using find_route_serves [OF assms(1,2), THEN iffD2, OF assms(3)] mux_clean [OF assms(1)] serves_clean [OF assms(3)]
  by (simp add: ServeHTTP_def HandlerWrapper_def)

lemma ServeHTTP_unserved:
  assumes "mux_matches mux" "ApiVersion cfg = ''1''" "clean_path path" "\<nexists>h vars. serves path h vars"
  shows "ServeHTTP mux env cfg path r = write_answer (http_Error ''404 page not found'' 404)"
proof -
  have "find_route mux cfg path = None"
    using assms(4) find_route_serves [OF assms(1,2), of path] by (cases "find_route mux cfg path") auto
  then show ?thesis using mux_clean [OF assms(1)] assms(3) by (simp add: ServeHTTP_def)
qed

lemma ServeHTTP_unclean:
  assumes "mux_matches mux" "\<not> clean_path path"
  shows "ServeHTTP mux env cfg path r = write_answer (moved_permanently (mux_URL mux (mux_cleanPath mux path) r))"
  using mux_clean [OF assms(1)] assms(2) by (simp add: ServeHTTP_def Let_def)

lemma serve_request_run:
  "ServeHTTP mux env cfg path r \<lparr>outside = s, writer = fresh_writer\<rparr> = (Val (), w) \<Longrightarrow>
   serve_request mux env cfg (path, r) s = (Some (final_status (writer w), sent_body r (writer w)), outside w)"
  "ServeHTTP mux env cfg path r \<lparr>outside = s, writer = fresh_writer\<rparr> = (Panic p, w) \<Longrightarrow>
   serve_request mux env cfg (path, r) s = (None, outside w)"
  by (simp_all add: serve_request_def)

text \<open>
  C23. Routing: each of the eight paths of the service reaches the handler it is registered
  for, with the identifier of the path as variable, and none is shadowed by another; any
  other clean path is answered 404; and a path that is not clean (an empty element, a dot or
  two dots) reaches no handler but is answered 301 with the clean path as Location.
\<close>

theorem paths_served:
  assumes "mux_matches mux" and "ApiVersion cfg = ''1''"
  shows "(serves path h vars \<longrightarrow>
      ServeHTTP mux env cfg path r = run_handler h env cfg (r\<lparr>Vars := vars\<rparr>)) \<and>
    (clean_path path \<longrightarrow> (\<nexists>h vars. serves path h vars) \<longrightarrow>
      ServeHTTP mux env cfg path r = write_answer (http_Error ''404 page not found'' 404)) \<and>
    (\<not> clean_path path \<longrightarrow> ServeHTTP mux env cfg path r =
      write_answer (moved_permanently (mux_URL mux (mux_cleanPath mux path) r)))"
  using ServeHTTP_served [OF assms] ServeHTTP_unserved [OF assms] ServeHTTP_unclean [OF assms(1)] by blast

end
