(* ===== verification/Server_Safety.thy ===== *)
theory Server_Safety
  imports Server_Correct Service_Correct
begin

text \<open>
  The service does not panic: \<open>calm\<close> is the judgement that a \<open>proc\<close> never does, with rules for the
  ways the handlers are composed. On the shipped configuration every handler is calm but for two
  kinds of request, the creation of a client and a list of clients with an argument \<open>q\<close>.
\<close>

section \<open>A judgement for handlers\<close>

definition calm :: "('w, 'a) proc \<Rightarrow> bool" where
  "calm p \<longleftrightarrow> (\<forall>w. \<not> panics (fst (p w)))"

lemma calm_bind:
  assumes "calm m" and "\<And>v w w'. m w = (Val v, w') \<Longrightarrow> calm (k v)"
  shows "calm (pbind m k)"
  unfolding calm_def
proof
  fix w
  obtain r w' where m: "m w = (r, w')" by (cases "m w")
  moreover from assms(1) m obtain v where "r = Val v" unfolding calm_def by (metis fst_conv not_panics)
  ultimately show "\<not> panics (fst (pbind m k w))"
    using assms(2) unfolding calm_def by (simp add: pbind_Val)
qed

lemma calm_preturn [calm_rules]: "calm (preturn v)"
  by (simp add: calm_def)

lemma calm_pcall [calm_rules]: "calm (pcall f)"
  by (simp add: calm_def)

lemma calm_on_outside [calm_rules]: "calm p \<Longrightarrow> calm (on_outside p)"
  by (simp add: calm_def)

lemma calm_plift_bind [calm_rules]:
  "m = Val v \<Longrightarrow> calm (k v) \<Longrightarrow> calm (pbind (plift m) k)"
  by simp

lemma calm_write_answer [calm_rules]: "calm (write_answer f)"
  by (simp add: calm_def write_answer_def)

section \<open>Answers\<close>

lemma calm_reply:
  assumes "\<And>w. \<exists>r. f (env_ext env) doc w = Val r"
  shows "calm (reply env f doc)"
  unfolding calm_def reply_def
proof
  fix w
  obtain r where "f (env_ext env) doc (writer w) = Val r" using assms by blast
  then show "\<not> panics (fst (case f (env_ext env) doc (writer w) of
      Val (err, rw) \<Rightarrow> (Val (), w\<lparr>writer := rw\<rparr>) | Panic p \<Rightarrow> (Panic p, w)))"
    by (simp split: prod.split)
qed

lemma formats_simple:
  "\<exists>r. formatJsonResponse ext (error_doc t) = Val r" "\<exists>r. formatJsonResponse ext (Some []) = Val r"
  by (simp_all add: formatJsonResponse_def formatResponse_error_doc formatResponse_empty)

lemma formats_data: "\<exists>r. formatJsonResponse ext (data_doc rec (GMap nx)) = Val r"
  by (simp add: formatJsonResponse_def formatResponse_def data_doc_def copy_field_def)

lemma answers_total:
  assumes "\<exists>r. formatJsonResponse ext doc = Val r"
  shows "\<exists>r. MakeNotFoundResponse ext doc w = Val r" "\<exists>r. MakeInvalidInputResponse ext doc w = Val r"
    "\<exists>r. MakeInvalidMethodResponse ext doc w = Val r" "\<exists>r. MakeInternalErrorResponse ext doc w = Val r"
    "\<exists>r. MakeDataResponse ext doc w = Val r"
  using assms
  by (auto simp: MakeNotFoundResponse_def MakeInvalidInputResponse_def MakeInvalidMethodResponse_def
      MakeInternalErrorResponse_def MakeDataResponse_def)

lemma calm_reply_error [calm_rules]:
  "f \<in> {MakeInvalidInputResponse, MakeInternalErrorResponse} \<Longrightarrow> calm (reply_error env f e)"
  unfolding reply_error_def
  by (rule calm_reply) (use answers_total [OF formats_simple(1)] in auto)

lemma calm_invalid_method [calm_rules]: "calm (invalid_method env)"
  unfolding invalid_method_def
  by (rule calm_reply) (use answers_total [OF formats_simple(1)] in auto)

lemma calm_not_found [calm_rules]: "calm (reply env MakeNotFoundResponse (Some []))"
  by (rule calm_reply) (use answers_total [OF formats_simple(2)] in auto)

lemma calm_data [calm_rules]: "calm (reply env MakeDataResponse (data_doc rec (GMap nx)))"
  by (rule calm_reply) (use answers_total [OF formats_data] in auto)

section \<open>The parts of the handlers\<close>

lemma calm_with_input [calm_rules]: "(\<And>doc. combineInput (env_ext env) (env_ord env) r = (doc, None) \<Longrightarrow> calm (k doc)) \<Longrightarrow> calm (with_input env r k)"
  by (auto simp: with_input_def split: prod.split option.split intro: calm_rules)

lemma calm_with_connection [calm_rules]: "calm (k (Some (pool cfg))) \<Longrightarrow> calm (with_connection env cfg k)"
  using calm_reply_error [of MakeInternalErrorResponse env]
  by (auto simp: calm_def with_connection_run split: option.split)

lemma calm_with_valid:
  assumes "map_index (Settings cfg) sect = GMap schema" "safe_schema schema" and "\<And>doc. calm (k doc)"
  shows "calm (with_valid env cfg sect action doc k)"
proof -
  obtain r where "ValidateWithSchema (env_ext env) (env_ord env) doc schema action = Val r"
    using validate_total [OF assms(2)] by blast
  with assms(1,3) show ?thesis
    by (auto simp: with_valid_def validate_input_def split: prod.split option.split intro: calm_rules)
qed

lemma calm_call_function:
  assumes "length names < 2 ^ 63 - 1" and "\<And>rows pFE. calm (k (read_pFE rows pFE))"
  shows "calm (call_function env (Some h) f (map GString names) doc k)"
  using assms(2) calm_reply_error [of MakeInvalidInputResponse env]
  by (auto simp: calm_def call_function_run [OF assms(1)] split: prod.split sum.split)

lemma calm_reply_one [calm_rules]: "calm (reply_one env n)"
  by (auto simp: reply_one_def intro: calm_rules)

lemma calm_sendMessage [calm_rules]: "KafkaProducer cfg \<Longrightarrow> calm (sendMessage env cfg msg)"
  unfolding sendMessage_def Let_def
  by (auto intro!: calm_bind calm_rules split: sum.split prod.split)

text \<open>The one query of the two lists.\<close>

lemma calm_found:
  assumes "\<And>pDH. calm (k pDH)" and "find_placeholders (env_ord env) pDH = Val ph" and "pDH_dbh pDH \<noteq> None"
  shows "calm (with_found env pDH [''return_many'', ''reverse_sort''] k)"
proof -
  have "calm (FindRecord (env_db env) (env_ord env) pDH [''return_many'', ''reverse_sort''])"
  proof (cases "pDH_dmlType pDH = []")
    case True
    obtain h where h: "pDH_dbh pDH = Some h" using assms(3) by blast
    have "find_placeholders (env_ord env) (pDH\<lparr>pDH_sortDirection := d\<rparr>) = find_placeholders (env_ord env) pDH" for d
      by (simp add: find_placeholders_def)
    then have "find_placeholders (env_ord env) (pDH\<lparr>pDH_sortDirection := d\<rparr>) = Val ph" for d
      using assms(2) by simp
    with True h show ?thesis
      by (auto simp: calm_def FindRecord_def Let_def Query_def pbind_apply split: prod.split sum.split)
  qed (simp add: FindRecord_def calm_preturn)
  then show ?thesis
    unfolding with_found_def
    by (auto intro!: calm_bind calm_rules assms(1) split: prod.split option.split)
qed

section \<open>The handlers on the shipped configuration\<close>

lemma shipped_actions:
  "action_cfg (shipped_process s1 s2) ''client_action'' ''insert'' = Val (''create_client'', map GString [''name''])"
  "action_cfg (shipped_process s1 s2) ''client_action'' ''update'' = Val (''update_client'', map GString [''id'', ''name''])"
  "action_cfg (shipped_process s1 s2) ''client_action'' ''delete'' = Val (''delete_client'', map GString [''id''])"
  by (simp_all add: action_cfg_def shipped_process_def shipped_settings_def map_index_def action_entry_def)

text \<open>Both table definitions are found, whatever the order of the tables.\<close>

lemma shipped_tables:
  "GetClientTableDef ord (shipped_process s1 s2) =
     Val (Some [(''table_name'', GString ''client''), (''pk'', GStrings [''id''])], True)"
  "GetContentTableDef ord (shipped_process s1 s2) =
     Val (Some [(''table_name'', GString ''content''), (''pk'', GStrings [''id''])], True)"
proof -
  define tc where "tc = Some [(''client'', GMap (Some [(''pk'', GSlice [GString ''id''])])),
    (''content'', GMap (Some [(''pk'', GSlice [GString ''id''])]))]"
  have tc: "map_index (Settings (shipped_process s1 s2)) ''table_configs'' = GMap tc"
    by (simp add: shipped_process_def shipped_settings_def map_index_def tc_def)
  have found: "table_def_loop table (range_over ord site tc) (Some []) False =
      Val (Some [(''table_name'', GString table), (''pk'', GStrings [''id''])], True)"
    if "table \<in> {''client'', ''content''}" for table site
  proof (rule table_def_loop_found [where t = "Some [(''pk'', GSlice [GString ''id''])]"])
    have "wf_map tc" by (simp add: tc_def)
    then show "distinct (map fst (range_over ord site tc))"
      and "map_of (range_over ord site tc) table = Some (GMap (Some [(''pk'', GSlice [GString ''id''])]))"
      using that by (auto simp: distinct_range_over map_of_range_over wf_map_def tc_def)
  qed simp
  show "GetClientTableDef ord (shipped_process s1 s2) =
      Val (Some [(''table_name'', GString ''client''), (''pk'', GStrings [''id''])], True)"
    and "GetContentTableDef ord (shipped_process s1 s2) =
      Val (Some [(''table_name'', GString ''content''), (''pk'', GStrings [''id''])], True)"
    by (simp_all add: GetClientTableDef_def GetContentTableDef_def tc found)
qed

lemma with_handler_table:
  "with_handler env (Some h) (Some [(''table_name'', GString table), (''pk'', GStrings [p])]) k = k (table_handler h table p)"
  by (simp add: with_handler_def NewPostgresDataHandler_table)

lemma with_handler_empty:
  "with_handler env (Some h) (Some []) k =
     reply_error env MakeInternalErrorResponse (ErrorString ''table_name must be provided'')"
  by (simp add: with_handler_def NewPostgresDataHandler_def)

lemma SetFindCriteria_table: "snd (SetFindCriteria (Some []) ((table_handler h table p)\<lparr>pDH_EnforceBatch := b\<rparr>)) =
    (table_handler h table p)\<lparr>pDH_EnforceBatch := b\<rparr>"
  "snd (SetFindCriteria (Some []) (table_handler h table p)) = table_handler h table p"
  by (simp_all add: SetFindCriteria_def table_handler_def)

lemma table_placeholders:
  "find_placeholders ord ((table_handler h table p)\<lparr>pDH_EnforceBatch := b\<rparr>) = Val (1, [], [])"
  "find_placeholders ord (table_handler h table p) = Val (1, [], [])"
  by (simp_all add: find_placeholders_def table_handler_def map_len_def zero_pDH_def)

lemma table_handler_dbh [simp]: "pDH_dbh (table_handler h table p) = Some h"
  by (simp add: table_handler_def)

lemma calm_insert_client:
  "Method r \<noteq> ''POST'' \<Longrightarrow> calm (InsertClientHandler env cfg r)"
  by (auto simp: InsertClientHandler_def intro!: calm_rules)

lemma calm_update_client:
  assumes "safe_schema s1"
  shows "calm (UpdateClientHandler env (shipped_process s1 s2) r)"
proof -
  have deleted: "calm (if 0 < sint (pFE_NumAffectedLastOp (read_pFE rows pFE)) then
      pbind (plift (last_record (pFE_Record (read_pFE rows pFE)))) (\<lambda>nx.
        reply env MakeDataResponse (data_doc (pFE_Record (read_pFE rows pFE)) nx))
      else reply env MakeNotFoundResponse (Some []))" for rows pFE
  proof (cases "rs_rows rows" rule: rev_cases)
    case (snoc vs v)
    then show ?thesis by (auto simp: last_record_def read_row_def intro: calm_rules)
  qed (simp add: calm_not_found)
  show ?thesis
    unfolding UpdateClientHandler_def update_client_post_def update_client_patch_def update_client_delete_def Let_def
    by (auto simp: shipped_actions
        intro!: calm_rules calm_with_valid [OF shipped_schemas(1) assms] deleted
          calm_call_function [of "[''id'', ''name'', ''replacement'']", simplified]
          calm_call_function [of "[''id'', ''name'']", simplified] calm_call_function [of "[''id'']", simplified])
qed

lemma calm_find_client: "calm (FindOneClientHandler env cfg r)"
  by (auto simp: FindOneClientHandler_def intro!: calm_rules)

lemma calm_list_clients:
  assumes "FormValue r ''q'' = []"
  shows "calm (FindManyClientHandler env (shipped_process s1 s2) r)"
proof -
  have "calm (reply_found env pDH)" for pDH by (auto simp: reply_found_def intro: calm_rules)
  then show ?thesis
    unfolding FindManyClientHandler_def
    by (auto simp: shipped_tables with_handler_table with_query_def assms Let_def SetFindCriteria_table
        intro!: calm_rules calm_found [OF _ table_placeholders(2)])
qed

lemma calm_contents: "calm (InsertContentHandler env cfg r)" "calm (UpdateContentHandler env cfg r)"
  by (auto simp: InsertContentHandler_def UpdateContentHandler_def with_handler_empty intro!: calm_rules)

lemma calm_list_contents: "calm (FindManyContentHandler env (shipped_process s1 s2) r)"
proof -
  have "calm (\<lambda>w. case MakeDataArrayResponse ext rec (writer w) of
      Val (err, rw) \<Rightarrow> (Val (), w\<lparr>writer := rw\<rparr>) | Panic p \<Rightarrow> (Panic p, w))" for ext rec
    by (auto simp: calm_def MakeDataArrayResponse_def split: sum.split)
  then show ?thesis
    unfolding FindManyContentHandler_def
    by (auto simp: shipped_tables with_handler_table Let_def SetFindCriteria_table
        intro!: calm_rules calm_found [OF _ table_placeholders(1)])
qed

lemma combineInput_ident:
  assumes "combineInput ext ord r = (doc, None)" and "Vars r = [(''id'', u)]"
  shows "map_index doc ''id'' = GString u"
proof -
  obtain m where "add_vars [(''id'', GString u)] m = (doc, None)"
    using assms by (auto simp: combineInput_def Let_def split: sum.splits)
  then show ?thesis by (cases m) (auto simp: SetKey_nil SetKey_Some map_index_def)
qed

lemma calm_pageview:
  assumes "KafkaProducer cfg" and "Vars r = [(''id'', u)]"
  shows "calm (ProcessPageviewHandler env cfg r)"
  unfolding ProcessPageviewHandler_def
  using combineInput_ident [OF _ assms(2)] assms(1)
  by (auto intro!: calm_rules calm_bind split: prod.split option.split sum.split)

text \<open>The two kinds of request that the result leaves out.\<close>

definition safe_request :: "string \<times> request \<Rightarrow> bool" where
  "safe_request = (\<lambda>(path, r). \<not> (path = ''/v1/client/maintain'' \<and> Method r = ''POST'') \<and>
     (path = ''/v1/client/read/list'' \<longrightarrow> FormValue r ''q'' = []))"

lemma request_answered:
  assumes "shipped_startup st" and "init_process ext conv ord st = Val cfg" and "mux_matches mux"
    and "safe_request (path, r)"
  shows "fst (serve_request mux env cfg (path, r) s) \<noteq> None"
proof -
  obtain s1 s2 where cfg: "cfg = shipped_process s1 s2" and init: "InitSchema ord client_message = Val (None, s1)"
    using shipped_init [OF assms(1), of ext conv ord] assms(2) by auto
  note safe = shipped_safe(1) [OF init]
  have "calm (ServeHTTP mux env cfg path r)"
  proof (cases "\<exists>h vars. serves path h vars")
    case False
    then show ?thesis
      using ServeHTTP_unserved [OF assms(3) _ _ False, of cfg env r] ServeHTTP_unclean [OF assms(3), of path env cfg r]
      by (cases "clean_path path") (simp_all add: cfg calm_write_answer)
  next
    case True
    then obtain h vars where h: "serves path h vars" by blast
    have "calm (run_handler h env cfg (r\<lparr>Vars := vars\<rparr>))"
      using h assms(4) unfolding safe_request_def
      by cases (auto simp: cfg run_handler_def calm_find_client calm_contents calm_list_contents
          intro!: calm_insert_client calm_update_client [OF safe] calm_list_clients calm_pageview)
    then show ?thesis using ServeHTTP_served [OF assms(3) _ h, of cfg env r] by (simp add: cfg)
  qed
  then obtain w where "ServeHTTP mux env cfg path r \<lparr>outside = s, writer = fresh_writer\<rparr> = (Val (), w)"
    unfolding calm_def not_panics by (metis (full_types) old.unit.exhaust prod.collapse)
  from serve_request_run(1) [OF this] show ?thesis by simp
qed

text \<open>
  C3. On the shipped configuration every request of a sequence is answered, on every path,
  whatever its method and its body are and the database and the queue do, but for two kinds:
  the creation of a client, and a list of clients with an argument q.
\<close>

theorem service_answers:
  assumes "shipped_startup st" and "init_process ext conv ord st = Val cfg" and "mux_matches mux"
    and "list_all safe_request qs"
  shows "length (fst (serve_requests mux env cfg qs s)) = length qs \<and>
    None \<notin> set (fst (serve_requests mux env cfg qs s))"
  using assms(4)
proof (induction qs arbitrary: s)
  case (Cons q qs)
  obtain answer s1 where q: "serve_request mux env cfg q s = (answer, s1)" by fastforce
  then have "answer \<noteq> None"
    using request_answered [OF assms(1-3), of "fst q" "snd q" env s] Cons.prems by simp
  then show ?case using Cons.IH [of s1] Cons.prems q by (auto simp: case_prod_unfold Let_def)
qed simp

text \<open>The second kind does panic: a null in the place of the fields.\<close>

theorem query_fields_panic:
  assumes "map_get args ''fields'' = Some GNil"
  shows "query_projection args pDH = Panic NilDereference"
  using assms by (simp add: query_projection_def)

end
