(* ===== verification/Site.thy ===== *)
theory Site
  imports Server_Safety "HOL-Library.List_Lexorder" "HOL-Library.Char_ord"
begin

text \<open>
  The service on its database: the shipped configuration, the routes, the handlers and the stored
  functions together. \<open>st\<close> reads the tables out of the outside world; \<open>backed_by\<close> states what
  PostgreSQL and lib/pq make of the statements the service sends, in terms of the stored functions.
\<close>

section \<open>The database behind the service\<close>

definition ids :: "store \<Rightarrow> uuid list" where
  "ids s = sort (map fst (client s))"

text \<open>
  A statement may fail; then it has changed nothing. Otherwise \<open>create_client\<close> has run with some
  new identifier, and its one result is in a column named like the function, as bytes; the list of
  the clients is the first eleven identifiers in order. Opening a pool and sending a message leave
  the tables alone.
\<close>

definition creates_clients :: "('s \<Rightarrow> store) \<Rightarrow> 's database \<Rightarrow> bool" where
  "creates_clients st db \<longleftrightarrow> (\<forall>h n s.
     case db_Query db h ''select * from create_client($1)'' [GString n] s of
       (Inl e, s') \<Rightarrow> st s' = st s
     | (Inr rows, s') \<Rightarrow> \<exists>new u. canonical new \<and> create_client new (Some n) (st s) = Inr (u, st s') \<and>
         rows = \<lparr>rs_columns = [''create_client''], rs_rows = [[GBytes u]], rs_err = None\<rparr>)"

definition lists_clients :: "('s \<Rightarrow> store) \<Rightarrow> 's database \<Rightarrow> bool" where
  "lists_clients st db \<longleftrightarrow> (\<forall>h s.
     case db_Query db h ''select id from client order by id asc limit 11'' [] s of
       (Inl e, s') \<Rightarrow> st s' = st s
     | (Inr rows, s') \<Rightarrow> st s' = st s \<and>
         rows = \<lparr>rs_columns = [''id''], rs_rows = map (\<lambda>u. [GBytes u]) (take 11 (ids (st s))), rs_err = None\<rparr>)"

definition backed_by :: "('s \<Rightarrow> store) \<Rightarrow> 's environment \<Rightarrow> bool" where
  "backed_by st env \<longleftrightarrow>
     (\<forall>driver name s. st (snd (sql_Open (env_db env) driver name s)) = st s) \<and>
     (\<forall>topic msg s. st (snd (env_SendMessage env topic msg s)) = st s) \<and>
     creates_clients st (env_db env) \<and> lists_clients st (env_db env)"

lemma creates_clientsD:
  assumes "backed_by st env" and "db_Query (env_db env) h ''select * from create_client($1)'' [GString n] s = (q, s')"
  shows "case q of Inl e \<Rightarrow> st s' = st s
    | Inr rows \<Rightarrow> \<exists>new u. canonical new \<and> create_client new (Some n) (st s) = Inr (u, st s') \<and>
        rows = \<lparr>rs_columns = [''create_client''], rs_rows = [[GBytes u]], rs_err = None\<rparr>"
proof -
  have "creates_clients st (env_db env)" using assms(1) by (simp add: backed_by_def)
  then show ?thesis
    unfolding creates_clients_def
    by (elim allE [of _ h] allE [of _ n] allE [of _ s]) (cases q, simp_all add: assms(2))
qed

lemma lists_clientsD:
  assumes "backed_by st env"
    and "db_Query (env_db env) h ''select id from client order by id asc limit 11'' [] s = (Inr rows, s')"
  shows "st s' = st s"
    and "rows = \<lparr>rs_columns = [''id''], rs_rows = map (\<lambda>u. [GBytes u]) (take 11 (ids (st s))), rs_err = None\<rparr>"
proof -
  have "lists_clients st (env_db env)" using assms(1) by (simp add: backed_by_def)
  then have "case db_Query (env_db env) h ''select id from client order by id asc limit 11'' [] s of
       (Inl e, s') \<Rightarrow> st s' = st s
     | (Inr rows, s') \<Rightarrow> st s' = st s \<and>
         rows = \<lparr>rs_columns = [''id''], rs_rows = map (\<lambda>u. [GBytes u]) (take 11 (ids (st s))), rs_err = None\<rparr>"
    unfolding lists_clients_def by (elim allE [of _ h] allE [of _ s])
  then show "st s' = st s"
    and "rows = \<lparr>rs_columns = [''id''], rs_rows = map (\<lambda>u. [GBytes u]) (take 11 (ids (st s))), rs_err = None\<rparr>"
    unfolding assms(2) by simp_all
qed

lemma backed_open: "backed_by st env \<Longrightarrow> st (outside (opened_world env cfg w)) = st (outside w)"
  by (simp add: backed_by_def opened_world_def)

section \<open>What the shipped schema accepts\<close>

text \<open>The requirement of \<open>insert\<close> and the definition of \<open>name\<close> in the prepared schema.\<close>

lemma shipped_insert_rules:
  assumes "InitSchema ord client_message = Val (None, s1)"
  shows "\<exists>legend a. requirements s1 ''insert'' = Val ([''name''], False) \<and>
    map_index s1 ''legend'' = GMap legend \<and> map_get legend ''name'' = Some (GMap (Some a)) \<and>
    map_of a ''type'' = Some (GKind KString) \<and> map_of a ''null_ok'' = None \<and>
    map_of a ''additional_validation'' = Some (GMap (Some [(''length'', GSlice [GFloat 1, GString ''max''])])) \<and>
    (\<forall>k. k \<notin> {''id'', ''name''} \<longrightarrow> map_get legend k = None)"
proof -
  define rf where "rf = Some [(''default'', GMap (Some [])), (''initial'', GMap (Some [])), (''all'', GMap (Some [])),
     (''insert'', required [''name'']), (''delete'', required [''id'']),
     (''replace'', required [''id'', ''name'']), (''update'', required [''id'', ''name''])]"
  define lg where "lg = Some [(''id'', uuid_field), (''name'', length_field [GFloat 1, GString ''max''])]"
  have wf: "wf_map rf" "wf_map lg" by (simp_all add: rf_def lg_def)
  have m: "client_message = Some [(''legend'', GMap lg), (''required_fields'', GMap rf)]"
    by (simp add: client_message_def rf_def lg_def)
  from assms obtain lg' rf' where p: "processRequiredFields ord ''root'' rf = Val (None, rf')"
    and l: "processLegend ord ''root'' lg = Val (None, lg')"
    and s1: "s1 = Some [(''legend'', GMap lg'), (''required_fields'', GMap rf')]"
    by (auto simp: InitSchema_def parseSubSection_None m)
  have "\<exists>cfg fl. required [''name''] = GMap cfg \<and> map_get rf' ''insert'' = Some (GMap (Some [(''fields'', GStrings fl),
           (''require_an_optional'', GBool (optional_of (Some []) (optional_of cfg (optional_of (Some []) False))))])) \<and>
           set fl = fields_of (Some []) \<union> fields_of cfg \<union> fields_of (Some []) \<and> distinct fl"
    by (rule merged_settings [OF wf(1) p]) (simp_all add: rf_def)
  then obtain fl where "map_get rf' ''insert'' = Some (GMap (Some [(''fields'', GStrings fl),
      (''require_an_optional'', GBool False)]))" and fl: "set fl = {''name''}" "distinct fl"
    by (auto simp: required_def fields_of_def optional_of_def)
  moreover have "fl = [''name'']" using fl by (cases fl; cases "tl fl") auto
  ultimately have req: "requirements s1 ''insert'' = Val ([''name''], False)"
    by (simp add: requirements_def s1 map_index_def)
  have name: "map_get lg ''name'' = Some (length_field [GFloat 1, GString ''max''])" by (simp add: lg_def)
  obtain a0 t kd a where a0: "length_field [GFloat 1, GString ''max''] = GMap (Some a0)"
    "map_of a0 ''type'' = Some (GString t)" "type_kind t = Some kd"
    "prepare.after ord ''root'' (''name'', length_field [GFloat 1, GString ''max'']) = Some (''name'', GMap (Some a))"
    "map_of a ''type'' = Some (GKind kd)" "\<forall>x. x \<noteq> ''type'' \<longrightarrow> x \<noteq> ''sub_type'' \<longrightarrow> map_of a x = map_of a0 x"
    using prepare_field [OF prepared_entry(1) [OF wf(2) l name]] by (elim exE conjE) (rule that; assumption)
  have e: "a0 = [(''type'', GString ''string''), (''additional_validation'',
      GMap (Some [(''length'', GSlice [GFloat 1, GString ''max''])]))]"
    using a0(1) by (simp add: length_field_def)
  then have "map_of a ''type'' = Some (GKind KString)" using a0(2,3,5) by (simp add: type_kind_def)
  moreover have "map_of a ''null_ok'' = None" using a0(6) e by simp
  moreover have "map_of a ''additional_validation'' = Some (GMap (Some [(''length'', GSlice [GFloat 1, GString ''max''])]))"
    using a0(6) e by simp
  moreover have "map_get lg' ''name'' = Some (GMap (Some a))"
    using prepared_entry(2) [OF wf(2) l name] a0(4) by simp
  moreover have "map_get lg' k = None" if "k \<notin> {''id'', ''name''}" for k
    using prepared_entry_none [OF wf(2) l] that by (simp add: lg_def)
  ultimately show ?thesis
    using req by (intro exI [of _ lg'] exI [of _ a]) (simp add: s1 map_index_def)
qed

lemma name_accepted:
  assumes "map_of a ''type'' = Some (GKind KString)" "map_of a ''null_ok'' = None"
    "map_of a ''additional_validation'' = Some (GMap (Some [(''length'', GSlice [GFloat 1, GString ''max''])]))"
    and "n \<noteq> []"
  shows "validate_field ext ord action k (GString n) (Some a) = Val (None, Some (GString n))"
  using assms
  by (cases n) (simp_all add: validate_field.simps null_ok_def check_string_def check_enum_def
      check_length_def check_bounds_def map_index_def Let_def)

lemma shipped_accepts_client:
  assumes init: "InitSchema ord client_message = Val (None, s1)"
    and d: "distinct (map fst d)" "map_of d ''name'' = Some (GString n)" "n \<noteq> []" "map_of d ''id'' = None"
  shows "\<exists>out. ValidateWithSchema ext ord' (Some d) s1 ''insert'' = Val (None, out) \<and> map_index out ''name'' = GString n"
proof -
  obtain legend a where req: "requirements s1 ''insert'' = Val ([''name''], False)"
    and leg: "map_index s1 ''legend'' = GMap legend" and nm: "map_get legend ''name'' = Some (GMap (Some a))"
    and a: "map_of a ''type'' = Some (GKind KString)" "map_of a ''null_ok'' = None"
      "map_of a ''additional_validation'' = Some (GMap (Some [(''length'', GSlice [GFloat 1, GString ''max''])]))"
    and others: "\<And>k. k \<notin> {''id'', ''name''} \<Longrightarrow> map_get legend k = None"
    using shipped_insert_rules [OF init] by blast
  note field = name_accepted [OF a d(3), of ext ord' "''insert''" "''name''"]
  have wf: "wf_map (Some d)" using d(1) by simp
  have "legend.ok ext ord' legend ''insert'' (k, v)" if "(k, v) \<in> set d" for k v
  proof (cases "k = ''name''")
    case True
    with that d(1,2) have "v = GString n" by (metis map_of_is_SomeI option.inject)
    then show ?thesis using True field nm by (auto simp: legend_ok_iff map_index_def)
  next
    case False
    moreover have "k \<noteq> ''id''" using that d(4) by (auto simp: map_of_eq_None_iff rev_image_eqI)
    ultimately show ?thesis using others [of k] by (simp add: legend_ok_iff map_index_def)
  qed
  then have ok: "\<forall>e \<in> set (entries (Some d)). legend.ok ext ord' legend ''insert'' e" by auto
  let ?out = "map_option (List.map_filter (legend.after ext ord' legend ''insert'')) (Some d)"
  have val: "ValidateWithSchema ext ord' (Some d) s1 ''insert'' = Val (None, ?out)"
    unfolding ValidateWithSchema_ok [OF wf] using req leg ok d(2) by auto
  have run: "ValidateWithLegend ext ord' (Some d) legend ''insert'' = Val (None, ?out)"
    unfolding ValidateWithLegend_ok [OF wf] using ok by simp
  have vm: "map_index legend ''name'' = GMap (Some a)" using nm by (simp add: map_index_def)
  from legend_after_field [OF vm field]
  have "map_get ?out ''name'' = Some (GString n)"
    using legend.lookup_after(1) [OF wf run [unfolded ValidateWithLegend.simps], of "''name''"] d(2) by simp
  with val show ?thesis by (auto simp: map_index_def)
qed

section \<open>Creating a client\<close>

text \<open>A request whose body is a JSON object that the decoder reads as \<open>d\<close>.\<close>

definition carries :: "externals \<Rightarrow> request \<Rightarrow> dict \<Rightarrow> bool" where
  "carries ext r d \<longleftrightarrow> (\<exists>b. Body r = Inr b \<and> distinct (map fst d) \<and>
     (if b = [] then Inr (Some []) else json_Unmarshal ext b) = Inr (Some d))"

lemma carries_input: "carries ext r d \<Longrightarrow> combineInput ext ord (r\<lparr>Vars := []\<rparr>) = (Some d, None)"
  by (auto simp: carries_def combineInput_def Let_def split: if_splits)

text \<open>The process has started on the shipped configuration, and requests are routed to it.\<close>

definition running :: "router \<Rightarrow> ProcessConfiguration \<Rightarrow> bool" where
  "running mux cfg \<longleftrightarrow> mux_matches mux \<and>
     (\<exists>ext conv ord start. shipped_startup start \<and> init_process ext conv ord start = Val cfg)"

lemma running_shipped:
  assumes "running mux cfg"
  shows "mux_matches mux" and "\<exists>ord s1 s2. cfg = shipped_process s1 s2 \<and> InitSchema ord client_message = Val (None, s1)"
proof -
  from assms obtain ext conv ord start where mux: "mux_matches mux" and start: "shipped_startup start"
    "init_process ext conv ord start = Val cfg" unfolding running_def by blast
  show "mux_matches mux" by (rule mux)
  show "\<exists>ord s1 s2. cfg = shipped_process s1 s2 \<and> InitSchema ord client_message = Val (None, s1)"
    using shipped_init [OF start(1), of ext conv ord] start(2) by auto
qed

lemma create_text: "call_text ''create_client'' [''name''] = ''select * from create_client($1)''"
  by (simp add: call_text_def placeholder_def FormatInt_def dec_nat.simps)

text \<open>A request that is refused: an error answer, or an empty one when the error has no JSON text.\<close>

definition refusal :: "(nat \<times> string) option \<Rightarrow> bool" where
  "refusal answer \<longleftrightarrow> (\<exists>status body. answer = Some (status, body) \<and> (status \<in> {400, 500} \<or> (status, body) = (200, [])))"

lemma refused_answer:
  assumes "reply_error env f e w = (Val (), w')" and "answered c w w'" and "c \<in> {400, 500}" and "writer w = fresh_writer"
  shows "refusal (Some (final_status (writer w'), rw_body (writer w')))"
  using assms(2-4) by (auto simp: refusal_def answered_def final_status_def fresh_writer_def)

lemma post_client:
  assumes run: "running mux cfg" and db: "backed_by st env"
    and r: "Method r = ''POST''" "carries (env_ext env) r d"
    and d: "map_of d ''name'' = Some (GString n)" "n \<noteq> []" "map_of d ''id'' = None"
  shows "case serve_request mux env cfg (''/v1/client/maintain'', r) s of
      (None, s') \<Rightarrow> \<exists>new u. canonical new \<and> create_client new (Some n) (st s) = Inr (u, st s')
    | (Some a, s') \<Rightarrow> refusal (Some a) \<and> st s' = st s"
proof -
  obtain ord s1 s2 where cfg: "cfg = shipped_process s1 s2" and init: "InitSchema ord client_message = Val (None, s1)"
    using running_shipped(2) [OF run] by blast
  let ?r = "r\<lparr>Vars := []\<rparr>" and ?w = "\<lparr>outside = s, writer = fresh_writer\<rparr>"
  let ?o = "opened_world env cfg ?w"
  have serve: "ServeHTTP mux env cfg ''/v1/client/maintain'' r ?w = InsertClientHandler env cfg ?r ?w"
    using ServeHTTP_served [OF running_shipped(1) [OF run] _ serves.intros(1), of cfg env r]
    by (simp add: run_handler_def cfg)
  have o: "st (outside ?o) = st s" using backed_open [OF db, of cfg ?w] by simp
  have dist: "distinct (map fst d)" using r(2) by (auto simp: carries_def)
  obtain doc' where doc: "ValidateWithSchema (env_ext env) (env_ord env) (Some d) s1 ''insert'' = Val (None, doc')"
      "map_index doc' ''name'' = GString n"
    using shipped_accepts_client [OF init dist d] by blast
  have acc: "accepts env cfg ''client_message'' ''insert'' ?r doc'"
    unfolding accepts_def cfg shipped_schemas(1) using carries_input [OF r(2)] doc(1) by blast
  have act: "action_is cfg ''insert'' ''create_client'' [''name'']"
    by (simp add: action_is_def cfg shipped_actions)
  have refused: ?thesis
    if "InsertClientHandler env cfg ?r ?w = reply_error env f e w1" and "responder f c" "c \<in> {400, 500}"
      and "writer w1 = fresh_writer" "st (outside w1) = st s" for f e c w1
  proof -
    have "rw_status (writer w1) = None" using that(4) by (simp add: fresh_writer_def)
    from reply_error_answered [OF that(2) this, of env e] obtain w' where
      w': "reply_error env f e w1 = (Val (), w')" "answered c w1 w'" by blast
    with refused_answer [OF w' that(3,4)] that(1,5) serve serve_request_run(1) [of mux env cfg _ r s w']
    show ?thesis by (simp add: answered_outside sent_body_def r(1))
  qed
  show ?thesis
  proof (cases "connects env cfg ?w")
    case False
    then obtain e where "fst (sql_Open (env_db env) ''postgres'' (GetURI (DbCfg cfg)) s) = Some e"
      by (auto simp: connects_def)
    then have "InsertClientHandler env cfg ?r ?w = reply_error env MakeInternalErrorResponse e ?o"
      by (simp add: InsertClientHandler_def with_input_run carries_input [OF r(2)] with_connection_run)
    then show ?thesis by (rule refused [OF _ internal_error.responder_axioms]) (simp_all add: o)
  next
    case con: True
    obtain q s' where q: "db_Query (env_db env) (pool cfg) ''select * from create_client($1)'' [GString n] (outside ?o) = (q, s')"
      by fastforce
    note ran = creates_clientsD [OF db q, unfolded o]
    show ?thesis
    proof (cases q)
      case (Inl e)
      have "InsertClientHandler env cfg ?r ?w = reply_error env MakeInvalidInputResponse e (?o\<lparr>outside := s'\<rparr>)"
        using act unfolding insert_client_accepted [of ?r, simplified, OF r(1) acc con act]
        by (subst call_function_run) (simp_all add: create_text doc(2) q Inl)
      then show ?thesis
        by (rule refused [OF _ invalid_input.responder_axioms]) (use ran Inl in simp_all)
    next
      case (Inr rows)
      then obtain new u where new: "canonical new" "create_client new (Some n) (st s) = Inr (u, st s')"
        "rows = \<lparr>rs_columns = [''create_client''], rs_rows = [[GBytes u]], rs_err = None\<rparr>" using ran by auto
      have "InsertClientHandler env cfg ?r ?w = (Panic TypeAssertion, ?w\<lparr>outside := s'\<rparr>)"
      proof (rule insert_client_lost [OF _ acc con act])
        show "db_Query (env_db env) (pool cfg) (call_text ''create_client'' [''name'']) (map (map_index doc') [''name''])
            (outside ?o) = (Inr rows, s')"
          by (simp add: create_text doc(2) q Inr)
      qed (simp_all add: r(1) new(3))
      then show ?thesis
        using serve serve_request_run(2) [of mux env cfg _ r s TypeAssertion "?w\<lparr>outside := s'\<rparr>"] new(1,2) by auto
    qed
  qed
qed

text \<open>
  C2. A client is created, end to end: on the shipped configuration, over a database that
  runs the stored functions, a POST with a name either is refused with an error and leaves
  the tables as they were, or does to the tables what create_client does to them - the
  client is there, and the same request sent again changes nothing. In the second case the
  client of the service gets no answer: the handler panics on the name of the result column.
\<close>

theorem created_client_stored:
  assumes "running mux cfg" and "backed_by st env" and "consistent (st s)"
    and "Method r = ''POST''" and "carries (env_ext env) r d"
    and "map_of d ''name'' = Some (GString n)" and "n \<noteq> []" and "map_of d ''id'' = None"
    and "serve_request mux env cfg (''/v1/client/maintain'', r) s = (answer, s')"
  shows "if answer = None
    then \<exists>new u. canonical new \<and> create_client new (Some n) (st s) = Inr (u, st s') \<and> (u, n) \<in> set (client (st s')) \<and>
      st (snd (serve_request mux env cfg (''/v1/client/maintain'', r) s')) = st s'
    else refusal answer \<and> st s' = st s"
proof (cases answer)
  case None
  then obtain new u where new: "canonical new" and run: "create_client new (Some n) (st s) = Inr (u, st s')"
    using post_client [OF assms(1,2,4-8), of s] assms(9) by auto
  have mem: "(u, n) \<in> set (client (st s'))" by (rule create_client_stored [OF run])
  have con: "consistent (st s')" by (rule create_client_consistent [OF run new assms(3)])
  have "st (snd (serve_request mux env cfg (''/v1/client/maintain'', r) s')) = st s'"
    using post_client [OF assms(1,2,4-8), of s'] create_client_known [OF con mem]
    by (auto split: prod.splits option.splits)
  with None new run mem show ?thesis by auto
qed (use post_client [OF assms(1,2,4-8), of s] assms(9) in auto)

section \<open>Listing the clients\<close>

text \<open>The document of the answer: a page of ten identifiers, and the eleventh to go on from.\<close>

definition client_row :: "uuid \<Rightarrow> gval" where
  "client_row u = GMap (Some [(''id'', GString u)])"

definition page :: "uuid list \<Rightarrow> gmap" where
  "page us = Some [(''data'', GSlice (map client_row (take 10 us))),
     (''num'', GInt (of_nat (length (take 10 us)))),
     (''next'', if 10 < length us then client_row (us ! 10) else GMap None)]"

lemma client_row_read:
  "GMap (read_row [''id''] [GBytes u]) = client_row u"
  by (simp add: read_row_def scan_values_def column_value_def client_row_def)

lemma page_format:
  "formatResponse (data_doc (map client_row us) (GMap nx)) =
     Val (Some [(''data'', GSlice (map client_row us)), (''num'', GInt (of_nat (length us))), (''next'', GMap nx)])"
  by (simp add: formatResponse_def data_doc_def copy_field_def)

text \<open>
  C16. The list of the clients, end to end: over a database that answers, a GET is answered
  with the JSON text of the first ten identifiers of the client table in ascending order,
  their number, and the eleventh to go on from when there is one; the tables stay as they
  are.
\<close>

theorem listed_clients_stored:
  assumes "running mux cfg" and "backed_by st env"
    and "Method r = ''GET''" and "FormValue r ''q'' = []" and "client (st s) \<noteq> []"
    and "json_Marshal (env_ext env) (GMap (page (ids (st s)))) = Inr text"
    and "sql_Open (env_db env) ''postgres'' (GetURI (DbCfg cfg)) s = (None, s0)"
    and "db_Query (env_db env) (pool cfg) ''select id from client order by id asc limit 11'' [] s0 = (Inr rows, s1)"
  shows "\<exists>s'. serve_request mux env cfg (''/v1/client/read/list'', r) s = (Some (200, text @ ''\<newline>''), s') \<and>
    st s' = st s"
proof -
  obtain sc1 sc2 where cfg: "cfg = shipped_process sc1 sc2" using running_shipped(2) [OF assms(1)] by blast
  let ?r = "r\<lparr>Vars := []\<rparr>" and ?w = "\<lparr>outside = s, writer = fresh_writer\<rparr>"
  let ?o = "outside (opened_world env cfg ?w)" and ?us = "ids (st s)"
  define tc where "tc = Some [(''client'', GMap (Some [(''pk'', GSlice [GString ''id''])])),
    (''content'', GMap (Some [(''pk'', GSlice [GString ''id''])]))]"
  have tc: "map_index (Settings cfg) ''table_configs'' = GMap tc"
    by (simp add: cfg shipped_process_def shipped_settings_def map_index_def tc_def)
  have o: "?o = s0" "st s0 = st s" and con: "connects env cfg ?w"
    using backed_open [OF assms(2), of cfg ?w] assms(7) by (simp_all add: opened_world_def connects_def)
  let ?rows = "\<lparr>rs_columns = [''id''], rs_rows = map (\<lambda>u. [GBytes u]) (take 11 ?us), rs_err = None\<rparr>"
  have s1: "st s1 = st s" and q: "db_Query (env_db env) (pool cfg)
      ''select id from client order by id asc limit 11'' [] ?o = (Inr ?rows, s1)"
    using lists_clientsD [OF assms(2,8)] assms(8) o by simp_all
  have some: "?us \<noteq> []" using assms(5) by (simp add: ids_def) (metis length_0_conv length_map length_sort)
  let ?nx = "if 10 < length ?us then Some [(''id'', GString (?us ! 10))] else None"
  have last: "last (map (\<lambda>u. [GBytes u]) (take 11 ?us)) = [GBytes (?us ! 10)]" if "10 < length ?us"
  proof -
    have "take 11 ?us = take 10 ?us @ [?us ! 10]" using take_Suc_conv_app_nth [OF that] by simp
    then show ?thesis by simp
  qed
  have nxt: "(if 10 < length (rs_rows ?rows)
      then Some [(''id'', map_index (read_row (rs_columns ?rows) (last (rs_rows ?rows))) ''id'')] else None) = ?nx"
    using last by (simp add: read_row_def scan_values_def column_value_def map_index_def)
  have data: "map (\<lambda>vals. GMap (read_row (rs_columns ?rows) vals)) (take 10 (rs_rows ?rows)) = map client_row (take 10 ?us)"
    by (simp add: take_map client_row_read)
  have "FindManyClientHandler env cfg ?r ?w =
      reply env MakeDataResponse (data_doc (map client_row (take 10 ?us)) (GMap ?nx)) ((opened_world env cfg ?w)\<lparr>outside := s1\<rparr>)"
  proof -
    have "FindManyClientHandler env cfg ?r ?w =
      (if rs_rows ?rows = [] then reply env MakeNotFoundResponse (Some [])
       else reply env MakeDataResponse (data_doc
         (map (\<lambda>vals. GMap (read_row (rs_columns ?rows) vals)) (take 10 (rs_rows ?rows)))
         (GMap (if 10 < length (rs_rows ?rows)
                then Some [(''id'', map_index (read_row (rs_columns ?rows) (last (rs_rows ?rows))) ''id'')] else None))))
        ((opened_world env cfg ?w)\<lparr>outside := s1\<rparr>)"
      by (rule clients_listed [OF _ _ con tc, where t = "Some [(''pk'', GSlice [GString ''id''])]"])
        (simp_all add: assms(3,4) tc_def list_text_def q)
    then show ?thesis unfolding nxt data using some by simp
  qed
  also have "\<dots> = (Val (), \<lparr>outside = s1, writer = WriteString (text @ ''\<newline>'') fresh_writer\<rparr>)"
  proof -
    have pg: "page ?us = Some [(''data'', GSlice (map client_row (take 10 ?us))),
        (''num'', GInt (of_nat (length (take 10 ?us)))), (''next'', GMap ?nx)]"
      by (simp add: page_def client_row_def)
    have "formatJsonResponse (env_ext env) (data_doc (map client_row (take 10 ?us)) (GMap ?nx)) = Val (Inr text)"
      using assms(6) unfolding formatJsonResponse_def page_format pg by simp
    then show ?thesis by (simp add: reply_def MakeDataResponse_def opened_world_def)
  qed
  finally have "ServeHTTP mux env cfg ''/v1/client/read/list'' r ?w =
      (Val (), \<lparr>outside = s1, writer = WriteString (text @ ''\<newline>'') fresh_writer\<rparr>)"
    using ServeHTTP_served [OF running_shipped(1) [OF assms(1)] _ serves.intros(4), of cfg env r]
    by (simp add: run_handler_def cfg)
  from serve_request_run(1) [OF this] s1 show ?thesis
    by (simp add: sent_body_def assms(3) WriteString_def fresh_writer_def final_status_def body_allowed_def Let_def)
qed

section \<open>Counting a pageview\<close>

text \<open>
  C17. A pageview, end to end: a GET on the pageview path of an identifier sends one message
  with that identifier, also when the body names another one, and is answered 204 when the
  queue takes it, else with an error.
\<close>

theorem pageview_sent:
  assumes "running mux cfg" and "canonical u" and "Method r = ''GET''" and "carries (env_ext env) r d"
    and "uuid_FromString (env_ext env) u = Inr uuid"
    and "json_Marshal (env_ext env) (GMap (pageview_message (env_ext env) (TimeFormat cfg) (GString u))) = Inr msg"
    and "env_SendMessage env ''pageview'' msg s = (err, s')"
  shows "\<exists>status body. serve_request mux env cfg (''/v1/pageview/content/'' @ u, r) s = (Some (status, body), s') \<and>
    (if err = None then status = 204 else status = 500 \<or> (status, body) = (200, []))"
proof -
  obtain ord s1 s2 where cfg: "cfg = shipped_process s1 s2" using running_shipped(2) [OF assms(1)] by blast
  let ?r = "r\<lparr>Vars := [(''id'', u)]\<rparr>" and ?w = "\<lparr>outside = s, writer = fresh_writer\<rparr>"
  let ?doc = "Some (AList.update ''id'' (GString u) d)"
  have doc: "combineInput (env_ext env) (env_ord env) ?r = (?doc, None)"
    using assms(4) by (auto simp: carries_def combineInput_def Let_def SetKey_Some split: if_splits)
  have "let (err, s) = env_SendMessage env (KafkaTopic cfg) msg (outside ?w)
      in \<exists>w'. ProcessPageviewHandler env cfg ?r ?w = (Val (), w') \<and> outside w' = s \<and>
        (if err = None then rw_status (writer w') = Some 204
         else rw_status (writer w') = Some 500 \<or> writer w' = writer ?w)"
    by (rule pageview_counts [OF _ doc _ assms(5) _ _ assms(6)])
      (simp_all add: assms(3) cfg map_index_def fresh_writer_def)
  then obtain w' where w': "ProcessPageviewHandler env cfg ?r ?w = (Val (), w')" "outside w' = s'"
    "if err = None then rw_status (writer w') = Some 204
     else rw_status (writer w') = Some 500 \<or> writer w' = writer ?w"
    using assms(7) by (auto simp: cfg)
  have "ServeHTTP mux env cfg (''/v1/pageview/content/'' @ u) r ?w = (Val (), w')"
    using ServeHTTP_served [OF running_shipped(1) [OF assms(1)] _ serves.intros(8) [OF assms(2)], of cfg env r] w'(1)
    by (simp add: run_handler_def cfg)
  from serve_request_run(1) [OF this] w'(2,3) show ?thesis
    by (auto simp: sent_body_def final_status_def fresh_writer_def split: if_splits)
qed

end
