(* ===== verification/Service_Lists.thy ===== *)
theory Service_Lists
  imports Server_Safety
begin

text \<open>
  The remaining branches a client reaches on any configuration: the removal of a client, the list
  of the contents, which is not cut into pages, and the fields that a list of the clients is asked
  for, whose names go into the statement as they are.
\<close>

section \<open>Removing a client\<close>

text \<open>
  C39. Removing a client calls the configured function once with the checked values and
  answers with the rows that come back, their number and the last of them, or with 404 when
  none does.
\<close>

theorem delete_client_answered:
  assumes "Method r = ''DELETE''" and "accepts env cfg ''client_message'' ''delete'' r doc"
    and "connects env cfg w" and "action_is cfg ''delete'' f names"
    and "db_Query (env_db env) (pool cfg) (call_text f names) (map (map_index doc) names)
           (outside (opened_world env cfg w)) = (Inr rows, s)"
    and "length (rs_rows rows) < 2 ^ 63"
  shows "UpdateClientHandler env cfg r w =
    (let records = map (\<lambda>vals. GMap (read_row (rs_columns rows) vals)) (rs_rows rows)
     in if records = [] then reply env MakeNotFoundResponse (Some [])
        else reply env MakeDataResponse (data_doc records (last records)))
      ((opened_world env cfg w)\<lparr>outside := s\<rparr>)"
proof -
  have n: "0 < sint (of_nat (length (rs_rows rows)) :: 64 word) \<longleftrightarrow> rs_rows rows \<noteq> []"
    using sint_of_nat [OF assms(6)] by simp
  have "UpdateClientHandler env cfg r w =
      call_function env (Some (pool cfg)) f (map GString names) doc (\<lambda>dH.
        if 0 < sint (pFE_NumAffectedLastOp dH) then
          pbind (plift (last_record (pFE_Record dH))) (\<lambda>nx. reply env MakeDataResponse (data_doc (pFE_Record dH) nx))
        else reply env MakeNotFoundResponse (Some [])) (opened_world env cfg w)"
    using assms(1-4)
    by (auto simp: accepts_def UpdateClientHandler_def with_input_run with_connection_run connects_def
        update_client_delete_def with_valid_ok action_is_def)
  then show ?thesis
    using assms(4,5) n by (subst (asm) call_function_run) (auto simp: action_is_def last_record_def Let_def last_map)
qed

section \<open>Listing the contents\<close>

definition content_text :: "string \<Rightarrow> string" where
  "content_text p = ''select '' @ p @ '' from content order by '' @ p @ '' asc''"

lemma read_found_all:
  assumes "\<not> pDH_EnforceBatch pDH"
  shows "pDH_Record (read_found rows pDH) = pDH_Record pDH @ map (\<lambda>vals. GMap (read_row (rs_columns rows) vals)) (rs_rows rows)"
    and "pDH_NumAffectedLastOp (read_found rows pDH) = of_nat (length (rs_rows rows))"
  using assms by (simp_all add: read_found_def row_loop_all finish_rows_def Let_def)

text \<open>
  C38. Listing the contents sends one query without a limit and answers with all its rows,
  as a JSON array, or with 404 when there is none.
\<close>

theorem contents_listed:
  assumes "Method r = ''GET''" and "connects env cfg w"
    and "GetContentTableDef (env_ord env) cfg = Val (Some [(''table_name'', GString ''content''), (''pk'', GStrings [p])], True)"
    and "db_Query (env_db env) (pool cfg) (content_text p) [] (outside (opened_world env cfg w)) = (Inr rows, s)"
    and "length (rs_rows rows) < 2 ^ 63"
    and "json_Marshal (env_ext env) (GSlice (map (\<lambda>vals. GMap (read_row (rs_columns rows) vals)) (rs_rows rows))) = Inr m"
  shows "FindManyContentHandler env cfg r w =
    (if rs_rows rows = [] then reply env MakeNotFoundResponse (Some []) ((opened_world env cfg w)\<lparr>outside := s\<rparr>)
     else (Val (), w\<lparr>outside := s, writer := WriteString (m @ ''\<newline>'') (writer w)\<rparr>))"
proof -
  let ?h = "(table_handler (pool cfg) ''content'' p)\<lparr>pDH_EnforceBatch := False\<rparr>"
  let ?q = "?h\<lparr>pDH_sortDirection := ''asc'', pDH_dmlArguments := [], pDH_dmlStatement := content_text p\<rparr>"
  have stmt: "find_statement (?h\<lparr>pDH_sortDirection := ''asc''\<rparr>) [p] [] = content_text p"
    by (simp add: find_statement_def table_handler_def map_len_def content_text_def)
  have found: "FindRecord (env_db env) (env_ord env) ?h [''return_many'', ''reverse_sort''] (outside (opened_world env cfg w)) =
      (Val (None, read_found rows ?q), s)"
    using FindRecord_runs [of ?h "pool cfg" "[''return_many'', ''reverse_sort'']" True "''asc''" "env_ord env",
        OF _ _ _ _ table_placeholders(1), of "env_db env" "outside (opened_world env cfg w)"] assms(4) stmt
    by (simp add: Let_def table_handler_def zero_pDH_def find_result_def)
  have q: "\<not> pDH_EnforceBatch ?q" "pDH_Record ?q = []" by (simp_all add: table_handler_def)
  note all = read_found_all [OF q(1), of rows, unfolded q(2)]
  show ?thesis
    using assms(1-3,6) sint_of_nat [OF assms(5)]
    by (simp add: FindManyContentHandler_def with_connection_run connects_def pbind_apply with_handler_table Let_def
        SetFindCriteria_table with_found_def found all MakeDataArrayResponse_def formatJsonArrayResponse_def)
qed

section \<open>The fields a client asks for\<close>

lemma outside_reply_found: "outside (snd (reply_found env pDH w)) = outside w"
  by (simp add: reply_found_def reply_def split: outcome.split prod.split)

lemma outside_error: "outside (snd (reply_error env f e w)) = outside w"
  by (simp add: reply_error_def reply_def split: outcome.split prod.split)

lemma SetProjection_fields:
  assumes "pDH_projection pDH = Some proj" and "distinct (map fst proj)"
  shows "\<exists>proj'. SetProjection fs pDH = Val (pDH\<lparr>pDH_projection := Some proj'\<rparr>) \<and>
    distinct (map fst proj') \<and> fst ` set proj' = fst ` set proj \<union> set fs"
  using assms
proof (induction fs arbitrary: pDH proj)
  case Nil
  then show ?case by (intro exI [of _ proj]) (cases pDH, simp)
next
  case (Cons f fs)
  let ?pDH = "pDH\<lparr>pDH_projection := Some (AList.update f GNil proj)\<rparr>"
  have d: "distinct (map fst (AList.update f GNil proj))" using Cons.prems(2) by simp
  obtain proj' where p: "SetProjection fs ?pDH = Val (?pDH\<lparr>pDH_projection := Some proj'\<rparr>)"
    "distinct (map fst proj')" "fst ` set proj' = fst ` set (AList.update f GNil proj) \<union> set fs"
    using Cons.IH [of ?pDH "AList.update f GNil proj"] d by auto
  then show ?case using Cons.prems(1) by (intro exI [of _ proj']) (auto simp: keys_update)
qed

text \<open>The names the argument \<open>q\<close> asks for.\<close>

definition asked_fields :: "gval \<Rightarrow> string list \<Rightarrow> bool" where
  "asked_fields v fs \<longleftrightarrow> v = GBool True \<and> fs = [''*''] \<or> v = GBool False \<and> fs = [] \<or> v = GSlice (map GString fs)"

lemma query_projection_fields:
  assumes "map_get args ''fields'' = Some v" and "asked_fields v fs"
  shows "query_projection args pDH = SetProjection fs pDH"
  using assms by (auto simp: query_projection_def asked_fields_def InterfaceToStringArray_Val [THEN iffD2, OF refl])

text \<open>
  C29. A list of the clients with an argument q whose fields are a list of names, or true
  for all, sends one query that selects the key and these names, each once, in the order Go
  visits the projection. The names go into the text of the statement as the client wrote
  them.
\<close>

theorem listing_projection:
  assumes "Method r = ''GET''" and "connects env cfg w"
    and "GetClientTableDef (env_ord env) cfg = Val (Some [(''table_name'', GString ''client''), (''pk'', GStrings [p])], True)"
    and "FormValue r ''q'' \<noteq> []" and "json_Unmarshal (env_ext env) (FormValue r ''q'') = Inr args"
    and "map_get args ''fields'' = Some v" and "asked_fields v fs"
  shows "\<exists>cols. distinct cols \<and> set cols = insert p (set fs) \<and>
    outside (snd (FindManyClientHandler env cfg r w)) =
      snd (db_Query (env_db env) (pool cfg)
        (''select '' @ join '','' cols @ '' from client order by '' @ p @ '' asc limit 11'') []
        (outside (opened_world env cfg w)))"
proof -
  let ?h = "table_handler (pool cfg) ''client'' p"
  obtain proj where proj: "SetProjection fs ?h = Val (?h\<lparr>pDH_projection := Some proj\<rparr>)"
    "distinct (map fst proj)" "fst ` set proj = insert p (set fs)"
    using SetProjection_fields [of ?h "[(p, GNil)]" fs] by (auto simp: table_handler_def)
  let ?q = "?h\<lparr>pDH_projection := Some proj\<rparr>" and ?o = "outside (opened_world env cfg w)"
  let ?cols = "map fst (range_over (env_ord env) ''FindRecord.projection'' (Some proj))"
  let ?text = "''select '' @ join '','' ?cols @ '' from client order by '' @ p @ '' asc limit 11''"
  have crit: "find_placeholders (env_ord env) ?q = Val (1, [], [])"
    by (simp add: find_placeholders_def table_handler_def map_len_def zero_pDH_def)
  have stmt: "find_statement (?q\<lparr>pDH_sortDirection := ''asc''\<rparr>) cs [] =
      ''select '' @ join '','' cs @ '' from client order by '' @ p @ '' asc limit 11''" for cs
    by (simp add: find_statement_def table_handler_def map_len_def FormatInt_def dec_nat.simps)
  have found: "\<exists>pDH'. FindRecord (env_db env) (env_ord env) ?q [''return_many'', ''reverse_sort''] ?o =
      (Val (find_result (fst (db_Query (env_db env) (pool cfg) ?text [] ?o)) pDH'),
       snd (db_Query (env_db env) (pool cfg) ?text [] ?o))"
    using FindRecord_runs [of ?q "pool cfg" "[''return_many'', ''reverse_sort'']" True "''asc''" "env_ord env",
        OF _ _ _ _ crit, of "env_db env" ?o] stmt
    by (simp add: Let_def) (auto simp: table_handler_def zero_pDH_def)
  have pk: "snd (SetFindCriteria (Some []) ?q) = ?q"
    by (simp add: SetFindCriteria_def table_handler_def)
  have "outside (snd (FindManyClientHandler env cfg r w)) = snd (db_Query (env_db env) (pool cfg) ?text [] ?o)"
    using assms(1-6) found proj(1) query_projection_fields [OF assms(6,7), of ?h]
    by (auto simp: FindManyClientHandler_def with_connection_run connects_def pbind_apply with_handler_table Let_def
        with_query_def with_found_def pk outside_reply_found outside_error find_result_def split: sum.split)
  moreover have "distinct ?cols" using proj(2) by (simp add: distinct_range_over)
  moreover have "set ?cols = insert p (set fs)" using proj(3) by simp
  ultimately show ?thesis by blast
qed

end
