(* ===== verification/Witness_Site.thy ===== *)
theory Witness_Site
  imports Witness_Validation Witness_Service Validation_Exact Protocol Site Service_Lists
begin

text \<open>
  The properties of the database, of the running server and of both together on a sample site: a
  router for the two kinds of template, and a database that is a \<open>store\<close> and answers the two
  statements of the service by the stored functions.
\<close>

section \<open>The sample site\<close>

definition sample_match :: "string \<Rightarrow> string \<Rightarrow> (string \<times> string) list option" where
  "sample_match p path =
     (if CHR ''{'' \<notin> set p then (if path = p then Some [] else None)
      else let pre = takeWhile (\<lambda>c. c \<noteq> CHR ''{'') p; u = drop (length pre) path in
        if p = pre @ id_pattern \<and> take (length pre) path = pre \<and> canonical u then Some [(''id'', u)] else None)"

text \<open>Every path that is not clean is sent to the root.\<close>

definition sample_mux :: router where
  "sample_mux = \<lparr>mux_Match = sample_match, mux_cleanPath = (\<lambda>path. if clean_path path then path else ''/''),
     mux_URL = (\<lambda>path r. path)\<rparr>"

lemma sample_mux_matches: "mux_matches sample_mux"
proof -
  obtain cs where id: "id_pattern = CHR ''{'' # cs" by (simp add: id_pattern_def)
  have "takeWhile (\<lambda>c. c \<noteq> CHR ''{'') (pre @ id_pattern) = pre" if "CHR ''{'' \<notin> set pre" for pre
    using that unfolding id by (induction pre) auto
  moreover have "CHR ''{'' \<in> set id_pattern" by (simp add: id_pattern_def)
  moreover have "clean_path ''/''" by (simp add: clean_path_def)
  ultimately show ?thesis
    unfolding mux_matches_def
    by (auto simp: sample_mux_def sample_match_def Let_def dest: take_prefix split: if_splits)
qed

definition sample_uuid :: uuid where
  "sample_uuid = ''6ba7b810-9dad-11d1-80b4-00c04fd430c8''"

lemma sample_uuid_canonical: "canonical sample_uuid"
  by (simp add: sample_uuid_def canonical_def uuid_shape_def eval_nat_numeral)

definition site_query :: "sql_db \<Rightarrow> string \<Rightarrow> gval list \<Rightarrow> store \<Rightarrow> (goerror + result_set) \<times> store" where
  "site_query h stmt args s =
     (if stmt = ''select * from create_client($1)'' then
        (case args of
           [GString n] \<Rightarrow> (case create_client sample_uuid (Some n) s of
              Inl e \<Rightarrow> (Inl (ForeignError ''pq: duplicate key''), s)
            | Inr (u, t) \<Rightarrow> (Inr \<lparr>rs_columns = [''create_client''], rs_rows = [[GBytes u]], rs_err = None\<rparr>, t))
         | _ \<Rightarrow> (Inl (ForeignError ''pq: bad arguments''), s))
      else if stmt = ''select id from client order by id asc limit 11'' then
        (Inr \<lparr>rs_columns = [''id''], rs_rows = map (\<lambda>u. [GBytes u]) (take 11 (ids s)), rs_err = None\<rparr>, s)
      else (Inl (ForeignError ''pq: unknown statement''), s))"

definition site_env :: "store environment" where
  "site_env = \<lparr>env_db = \<lparr>sql_Open = (\<lambda>driver name s. (None, s)), db_Query = site_query,
       db_Exec = (\<lambda>h stmt args s. (Inl (ForeignError ''pq: unknown statement''), s))\<rparr>,
     env_SendMessage = (\<lambda>topic msg s. (None, s)), env_ext = sample_ext, env_ord = sample_ord\<rparr>"

lemma site_env_simps [simp]:
  "sql_Open (env_db site_env) driver name s = (None, s)" "db_Query (env_db site_env) = site_query"
  "env_SendMessage site_env topic msg s = (None, s)" "env_ext site_env = sample_ext"
  by (simp_all add: site_env_def)

lemma site_backed: "backed_by (\<lambda>s. s) site_env"
  unfolding backed_by_def creates_clients_def lists_clients_def
  by (auto simp: site_query_def intro: sample_uuid_canonical split: sum.split prod.split)

lemma site_running: "\<exists>cfg. running sample_mux cfg"
proof -
  have "shipped_startup sample_startup" by (simp add: sample_startup_def shipped_startup_def)
  moreover from shipped_init [OF this, of sample_ext "\<lambda>_. 0" sample_ord] obtain cfg
    where "init_process sample_ext (\<lambda>_. 0) sample_ord sample_startup = Val cfg" by blast
  ultimately show ?thesis unfolding running_def using sample_mux_matches by blast
qed

text \<open>A store with one client and one content.\<close>

definition sample_store :: store where
  "sample_store = empty_store\<lparr>client := [(sample_uuid, ''abc'')],
     content := [\<lparr>cr_id = sample_uuid, cr_name = ''page'', cr_url = ''http://a'', cr_client_id = sample_uuid\<rparr>],
     content_counter_of := [(undashed sample_uuid, [])]\<rparr>"

lemma sample_store_consistent: "consistent sample_store"
  using sample_uuid_canonical
  by (simp add: consistent_defs sample_store_def empty_store_def counter_ok_def)

section \<open>The stored functions\<close>

text \<open>A PostgreSQL that refuses every statement whose table is not a name.\<close>

definition sample_pg :: postgres where
  "sample_pg = \<lparr>pg_execute = (\<lambda>stmt s. Inl Syntax_error), pg_date_text = FormatInt\<rparr>"

lemma sample_created:
  "\<exists>s. create_client sample_uuid (Some ''abc'') empty_store = Inr (sample_uuid, s) \<and> typed_step sample_pg empty_store s"
proof -
  obtain s where s: "create_client sample_uuid (Some ''abc'') empty_store = Inr (sample_uuid, s)"
    by (simp add: create_client_def insert_client_def create_counter_table_def empty_store_def)
  then show ?thesis using typed_step.create_client [OF sample_uuid_canonical s] by blast
qed

theorem reachable_consistent_witness:
  "\<exists>u s. create_client sample_uuid (Some ''abc'') empty_store = Inr (u, s) \<and> consistent s"
proof -
  obtain s where s: "create_client sample_uuid (Some ''abc'') empty_store = Inr (sample_uuid, s)"
    "typed_step sample_pg empty_store s" using sample_created by blast
  then show ?thesis using reachable_consistent [of sample_pg s] db_step.typed [OF s(2)] by blast
qed

theorem counters_attributed_witness:
  "\<exists>u s. create_client sample_uuid (Some ''abc'') empty_store = Inr (u, s) \<and> attributed s"
proof -
  obtain s where "create_client sample_uuid (Some ''abc'') empty_store = Inr (sample_uuid, s)"
    "typed_step sample_pg empty_store s" using sample_created by blast
  then show ?thesis using counters_attributed [of sample_pg s] by blast
qed

lemma sample_views: "views sample_uuid d sample_store = 0"
  by (simp add: views_def sample_store_def empty_store_def client_of_def counter_value_def)

lemma sample_run:
  assumes "content s = [\<lparr>cr_id = sample_uuid, cr_name = ''page'', cr_url = ''http://a'', cr_client_id = sample_uuid\<rparr>]"
  shows "content_pageview sample_pg (Some sample_uuid) (Some ts) s =
     run_counter_insert (undashed sample_uuid) sample_uuid (date_of ts) s"
proof -
  have "name_piece (undashed sample_uuid)" by (rule undashed_piece [OF sample_uuid_canonical])
  moreover have "client_of (Some sample_uuid) s = Some sample_uuid" by (simp add: client_of_def assms)
  ultimately show ?thesis by (simp add: content_pageview_def content_pageview_of_def)
qed

theorem pageviews_counted_witness:
  "\<exists>s. run_pageviews sample_pg [(sample_uuid, 0), (sample_uuid, 1), (sample_uuid, 86400000000)] sample_store = Inr s \<and>
     views sample_uuid 0 s = 2 \<and> views sample_uuid 1 s = 1"
proof -
  let ?vs = "[(sample_uuid, 0), (sample_uuid, 1), (sample_uuid, 86400000000)]"
  have "\<exists>s. run_pageviews sample_pg ?vs sample_store = Inr s"
    by (simp add: sample_run sample_store_def empty_store_def run_counter_insert_def count_up_def date_of_def)
  then obtain s where s: "run_pageviews sample_pg ?vs sample_store = Inr s" ..
  then show ?thesis
    using pageviews_counted [OF sample_store_consistent s, of sample_uuid 0]
      pageviews_counted [OF sample_store_consistent s, of sample_uuid 1]
    by (simp add: date_of_def sample_views)
qed

theorem known_content_counts_witness:
  "\<exists>s. content_pageview sample_pg (Some sample_uuid) (Some 5) sample_store = Inr (1, s) \<and>
     views sample_uuid (date_of 5) s = 1"
proof -
  have "sample_uuid \<in> cr_id ` set (content sample_store)" by (simp add: sample_store_def)
  from known_content_counts [OF sample_store_consistent this, of 5 sample_pg] show ?thesis
    by (auto simp: sample_views)
qed

theorem message_ref_roundtrip_witness:
  "\<exists>s. set_message_ref (Some 7) (empty_store\<lparr>source_ref := [(''other'', 3)]\<rparr>) = Inr (Some 7, s) \<and>
     get_message_ref s = Some 7 \<and> get_source_ref (Some ''other'') s = Some 3"
proof -
  let ?s = "empty_store\<lparr>source_ref := [(''other'', 3)]\<rparr>"
  obtain s where s: "set_message_ref (Some 7) ?s = Inr (Some 7, s)" "get_message_ref s = Some 7"
    and other: "\<forall>sid. sid \<noteq> Some ''content_pv_queue'' \<longrightarrow> get_source_ref sid s = get_source_ref sid ?s"
    using message_ref_roundtrip [of "Some 7" ?s] by (elim exE conjE)
  have "get_source_ref (Some ''other'') s = Some 3"
    using other [rule_format, of "Some ''other''"] by (simp add: get_source_ref_def)
  with s show ?thesis by (intro exI [of _ s] conjI)
qed

section \<open>The running server\<close>

theorem paths_served_witness:
  "ServeHTTP sample_mux (sample_env [] []) sample_cfg (''/v1/pageview/content/'' @ sample_uuid) (sample_request ''GET'' [] []) =
     run_handler RProcessPageview (sample_env [] []) sample_cfg ((sample_request ''GET'' [] [])\<lparr>Vars := [(''id'', sample_uuid)]\<rparr>) \<and>
   ServeHTTP sample_mux (sample_env [] []) sample_cfg ''/v1//client/maintain'' (sample_request ''GET'' [] []) =
     write_answer (moved_permanently ''/'')"
proof
  show "ServeHTTP sample_mux (sample_env [] []) sample_cfg (''/v1/pageview/content/'' @ sample_uuid) (sample_request ''GET'' [] []) =
     run_handler RProcessPageview (sample_env [] []) sample_cfg ((sample_request ''GET'' [] [])\<lparr>Vars := [(''id'', sample_uuid)]\<rparr>)"
    using paths_served [OF sample_mux_matches, of sample_cfg "''/v1/pageview/content/'' @ sample_uuid" RProcessPageview
        "[(''id'', sample_uuid)]" "sample_env [] []" "sample_request ''GET'' [] []"]
      serves.intros(8) [OF sample_uuid_canonical] by simp
  have "\<not> clean_path ''/v1//client/maintain''" by (simp add: clean_path_def)
  then show "ServeHTTP sample_mux (sample_env [] []) sample_cfg ''/v1//client/maintain'' (sample_request ''GET'' [] []) =
     write_answer (moved_permanently ''/'')"
    using paths_served [OF sample_mux_matches, of sample_cfg "''/v1//client/maintain''" RProcessPageview "[]"
        "sample_env [] []" "sample_request ''GET'' [] []"]
    by (simp add: sample_mux_def)
qed

theorem service_answers_witness:
  "\<exists>cfg. init_process sample_ext (\<lambda>_. 0) sample_ord sample_startup = Val cfg \<and>
     None \<notin> set (fst (serve_requests sample_mux site_env cfg
       [(''/v1/client/read/list'', sample_request ''GET'' [] []),
        (''/v1/client/maintain'', sample_request ''PUT'' ''null'' []), (''/'', sample_request ''GET'' [] [])] empty_store))"
proof -
  have start: "shipped_startup sample_startup" by (simp add: sample_startup_def shipped_startup_def)
  from shipped_init [OF this, of sample_ext "\<lambda>_. 0" sample_ord] obtain cfg
    where cfg: "init_process sample_ext (\<lambda>_. 0) sample_ord sample_startup = Val cfg" by blast
  let ?qs = "[(''/v1/client/read/list'', sample_request ''GET'' [] []),
    (''/v1/client/maintain'', sample_request ''PUT'' ''null'' []), (''/'', sample_request ''GET'' [] [])]"
  have "list_all safe_request ?qs" by (simp add: safe_request_def)
  from service_answers [OF start cfg sample_mux_matches this, of site_env empty_store] cfg show ?thesis by blast
qed

theorem delete_client_answered_witness:
  "UpdateClientHandler (sample_env [''id''] [[GString ''c1'']]) sample_cfg (sample_request ''DELETE'' ''abc'' []) sample_world =
     reply (sample_env [''id''] [[GString ''c1'']]) MakeDataResponse
       (data_doc [GMap (Some [(''id'', GString ''c1'')])] (GMap (Some [(''id'', GString ''c1'')])))
       (sample_world\<lparr>outside := [(''select * from delete_client($1)'', [GString ''abc''])]\<rparr>)"
proof -
  let ?env = "sample_env [''id''] [[GString ''c1'']]"
  have stmt: "call_text ''delete_client'' [''name''] = ''select * from delete_client($1)''"
    by (simp add: call_text_def placeholder_def FormatInt_def dec_nat.simps)
  have q: "db_Query (env_db ?env) (pool sample_cfg) (call_text ''delete_client'' [''name'']) (map (map_index sample_output) [''name''])
      (outside (opened_world ?env sample_cfg sample_world)) =
      (Inr (sample_rows [''id''] [[GString ''c1'']]), [(''select * from delete_client($1)'', [GString ''abc''])])"
    by (simp add: stmt sample_output_def map_index_def)
  show ?thesis
    using delete_client_answered [OF _ sample_accepted sample_connects sample_actions(3) q]
    by (simp add: read_row_def scan_values_def column_value_def Let_def opened_world_def)
qed

theorem contents_listed_witness:
  "\<exists>cfg. FindManyContentHandler (sample_env [''id''] [[GString ''c1''], [GString ''c2'']]) cfg
       (sample_request ''GET'' [] []) sample_world =
     (Val (), sample_world\<lparr>outside := [(''select id from content order by id asc'', [])],
        writer := WriteString ''{}\<newline>'' (writer sample_world)\<rparr>)"
proof -
  let ?env = "sample_env [''id''] [[GString ''c1''], [GString ''c2'']]" and ?cfg = "shipped_process None None"
  let ?rows = "sample_rows [''id''] [[GString ''c1''], [GString ''c2'']]"
  have q: "db_Query (env_db ?env) (pool ?cfg) (content_text ''id'') [] (outside (opened_world ?env ?cfg sample_world)) =
      (Inr ?rows, [(''select id from content order by id asc'', [])])"
    by (simp add: content_text_def)
  show ?thesis
    using contents_listed [OF _ _ shipped_tables(2) q, of "sample_request ''GET'' [] []" "''{}''"] by auto
qed

theorem listing_projection_witness:
  "\<exists>cols. distinct cols \<and> set cols = {''id'', ''name''} \<and>
     outside (snd (FindManyClientHandler
       ((sample_env [''id''] [])\<lparr>env_ext := sample_ext\<lparr>json_Unmarshal := \<lambda>_. Inr (Some [(''fields'', GSlice [GString ''name''])])\<rparr>\<rparr>)
       (shipped_process None None) ((sample_request ''GET'' [] [])\<lparr>FormValue := \<lambda>_. ''q''\<rparr>) sample_world)) =
     [(''select '' @ join '','' cols @ '' from client order by id asc limit 11'', [])]"
proof -
  let ?env = "(sample_env [''id''] [])\<lparr>env_ext := sample_ext\<lparr>json_Unmarshal := \<lambda>_. Inr (Some [(''fields'', GSlice [GString ''name''])])\<rparr>\<rparr>"
  have "asked_fields (GSlice [GString ''name'']) [''name'']" by (simp add: asked_fields_def)
  from listing_projection [OF _ _ shipped_tables(1) _ _ _ this, of "(sample_request ''GET'' [] [])\<lparr>FormValue := \<lambda>_. ''q''\<rparr>"
      ?env None None sample_world "Some [(''fields'', GSlice [GString ''name''])]"]
  show ?thesis by (simp add: connects_def opened_world_def)
qed

section \<open>The service on its database\<close>

lemma sample_carries: "carries sample_ext (sample_request m ''abc'' []) [(''name'', GString ''abc'')]"
  by (simp add: carries_def)

theorem created_client_stored_witness:
  "\<exists>cfg answer s. running sample_mux cfg \<and>
     serve_request sample_mux site_env cfg (''/v1/client/maintain'', sample_request ''POST'' ''abc'' []) empty_store =
       (answer, s) \<and>
     (if answer = None then \<exists>u. (u, ''abc'') \<in> set (client s) else s = empty_store)"
proof -
  obtain cfg where cfg: "running sample_mux cfg" using site_running by blast
  obtain answer s where run: "serve_request sample_mux site_env cfg
      (''/v1/client/maintain'', sample_request ''POST'' ''abc'' []) empty_store = (answer, s)" by fastforce
  have "consistent empty_store" by (rule empty_consistent)
  from created_client_stored [OF cfg site_backed this _ _ _ _ _ run, of "[(''name'', GString ''abc'')]" "''abc''"]
  show ?thesis using cfg run sample_carries by (auto split: if_splits)
qed

theorem listed_clients_stored_witness:
  "\<exists>cfg. running sample_mux cfg \<and>
     serve_request sample_mux site_env cfg (''/v1/client/read/list'', sample_request ''GET'' [] []) sample_store =
       (Some (200, ''{}\<newline>''), sample_store)"
proof -
  obtain cfg where cfg: "running sample_mux cfg" using site_running by blast
  obtain rows where q: "db_Query (env_db site_env) (pool cfg) ''select id from client order by id asc limit 11'' [] sample_store
      = (Inr rows, sample_store)" by (simp add: site_query_def)
  from listed_clients_stored [OF cfg site_backed, of "sample_request ''GET'' [] []" sample_store "''{}''" sample_store, OF _ _ _ _ _ q]
  show ?thesis using cfg by (auto simp: sample_store_def)
qed

theorem pageview_sent_witness:
  "\<exists>cfg body. running sample_mux cfg \<and>
     serve_request sample_mux site_env cfg (''/v1/pageview/content/'' @ sample_uuid, sample_request ''GET'' [] []) sample_store =
       (Some (204, body), sample_store)"
proof -
  obtain cfg where cfg: "running sample_mux cfg" using site_running by blast
  have "length sample_uuid = 36" by (simp add: sample_uuid_def)
  then show ?thesis
    using pageview_sent [OF cfg sample_uuid_canonical, of "sample_request ''GET'' [] []" site_env "[]" "replicate 16 0" "''{}''"
        sample_store None sample_store] cfg
    by (auto simp: carries_def)
qed

section \<open>Checking documents\<close>

theorem validate_exact_witness: "admissible sample_ext ''insert'' sample_schema sample_input"
  using validate_exact [OF sample_input_wf] sample_accepts by blast

end
