(* ===== verification/Spec2Isabelle.thy ===== *)
theory Spec2Isabelle
  imports Witness_Validation Witness_Service Witness_Site Dal_Config_Correct
begin

text \<open>
  A verification library for the Go service of this repository, \<open>src/golang/pageviewcount_service\<close>,
  its configuration file and the database behind it, \<open>src/pgsql/content.sql\<close>.

  \<^bold>\<open>The program.\<close> The service keeps the clients and contents of a pageview counter and takes
  pageviews. \<open>main.go\<close> reads a JSON configuration, prepares the two message schemas in it, connects
  to a queue, registers eight routes and serves them. A handler (\<open>apphandlers/client.go\<close>,
  \<open>apphandlers/content.go\<close>, \<open>apphandlers/pageview.go\<close>) combines the JSON body of a request with the
  variables of its path (\<open>apphandlers/main.go\<close>), checks the result against a schema
  (\<open>validation/validation.go\<close>), calls a stored function or works on a table
  (\<open>dal_postgresql/dal_postgresql.go\<close>), answers (\<open>common/common.go\<close>) and tells the queue. The stored
  functions keep the tables of clients, contents and counters.

  \<^bold>\<open>The model.\<close> Each definition has the name of the function, type or loop it translates.

  \<^item> Go itself: \<open>Go_Values\<close> (interface values \<open>gval\<close> with their dynamic type, maps \<open>gmap\<close> with the nil
    map, panics as the outcome \<open>Panic\<close>, returned errors as values \<open>goerror\<close>, \<open>range\<close> over a map as
    \<open>range_over\<close>), \<open>Go_Strings\<close> (strconv and utf8; strings are bytes, integers are words of 64 bits),
    \<open>Go_Http\<close> (the response writer), \<open>Go_Proc\<close> (operations that change the world; a panic keeps what
    was sent before it).
  \<^item> \<open>Common\<close>: \<open>common.go\<close>. \<open>Validation_Schema\<close>: \<open>InitSchema\<close> and what it calls. \<open>Validation\<close>:
    \<open>ValidateWithSchema\<close> and what it calls. Both rewrite their map in place; here they return it, and a
    nested map is written back into the one that holds it.
  \<^item> \<open>Dal_Config\<close> (\<open>PostgresCfg\<close>, \<open>GetURI\<close>, \<open>GetDatabaseHandle\<close>), \<open>Dal_Rows\<close> (the loop over a result
    set and the numbering of placeholders), \<open>Dal_Executor\<close> (\<open>postgresFunctionExecutor\<close>), \<open>Dal_Handler\<close>
    (\<open>postgresDataHandler\<close>). A receiver is a record that each method returns updated.
  \<^item> \<open>Handlers\<close>, \<open>Client_Handlers\<close>, \<open>Content_Handlers\<close>: the handlers, one definition for each branch of
    their switch on the method, composed of the steps they share (\<open>with_input\<close>, \<open>with_connection\<close>,
    \<open>with_valid\<close>, \<open>call_function\<close>, \<open>with_handler\<close>, \<open>with_query\<close>, \<open>with_found\<close>).
  \<^item> \<open>Service\<close>: \<open>init\<close> of \<open>main.go\<close> (\<open>init_process\<close>), the routes, and the configuration file
    \<open>pageviewcount_service.json\<close> (\<open>shipped_settings\<close>). \<open>Server\<close>: the routing of a request
    (\<open>ServeHTTP\<close>) and requests one after the other (\<open>serve_requests\<close>), where a handler that panics leaves
    its client without an answer and the world as it was at the panic.
  \<^item> \<open>Pg_Store\<close>: the tables (\<open>store\<close>) and the stored functions of \<open>content.sql\<close>, each from a store to a
    result and a store or to the error that rolls it back.

  \<^bold>\<open>Parameters.\<close> What is not in the repository is an argument of the definitions: the UUID parser, the
  JSON codec, the quoting of strconv and the clock (\<open>externals\<close>), the SQL driver (\<open>database\<close>), the queue
  (\<open>env_SendMessage\<close>), the router's matching of one template and its cleaning of a path (\<open>router\<close>), the order in which Go visits a
  map (\<open>range_order\<close>, one for each loop; the theorems hold for all of them), the conversion of a float64
  out of the range of uint16 (\<open>conv\<close>), the flag parser and the files at the start (\<open>startup\<close>), the uuid
  generator of the database (\<open>new\<close>), the text of a date and what \<open>EXECUTE\<close> makes of a statement into which
  \<open>content_pageview\<close> has spliced a text that is not a piece of a name (\<open>postgres\<close>). Hypotheses about them are named and documented: \<open>mux_matches\<close>,
  \<open>shipped_startup\<close>, \<open>backed_by\<close> with \<open>creates_clients\<close> and \<open>lists_clients\<close>, \<open>carries\<close>, \<open>connects\<close>. The
  sample instances of \<open>Samples\<close> and \<open>Witness_Site\<close> satisfy them.

  \<^bold>\<open>What is shown.\<close>

  \<^item> Validation. \<open>Rewrite_Loop\<close> is the contract of a loop over a map that rewrites the entries it
    visits, interpreted on the three such loops (\<open>legend\<close>, \<open>merge\<close>, \<open>prepare\<close>). From it:
    the accepted documents are exactly those of a reference definition (\<open>Validation_Exact\<close>) and have the
    shape of the schema afterwards, unknown fields are removed, the map order does not show, safe
    schemas never panic (\<open>Validation_Safety\<close>); what \<open>InitSchema\<close> makes of a schema (\<open>Validation_Init\<close>)
    and which schemas it takes (\<open>Validation_Accepts\<close>); the values of single fields
    (\<open>Validation_Cases\<close>).
  \<^item> Data layer. The contract \<open>numbering\<close> ties placeholders to arguments in every statement
    (\<open>Dal_Correct\<close>) of a new handler, and a handler that is used twice is out of step (\<open>Dal_Pages\<close>);
    without the primary key nothing is changed; pages of results and the place to go on from; the settings of the connection (\<open>Dal_Config_Correct\<close>).
  \<^item> Handlers. The contracts \<open>responder\<close> of the error answers (\<open>Common\<close>) and \<open>method_guard\<close> of refused
    methods (\<open>Handlers_Correct\<close>); the input document; the effects and the status of creating, changing,
    removing, listing and counting (\<open>Service_Correct\<close>, \<open>Service_Lists\<close> and below). \<open>Protocol\<close>: in one
    request the world goes through the phases of one step relation, so there is at most one
    statement, then at most one message.
  \<^item> Server. The start on the shipped configuration (\<open>Service_Shipped\<close>), the routing and the redirection
    of paths that are not clean (\<open>Server_Correct\<close>), and the absence of panics outside two kinds of request (\<open>Server_Safety\<close>).
  \<^item> Database. The keys and references of every reachable state (\<open>db_step\<close>), the contents a client
    counts (\<open>typed_step\<close>), idempotent creation, exact counting (\<open>Pg_Correct\<close>). \<open>Site\<close> puts service and database together: a request to create a client refines
    \<open>create_client\<close>, the list of the clients is a page of the client table.

  The witnesses apply each property with a hypothesis to a concrete input.

  \<^bold>\<open>Termination and bounds.\<close> Every definition is total and there is no fuel. The loops are structural;
  the checks of nested documents descend in the size of the schema (\<open>dsize\<close>), which is finite because
  the decoder of JSON builds trees. Counters are words of 64 bits, and the results that need a
  result set below the largest int64 say so.

  \<^bold>\<open>Not modelled.\<close> Log output and the access log; the sockets and time limits of net/http; handlers that
  run at the same time (they share only the configuration, which they do not change, and the
  database, whose statements are transactions); the inside of gorilla/mux, sarama, database/sql, lib/pq
  and PostgreSQL; the connection pools left open by every request. The unit tests, the C, C++ and Java programs and the
  deployment scripts of the repository are other programs.
\<close>

section \<open>Creating a client, end to end\<close>

text \<open>
  C30. An input that the check refuses is answered 400 (if the answer can be encoded) and
  nothing is sent to the database or the queue.
\<close>

theorem insert_client_invalid:
  assumes "Method r = ''POST''" and "combineInput (env_ext env) (env_ord env) r = (doc, None)"
    and "map_index (Settings cfg) ''client_message'' = GMap schema"
    and "ValidateWithSchema (env_ext env) (env_ord env) doc schema ''insert'' = Val (Some e, doc')"
    and "connects env cfg w" and "rw_status (writer w) = None"
  shows "\<exists>w'. InsertClientHandler env cfg r w = (Val (), w') \<and> answered 400 (opened_world env cfg w) w'"
proof -
  have "InsertClientHandler env cfg r w = reply_error env MakeInvalidInputResponse e (opened_world env cfg w)"
    using assms(1-5)
    by (simp add: InsertClientHandler_def with_input_run with_connection_run connects_def
      insert_client_post_def with_valid_refused [OF assms(3,4)])
  then show ?thesis
    using reply_error_answered [OF invalid_input.responder_axioms, of "opened_world env cfg w" env e] assms(6) by simp
qed

text \<open>
  C5. Creating a client: when the input is accepted and the stored function gives back a row
  with a text client_id, the handler has called the configured function once with the
  checked values under numbered placeholders, answers 201 with the Location of the new
  client, and sends one message about it to the queue, whose failure does not change the
  answer.
\<close>

theorem insert_client_creates:
  assumes "Method r = ''POST''" and "accepts env cfg ''client_message'' ''insert'' r doc'"
    and "connects env cfg w" and "action_is cfg ''insert'' f names"
    and "rw_status (writer w) = None" and "KafkaProducer cfg"
    and "db_Query (env_db env) (pool cfg) (call_text f names) (map (map_index doc') names)
           (outside (opened_world env cfg w)) = (Inr rows, s)"
    and "rs_rows rows = vals # rest"
    and "map_index (read_row (rs_columns rows) vals) ''client_id'' = GString ident"
    and "json_Marshal (env_ext env) (GMap (queue_message ''client_create'' (GString ident))) = Inr msg"
  shows "\<exists>w'. InsertClientHandler env cfg r w = (Val (), w') \<and>
    outside w' = snd (env_SendMessage env (KafkaTopic cfg) msg s) \<and>
    rw_status (writer w') = Some 201 \<and>
    map_of (rw_sent (writer w')) ''Location'' = Some (''/v'' @ ApiVersion cfg @ ''/client/'' @ ident)"
  using assms(5-10) assms(4)
  unfolding insert_client_accepted [OF assms(1-4)]
  by (subst call_function_run)
    (simp_all add: action_is_def first_record_def pbind_apply write_answer_def announce_def sendMessage_def
      MakeCreatedReponse_def WriteHeader_sent)

section \<open>The properties above on the sample service\<close>

theorem insert_client_invalid_witness:
  "\<exists>w'. InsertClientHandler (sample_env [] []) sample_cfg (sample_request ''POST'' [] []) sample_world = (Val (), w') \<and>
     answered 400 (opened_world (sample_env [] []) sample_cfg sample_world) w'"
  by (rule insert_client_invalid [OF _ _ sample_section, where doc = "Some []" and doc' = "Some []" and
        e = "ErrorString ''Field name is a required field''"])
    (simp_all add: sample_refuses combineInput_def Let_def)

theorem insert_client_creates_witness:
  "\<exists>w'. InsertClientHandler (sample_env [''client_id''] [[GString ''c1'']]) sample_cfg
       (sample_request ''POST'' ''abc'' []) sample_world = (Val (), w') \<and>
     outside w' = [(''select * from create_client($1)'', [GString ''abc'']), (''pageview'', [GString ''{}''])] \<and>
     rw_status (writer w') = Some 201 \<and>
     map_of (rw_sent (writer w')) ''Location'' = Some ''/v1/client/c1''"
proof -
  let ?env = "sample_env [''client_id''] [[GString ''c1'']]"
  have stmt: "call_text ''create_client'' [''name''] = ''select * from create_client($1)''"
    by (simp add: call_text_def placeholder_def FormatInt_def dec_nat.simps)
  have row: "map_index (read_row [''client_id''] [GString ''c1'']) ''client_id'' = GString ''c1''"
    by (simp add: read_row_def scan_values_def column_value_def map_index_def)
  have "\<exists>w'. InsertClientHandler ?env sample_cfg (sample_request ''POST'' ''abc'' []) sample_world = (Val (), w') \<and>
      outside w' = snd (env_SendMessage ?env (KafkaTopic sample_cfg) ''{}''
        [(''select * from create_client($1)'', [GString ''abc''])]) \<and>
      rw_status (writer w') = Some 201 \<and>
      map_of (rw_sent (writer w')) ''Location'' = Some (''/v'' @ ApiVersion sample_cfg @ ''/client/'' @ ''c1'')"
    by (rule insert_client_creates [OF _ sample_accepted _ sample_actions(1), where rest = "[]" and vals = "[GString ''c1'']" and
          rows = "sample_rows [''client_id''] [[GString ''c1'']]"])
      (simp_all add: stmt row sample_output_def map_index_Some)
  then show ?thesis by simp
qed

theorem insert_client_lost_witness:
  "InsertClientHandler (sample_env [''create_client''] [[GString ''c1'']]) sample_cfg
     (sample_request ''POST'' ''abc'' []) sample_world =
   (Panic TypeAssertion, sample_world\<lparr>outside := [(''select * from create_client($1)'', [GString ''abc''])]\<rparr>)"
proof (rule insert_client_lost [OF _ sample_accepted _ sample_actions(1)])
  show "db_Query (env_db (sample_env [''create_client''] [[GString ''c1'']])) (pool sample_cfg)
      (call_text ''create_client'' [''name'']) (map (map_index sample_output) [''name''])
      (outside (opened_world (sample_env [''create_client''] [[GString ''c1'']]) sample_cfg sample_world)) =
      (Inr (sample_rows [''create_client''] [[GString ''c1'']]), [(''select * from create_client($1)'', [GString ''abc''])])"
    by (simp add: call_text_def placeholder_def FormatInt_def dec_nat.simps sample_output_def map_index_def)
qed simp_all

end
